(* ===== verification/Prelude.thy ===== *)
theory Prelude
  imports Main "HOL-Library.Word" "HOL-Library.Sublist"
begin

section \<open>Prelude: results, effects and list lemmas shared by every component\<close>

text \<open>
  What the Rust code writes with \<open>Result\<close>, \<open>?\<close>, \<open>ok_or\<close>, \<open>map_err\<close> and
  \<open>collect\<close> is written here over the sum type \<open>'e + 'a\<close> (\<open>Inl\<close> is \<open>Err\<close>,
  \<open>Inr\<close> is \<open>Ok\<close>). A call that also changes the world it runs in has the type
  \<open>'w \<Rightarrow> ('e + 'a) \<times> 'w\<close>; \<open>bindS\<close> is \<open>?\<close> for such calls: the first error
  ends the function, and the effects made so far stay.
  The machine integers of the protocol are words of their own width.
\<close>

type_synonym u8 = "8 word"
type_synonym u16 = "16 word"
type_synonym u32 = "32 word"
type_synonym u64 = "64 word"
type_synonym u128 = "128 word"

type_synonym 'a result = "string + 'a"
type_synonym ('w, 'a) action = "'w \<Rightarrow> 'a result \<times> 'w"

named_theorems result_simps "evaluation of the result combinators"
named_theorems effect_simps "evaluation of the effectful combinators"

subsection \<open>Results\<close>

definition bindR :: "'e + 'a \<Rightarrow> ('a \<Rightarrow> 'e + 'b) \<Rightarrow> 'e + 'b" where
  "bindR r f = (case r of Inl e \<Rightarrow> Inl e | Inr x \<Rightarrow> f x)"

definition map_err :: "('e \<Rightarrow> 'f) \<Rightarrow> 'e + 'a \<Rightarrow> 'f + 'a" where
  "map_err g r = (case r of Inl e \<Rightarrow> Inl (g e) | Inr x \<Rightarrow> Inr x)"

definition ok_or :: "'a option \<Rightarrow> 'e \<Rightarrow> 'e + 'a" where
  "ok_or x e = (case x of None \<Rightarrow> Inl e | Some y \<Rightarrow> Inr y)"

definition ok :: "'e + 'a \<Rightarrow> 'a option" where
  "ok r = (case r of Inl _ \<Rightarrow> None | Inr x \<Rightarrow> Some x)"

definition is_ok :: "'e + 'a \<Rightarrow> bool" where
  "is_ok r = (case r of Inl _ \<Rightarrow> False | Inr _ \<Rightarrow> True)"

text \<open>Collecting an iterator of results: the first error wins.\<close>

primrec collectR :: "('e + 'a) list \<Rightarrow> 'e + 'a list" where
  "collectR [] = Inr []"
| "collectR (r # rs) = bindR r (\<lambda>x. bindR (collectR rs) (\<lambda>xs. Inr (x # xs)))"

lemma bindR_simps [simp, result_simps]:
  "bindR (Inl e) f = Inl e"
  "bindR (Inr x) f = f x"
  by (simp_all add: bindR_def)

lemma map_err_simps [simp, result_simps]:
  "map_err g (Inl e) = Inl (g e)"
  "map_err g (Inr x) = Inr x"
  by (simp_all add: map_err_def)

lemma ok_or_simps [simp, result_simps]:
  "ok_or None e = Inl e"
  "ok_or (Some x) e = Inr x"
  by (simp_all add: ok_or_def)

lemma ok_simps [simp, result_simps]:
  "ok (Inl e) = None"
  "ok (Inr x) = Some x"
  by (simp_all add: ok_def)

lemma is_ok_simps [simp, result_simps]:
  "is_ok (Inl e) = False"
  "is_ok (Inr x) = True"
  by (simp_all add: is_ok_def)

lemma bindR_eq_Inr [simp]: "bindR r f = Inr y \<longleftrightarrow> (\<exists>x. r = Inr x \<and> f x = Inr y)"
  by (cases r) auto

lemma bindR_eq_Inl: "bindR r f = Inl e \<longleftrightarrow> r = Inl e \<or> (\<exists>x. r = Inr x \<and> f x = Inl e)"
  by (cases r) auto

lemma map_err_eq_Inr [simp]: "map_err g r = Inr y \<longleftrightarrow> r = Inr y"
  by (cases r) auto

lemma map_err_eq_Inl: "map_err g r = Inl e \<longleftrightarrow> (\<exists>d. r = Inl d \<and> e = g d)"
  by (cases r) auto

lemma ok_or_eq_Inr [simp]: "ok_or x e = Inr y \<longleftrightarrow> x = Some y"
  by (cases x) auto

lemma ok_eq_Some [simp]: "ok r = Some x \<longleftrightarrow> r = Inr x"
  by (cases r) auto

lemma is_ok_iff: "is_ok r \<longleftrightarrow> (\<exists>x. r = Inr x)"
  by (cases r) auto

lemma collectR_eq_Inr:
  "collectR rs = Inr xs \<longleftrightarrow> rs = map Inr xs"
proof (induction rs arbitrary: xs)
  case Nil
  then show ?case by auto
next
  case (Cons r rs)
  then show ?case by (cases xs) auto
qed

lemma collectR_map_Inr [simp]: "collectR (map Inr xs) = Inr xs"
  by (simp add: collectR_eq_Inr)

lemma collectR_is_ok: "is_ok (collectR (map f xs)) \<longleftrightarrow> (\<forall>x \<in> set xs. is_ok (f x))"
proof (induction xs)
  case Nil
  then show ?case by simp
next
  case (Cons x xs)
  then show ?case
    by (cases "f x"; cases "collectR (map f xs)") auto
qed

lemma collectR_eq_Inl:
  "collectR rs = Inl e \<longleftrightarrow> (\<exists>xs us. rs = map Inr xs @ Inl e # us)"
proof (induction rs)
  case Nil
  then show ?case by auto
next
  case (Cons r rs)
  show ?case
  proof (cases r)
    case (Inl d)
    have "(\<exists>xs us. Inl d # rs = map Inr xs @ Inl e # us) \<longleftrightarrow> d = e"
    proof
      assume "\<exists>xs us. Inl d # rs = map Inr xs @ Inl e # us"
      then obtain xs us where "Inl d # rs = map Inr xs @ Inl e # us" by blast
      then show "d = e" by (cases xs) auto
    next
      assume "d = e"
      then have "Inl d # rs = map Inr [] @ Inl e # rs" by simp
      then show "\<exists>xs us. Inl d # rs = map Inr xs @ Inl e # us" by blast
    qed
    with Inl show ?thesis by simp
  next
    case (Inr x)
    have "(\<exists>xs us. Inr x # rs = map Inr xs @ Inl e # us)
        \<longleftrightarrow> (\<exists>xs us. rs = map Inr xs @ Inl e # us)"
    proof
      assume "\<exists>xs us. Inr x # rs = map Inr xs @ Inl e # us"
      then obtain xs us where "Inr x # rs = map Inr xs @ Inl e # us" by blast
      then show "\<exists>xs us. rs = map Inr xs @ Inl e # us" by (cases xs) auto
    next
      assume "\<exists>xs us. rs = map Inr xs @ Inl e # us"
      then obtain xs us where "rs = map Inr xs @ Inl e # us" by blast
      then have "Inr x # rs = map Inr (x # xs) @ Inl e # us" by simp
      then show "\<exists>xs us. Inr x # rs = map Inr xs @ Inl e # us" by blast
    qed
    with Inr Cons.IH show ?thesis by (cases "collectR rs") auto
  qed
qed

subsection \<open>Effects\<close>

definition bindS :: "('w, 'a) action \<Rightarrow> ('a \<Rightarrow> ('w, 'b) action) \<Rightarrow> ('w, 'b) action" where
  "bindS m f = (\<lambda>w. case m w of (Inl e, w') \<Rightarrow> (Inl e, w') | (Inr x, w') \<Rightarrow> f x w')"

definition retS :: "'a \<Rightarrow> ('w, 'a) action" where
  "retS x = (\<lambda>w. (Inr x, w))"

text \<open>A pure result used inside an effectful function.\<close>

definition liftR :: "'a result \<Rightarrow> ('w, 'a) action" where
  "liftR r = (\<lambda>w. (r, w))"

text \<open>A call whose result is ignored (\<open>let _ = \<dots>\<close>): its effect stays.\<close>

definition ignoreS :: "('w, 'a) action \<Rightarrow> ('w, unit) action" where
  "ignoreS m = (\<lambda>w. (Inr (), snd (m w)))"

definition map_errS :: "(string \<Rightarrow> string) \<Rightarrow> ('w, 'a) action \<Rightarrow> ('w, 'a) action" where
  "map_errS g m = (\<lambda>w. (map_err g (fst (m w)), snd (m w)))"

lemma map_errS_fst [simp]: "fst (map_errS g m w) = map_err g (fst (m w))"
  and map_errS_snd [simp]: "snd (map_errS g m w) = snd (m w)"
  by (simp_all add: map_errS_def)

lemma map_errS_eq_Inr: "map_errS g m w = (Inr x, w') \<longleftrightarrow> m w = (Inr x, w')"
  by (cases "m w") (auto simp: map_errS_def)

lemma map_errS_eq_Inl: "map_errS g m w = (Inl e, w') \<longleftrightarrow> (\<exists>d. m w = (Inl d, w') \<and> e = g d)"
  by (cases "m w") (auto simp: map_errS_def map_err_eq_Inl)

lemma retS_apply [simp, effect_simps]: "retS x w = (Inr x, w)"
  by (simp add: retS_def)

lemma liftR_apply [simp, effect_simps]: "liftR r w = (r, w)"
  by (simp add: liftR_def)

lemma ignoreS_apply [simp, effect_simps]: "ignoreS m w = (Inr (), snd (m w))"
  by (simp add: ignoreS_def)

lemma bindS_Inl [effect_simps]: "m w = (Inl e, w') \<Longrightarrow> bindS m f w = (Inl e, w')"
  by (simp add: bindS_def)

lemma bindS_Inr [effect_simps]: "m w = (Inr x, w') \<Longrightarrow> bindS m f w = f x w'"
  by (simp add: bindS_def)

lemma bindS_retS [simp]: "bindS (retS x) f = f x"
  by (simp add: bindS_def fun_eq_iff)

lemma bindS_liftR [simp]:
  "bindS (liftR (Inl e)) f w = (Inl e, w)"
  "bindS (liftR (Inr x)) f w = f x w"
  by (simp_all add: bindS_def)

lemma bindS_ignoreS [simp]: "bindS (ignoreS m) f w = f () (snd (m w))"
  by (simp add: bindS_def)

lemma bindS_eq_Inr:
  "bindS m f w = (Inr y, w'') \<longleftrightarrow> (\<exists>x w'. m w = (Inr x, w') \<and> f x w' = (Inr y, w''))"
  by (auto simp: bindS_def split: prod.splits sum.splits)

lemma bindS_cases:
  assumes "bindS m f w = (r, w'')"
  obtains (fail) e where "m w = (Inl e, w'')" "r = Inl e"
  | (next_op) x w' where "m w = (Inr x, w')" "f x w' = (r, w'')"
  using assms by (auto simp: bindS_def split: prod.splits sum.splits)

text \<open>
  What every call of a list of actions keeps, their sequence keeps: the rule behind the
  invariants of the effectful components.
\<close>

definition keeps :: "('w \<Rightarrow> bool) \<Rightarrow> ('w, 'a) action \<Rightarrow> bool" where
  "keeps P m \<longleftrightarrow> (\<forall>w. P w \<longrightarrow> P (snd (m w)))"

lemma keepsI [intro?]: "(\<And>w. P w \<Longrightarrow> P (snd (m w))) \<Longrightarrow> keeps P m"
  by (simp add: keeps_def)

lemma keepsD: "keeps P m \<Longrightarrow> P w \<Longrightarrow> P (snd (m w))"
  by (simp add: keeps_def)

lemma keeps_retS [simp, intro]: "keeps P (retS x)"
  by (simp add: keeps_def)

lemma keeps_liftR [simp, intro]: "keeps P (liftR r)"
  by (simp add: keeps_def)

lemma keeps_ignoreS [intro]: "keeps P m \<Longrightarrow> keeps P (ignoreS m)"
  by (simp add: keeps_def)

lemma keeps_map_errS [intro]: "keeps P m \<Longrightarrow> keeps P (map_errS g m)"
  by (simp add: keeps_def)

lemma keeps_bindS [intro]:
  assumes "keeps P m" and "\<And>x. keeps P (f x)"
  shows "keeps P (bindS m f)"
proof
  fix w
  assume "P w"
  then have "P (snd (m w))" using assms(1) by (rule keepsD [rotated])
  then show "P (snd (bindS m f w))"
    using assms(2) by (auto simp: bindS_def keeps_def split: prod.splits sum.splits)
qed

lemma keeps_bind_liftR:
  assumes "\<And>x. r = Inr x \<Longrightarrow> keeps P (f x)"
  shows "keeps P (bindS (liftR r) f)"
  using assms by (cases r) (simp_all add: keeps_def bindS_def liftR_def)

subsection \<open>Lists with unique keys\<close>

lemma find_SomeD: "find P xs = Some x \<Longrightarrow> x \<in> set xs \<and> P x"
  by (induction xs) (auto split: if_splits)

lemma find_unique_key:
  assumes "distinct (map k xs)" and "x \<in> set xs"
  shows "find (\<lambda>y. k y = k x) xs = Some x"
  using assms
proof (induction xs)
  case Nil
  then show ?case by simp
next
  case (Cons y ys)
  then show ?case by (auto simp: image_iff)
qed

lemma find_map_iff: "find P xs = None \<longleftrightarrow> (\<forall>x \<in> set xs. \<not> P x)"
  by (induction xs) auto

end
