(* ===== verification/Rust_Str.thy ===== *)
theory Rust_Str
  imports Prelude
begin

section \<open>The string functions of the Rust standard library the code uses\<close>

text \<open>
  A Rust \<open>String\<close> is the list of the bytes of its UTF-8 encoding: a \<open>string\<close> whose
  characters are bytes. Every function below works on bytes and agrees with the library on
  valid UTF-8: \<open>trim\<close> removes the encodings of the Unicode \<open>White_Space\<close> characters,
  and a split or a search for an ASCII character can never cut a longer encoding.
  Case folding is \<open>to_ascii_lowercase\<close> here; the Unicode \<open>to_lowercase\<close> is a
  parameter where it is used.
\<close>

subsection \<open>Trimming\<close>

definition ascii_ws :: "string list" where
  "ascii_ws = [[CHR 0x20], [CHR 0x09], [CHR 0x0A], [CHR 0x0B], [CHR 0x0C], [CHR 0x0D]]"

text \<open>U+0085, U+00A0, U+1680, U+2000 to U+200A, U+2028, U+2029, U+202F, U+205F, U+3000.\<close>

definition wide_ws :: "string list" where
  "wide_ws = [[CHR 0xC2, CHR 0x85], [CHR 0xC2, CHR 0xA0], [CHR 0xE1, CHR 0x9A, CHR 0x80],
     [CHR 0xE2, CHR 0x80, CHR 0x80], [CHR 0xE2, CHR 0x80, CHR 0x81],
     [CHR 0xE2, CHR 0x80, CHR 0x82], [CHR 0xE2, CHR 0x80, CHR 0x83],
     [CHR 0xE2, CHR 0x80, CHR 0x84], [CHR 0xE2, CHR 0x80, CHR 0x85],
     [CHR 0xE2, CHR 0x80, CHR 0x86], [CHR 0xE2, CHR 0x80, CHR 0x87],
     [CHR 0xE2, CHR 0x80, CHR 0x88], [CHR 0xE2, CHR 0x80, CHR 0x89],
     [CHR 0xE2, CHR 0x80, CHR 0x8A], [CHR 0xE2, CHR 0x80, CHR 0xA8],
     [CHR 0xE2, CHR 0x80, CHR 0xA9], [CHR 0xE2, CHR 0x80, CHR 0xAF],
     [CHR 0xE2, CHR 0x81, CHR 0x9F], [CHR 0xE3, CHR 0x80, CHR 0x80]]"

definition white_space :: "string list" where
  "white_space = ascii_ws @ wide_ws"

function strip_front :: "string list \<Rightarrow> string \<Rightarrow> string" where
  "strip_front ws s =
     (case find (\<lambda>w. w \<noteq> [] \<and> prefix w s) ws of
        None \<Rightarrow> s
      | Some w \<Rightarrow> strip_front ws (drop (length w) s))"
  by pat_completeness auto
termination
proof (relation "measure (\<lambda>(ws, s). length s)", goal_cases)
  case 1
  then show ?case by simp
next
  case (2 ws s w)
  then have "w \<noteq> []" and "prefix w s" by (auto dest: find_SomeD)
  then show ?case by (auto simp: prefix_def)
qed

declare strip_front.simps [simp del]

definition trim_start :: "string \<Rightarrow> string" where
  "trim_start s = strip_front white_space s"

definition trim_end :: "string \<Rightarrow> string" where
  "trim_end s = rev (strip_front (map rev white_space) (rev s))"

definition trim :: "string \<Rightarrow> string" where
  "trim s = trim_end (trim_start s)"

definition starts_blank :: "string list \<Rightarrow> string \<Rightarrow> bool" where
  "starts_blank ws s \<longleftrightarrow> (\<exists>w \<in> set ws. w \<noteq> [] \<and> prefix w s)"

lemma strip_front_id: "\<not> starts_blank ws s \<Longrightarrow> strip_front ws s = s"
  by (subst strip_front.simps)
    (auto simp: starts_blank_def find_map_iff split: option.splits dest: find_SomeD)

lemma strip_front_clean: "\<not> starts_blank ws (strip_front ws s)"
proof (induction ws s rule: strip_front.induct)
  case (1 ws s)
  show ?case
  proof (cases "find (\<lambda>w. w \<noteq> [] \<and> prefix w s) ws")
    case None
    then have "\<not> starts_blank ws s" by (auto simp: starts_blank_def find_map_iff)
    then show ?thesis by (simp add: strip_front_id)
  next
    case (Some w)
    with "1" [OF Some] show ?thesis by (subst strip_front.simps) simp
  qed
qed

lemma strip_front_suffix: "suffix (strip_front ws s) s"
proof (induction ws s rule: strip_front.induct)
  case (1 ws s)
  show ?case
  proof (cases "find (\<lambda>w. w \<noteq> [] \<and> prefix w s) ws")
    case None
    then show ?thesis by (subst strip_front.simps) simp
  next
    case (Some w)
    with "1" [OF Some] show ?thesis
      by (subst strip_front.simps) (auto intro: suffix_order.trans suffix_drop)
  qed
qed

lemma starts_blank_prefix: "starts_blank ws p \<Longrightarrow> prefix p s \<Longrightarrow> starts_blank ws s"
  by (auto simp: starts_blank_def intro: prefix_order.trans)

lemma trim_end_prefix: "prefix (trim_end s) s"
proof -
  have "suffix (strip_front (map rev white_space) (rev s)) (rev s)"
    by (rule strip_front_suffix)
  then show ?thesis by (simp add: trim_end_def suffix_to_prefix)
qed

definition trimmed :: "string \<Rightarrow> bool" where
  "trimmed s \<longleftrightarrow> \<not> starts_blank white_space s
     \<and> \<not> starts_blank (map rev white_space) (rev s)"

lemma trimmed_trim [simp]: "trimmed (trim s)"
proof -
  have "\<not> starts_blank white_space (trim_start s)"
    by (simp add: trim_start_def strip_front_clean)
  then have "\<not> starts_blank white_space (trim s)"
    unfolding trim_def using trim_end_prefix starts_blank_prefix by blast
  moreover have "\<not> starts_blank (map rev white_space) (rev (trim s))"
    by (simp add: trim_def trim_end_def strip_front_clean)
  ultimately show ?thesis by (simp add: trimmed_def)
qed

lemma trim_trimmed: "trimmed s \<Longrightarrow> trim s = s"
  by (simp add: trimmed_def trim_def trim_end_def trim_start_def strip_front_id)

lemma trim_idem [simp]: "trim (trim s) = trim s"
  by (simp add: trim_trimmed)

lemma trimmed_iff: "trimmed s \<longleftrightarrow> trim s = s"
  using trim_trimmed trimmed_trim by metis

lemma trim_Nil [simp]: "trim [] = []"
  by (rule trim_trimmed) (auto simp: trimmed_def starts_blank_def)

text \<open>
  A string that starts and ends with a graphic ASCII character is its own trim: the fact
  that keeps keys, addresses and numbers out of the way of the whitespace table.
\<close>

definition graphic :: "char \<Rightarrow> bool" where
  "graphic c \<longleftrightarrow> 0x20 < (of_char c :: nat) \<and> (of_char c :: nat) < 0x7F"

lemma white_space_ends:
  "\<forall>w \<in> set white_space. w \<noteq> [] \<and> \<not> graphic (hd w) \<and> \<not> graphic (last w)"
  by (simp add: white_space_def ascii_ws_def wide_ws_def graphic_def)

lemma trimmed_graphic:
  assumes "s = [] \<or> graphic (hd s) \<and> graphic (last s)"
  shows "trimmed s"
proof (cases "s = []")
  case True
  then show ?thesis by (simp add: trimmed_iff)
next
  case False
  with assms have g: "graphic (hd s)" "graphic (last s)" by auto
  have "hd w = hd s" if "w \<noteq> []" "prefix w s" for w
    using that by (auto simp: prefix_def)
  then have "\<not> starts_blank white_space s"
    using g(1) white_space_ends by (metis starts_blank_def)
  moreover have "hd (rev w) = hd (rev s)" if "w \<noteq> []" "prefix (rev w) (rev s)" for w
    using that by (auto simp: prefix_def hd_append split: if_splits)
  then have "\<not> starts_blank (map rev white_space) (rev s)"
    using g(2) white_space_ends
    by (simp add: starts_blank_def hd_rev) (metis hd_rev)
  ultimately show ?thesis by (simp add: trimmed_def)
qed

lemma trim_graphic: "s = [] \<or> graphic (hd s) \<and> graphic (last s) \<Longrightarrow> trim s = s"
  by (rule trim_trimmed [OF trimmed_graphic])

subsection \<open>Splitting\<close>

text \<open>\<open>s.split(c)\<close>: never empty; \<open>s.split_once(c)\<close>; \<open>s.find(c)\<close> as the part before it.\<close>

fun split_on :: "char \<Rightarrow> string \<Rightarrow> string list" where
  "split_on c [] = [[]]"
| "split_on c (x # xs) =
     (if x = c then [] # split_on c xs
      else (case split_on c xs of [] \<Rightarrow> [[x]] | p # ps \<Rightarrow> (x # p) # ps))"

fun split_once :: "char \<Rightarrow> string \<Rightarrow> (string \<times> string) option" where
  "split_once c [] = None"
| "split_once c (x # xs) =
     (if x = c then Some ([], xs) else map_option (\<lambda>(a, b). (x # a, b)) (split_once c xs))"

definition before_char :: "char \<Rightarrow> string \<Rightarrow> string" where
  "before_char c s = takeWhile (\<lambda>x. x \<noteq> c) s"

definition strip_prefix_char :: "char \<Rightarrow> string \<Rightarrow> string option" where
  "strip_prefix_char c s = (case s of [] \<Rightarrow> None | x # xs \<Rightarrow> if x = c then Some xs else None)"

definition strip_suffix_char :: "char \<Rightarrow> string \<Rightarrow> string option" where
  "strip_suffix_char c s = (if s \<noteq> [] \<and> last s = c then Some (butlast s) else None)"

definition or_self :: "string option \<Rightarrow> string \<Rightarrow> string" where
  "or_self x s = (case x of None \<Rightarrow> s | Some y \<Rightarrow> y)"

definition join :: "string \<Rightarrow> string list \<Rightarrow> string" where
  "join sep xs = (case xs of [] \<Rightarrow> [] | y # ys \<Rightarrow> y @ concat (map (\<lambda>z. sep @ z) ys))"

lemma split_on_not_Nil [simp]: "split_on c s \<noteq> []"
  by (induction s) (auto split: list.splits)

lemma split_on_no_sep: "c \<notin> set s \<Longrightarrow> split_on c s = [s]"
  by (induction s) auto

lemma split_on_append_sep:
  "c \<notin> set s \<Longrightarrow> split_on c (s @ c # t) = s # split_on c t"
  by (induction s) auto

lemma split_on_pieces: "p \<in> set (split_on c s) \<Longrightarrow> c \<notin> set p"
proof (induction s arbitrary: p)
  case Nil
  then show ?case by simp
next
  case (Cons x xs)
  obtain q qs where "split_on c xs = q # qs"
    by (cases "split_on c xs") auto
  with Cons show ?case by (auto split: if_splits)
qed

lemma split_once_append: "c \<notin> set a \<Longrightarrow> split_once c (a @ c # b) = Some (a, b)"
  by (induction a) auto

lemma split_once_None: "split_once c s = None \<longleftrightarrow> c \<notin> set s"
  by (induction s) auto

lemma split_once_SomeD: "split_once c s = Some (a, b) \<Longrightarrow> s = a @ c # b \<and> c \<notin> set a"
  by (induction s arbitrary: a) (auto split: if_splits)

lemma before_char_id: "c \<notin> set s \<Longrightarrow> before_char c s = s"
  by (simp add: before_char_def takeWhile_eq_all_conv) blast

lemma before_char_append: "c \<notin> set s \<Longrightarrow> before_char c (s @ c # t) = s"
  by (induction s) (auto simp: before_char_def)

lemma split_on_join:
  assumes "xs \<noteq> []" and "\<forall>x \<in> set xs. c \<notin> set x"
  shows "split_on c (join [c] xs) = xs"
  using assms
proof (induction xs)
  case Nil
  then show ?case by simp
next
  case (Cons x xs)
  show ?case
  proof (cases xs)
    case Nil
    with Cons.prems show ?thesis by (simp add: join_def split_on_no_sep)
  next
    case (Cons y ys)
    with Cons.IH Cons.prems have "split_on c (join [c] xs) = xs" by simp
    moreover have "join [c] (x # xs) = x @ c # join [c] xs"
      by (simp add: join_def Cons)
    ultimately show ?thesis using Cons.prems by (simp add: split_on_append_sep)
  qed
qed

subsection \<open>Lines\<close>

text \<open>
  \<open>str::lines\<close>: split at each line feed, keep no empty last line, and drop one carriage
  return in front of a line feed. A last line without a line feed keeps its carriage return.
\<close>

fun raw_lines :: "string \<Rightarrow> string \<Rightarrow> string list" where
  "raw_lines acc [] = (if acc = [] then [] else [rev acc])"
| "raw_lines acc (c # cs) =
     (if c = CHR 0x0A then or_self (strip_suffix_char (CHR 0x0D) (rev acc)) (rev acc) # raw_lines [] cs
      else raw_lines (c # acc) cs)"

definition str_lines :: "string \<Rightarrow> string list" where
  "str_lines s = raw_lines [] s"

lemma raw_lines_append:
  assumes "CHR 0x0A \<notin> set l"
  shows "raw_lines acc (l @ CHR 0x0A # t) =
    or_self (strip_suffix_char (CHR 0x0D) (rev acc @ l)) (rev acc @ l) # raw_lines [] t"
  using assms by (induction l arbitrary: acc) auto

lemma str_lines_line:
  "CHR 0x0A \<notin> set l \<Longrightarrow>
   str_lines (l @ CHR 0x0A # t) = or_self (strip_suffix_char (CHR 0x0D) l) l # str_lines t"
  by (simp add: str_lines_def raw_lines_append)

lemma str_lines_Nil [simp]: "str_lines [] = []"
  by (simp add: str_lines_def)

lemma strip_cr_none: "CHR 0x0D \<notin> set l \<Longrightarrow> or_self (strip_suffix_char (CHR 0x0D) l) l = l"
  by (cases "l = []") (use last_in_set in \<open>fastforce simp: or_self_def strip_suffix_char_def\<close>)+

lemma strip_cr_snoc: "or_self (strip_suffix_char (CHR 0x0D) (l @ [CHR 0x0D])) (l @ [CHR 0x0D]) = l"
  by (simp add: or_self_def strip_suffix_char_def)

subsection \<open>ASCII case, substrings, counting\<close>

definition ascii_lower :: "char \<Rightarrow> char" where
  "ascii_lower c =
     (if 65 \<le> (of_char c :: nat) \<and> (of_char c :: nat) \<le> 90 then char_of ((of_char c :: nat) + 32)
      else c)"

definition to_ascii_lowercase :: "string \<Rightarrow> string" where
  "to_ascii_lowercase s = map ascii_lower s"

definition eq_ignore_ascii_case :: "string \<Rightarrow> string \<Rightarrow> bool" where
  "eq_ignore_ascii_case a b \<longleftrightarrow> to_ascii_lowercase a = to_ascii_lowercase b"

definition is_ascii_alphanumeric :: "char \<Rightarrow> bool" where
  "is_ascii_alphanumeric c \<longleftrightarrow>
     (let n = (of_char c :: nat)
      in 48 \<le> n \<and> n \<le> 57 \<or> 65 \<le> n \<and> n \<le> 90 \<or> 97 \<le> n \<and> n \<le> 122)"

text \<open>\<open>hay.contains(needle)\<close>.\<close>

fun str_contains :: "string \<Rightarrow> string \<Rightarrow> bool" where
  "str_contains [] n \<longleftrightarrow> n = []"
| "str_contains (x # xs) n \<longleftrightarrow> prefix n (x # xs) \<or> str_contains xs n"

lemma str_contains_iff: "str_contains s n \<longleftrightarrow> sublist n s"
  by (induction s) (auto simp: sublist_Cons_right)

text \<open>A UTF-8 byte that continues a character, and the number of characters of a string.\<close>

definition is_continuation :: "char \<Rightarrow> bool" where
  "is_continuation c \<longleftrightarrow> 128 \<le> (of_char c :: nat) \<and> (of_char c :: nat) < 192"

definition char_count :: "string \<Rightarrow> nat" where
  "char_count s = length (filter (\<lambda>c. \<not> is_continuation c) s)"

definition is_char_boundary :: "string \<Rightarrow> nat \<Rightarrow> bool" where
  "is_char_boundary s n \<longleftrightarrow> n = 0 \<or> n = length s \<or> (n < length s \<and> \<not> is_continuation (s ! n))"

text \<open>
  UTF-8 as the library decodes it: one character, or one maximal ill-formed piece, at the
  start of a string that is not empty, and its length. \<open>read_to_string\<close> and \<open>read_line\<close>
  demand \<open>utf8_valid\<close>; \<open>String::from_utf8_lossy\<close> writes U+FFFD for each ill-formed piece.
\<close>

definition utf8_chunk :: "string \<Rightarrow> bool \<times> nat" where
  "utf8_chunk s =
     (let b = (\<lambda>i. if i < length s then of_char (s ! i) else (0 :: nat));
          cont = (\<lambda>i. 128 \<le> b i \<and> b i < 192)
      in if b 0 < 128 then (True, 1)
         else if 0xC2 \<le> b 0 \<and> b 0 \<le> 0xDF then (if cont 1 then (True, 2) else (False, 1))
         else if 0xE0 \<le> b 0 \<and> b 0 \<le> 0xEF then
           (if \<not> (cont 1 \<and> (b 0 = 0xE0 \<longrightarrow> 0xA0 \<le> b 1) \<and> (b 0 = 0xED \<longrightarrow> b 1 < 0xA0)) then (False, 1)
            else if \<not> cont 2 then (False, 2) else (True, 3))
         else if 0xF0 \<le> b 0 \<and> b 0 \<le> 0xF4 then
           (if \<not> (cont 1 \<and> (b 0 = 0xF0 \<longrightarrow> 0x90 \<le> b 1) \<and> (b 0 = 0xF4 \<longrightarrow> b 1 < 0x90)) then (False, 1)
            else if \<not> cont 2 then (False, 2) else if \<not> cont 3 then (False, 3) else (True, 4))
         else (False, 1))"

lemma utf8_chunk_pos: "0 < snd (utf8_chunk s)"
  by (simp add: utf8_chunk_def Let_def)

function utf8_valid :: "string \<Rightarrow> bool" where
  "utf8_valid s =
     (if s = [] then True
      else fst (utf8_chunk s) \<and> utf8_valid (drop (snd (utf8_chunk s)) s))"
  by pat_completeness auto
termination
  by (relation "measure length") (simp_all add: utf8_chunk_pos)

declare utf8_valid.simps [simp del]

function from_utf8_lossy :: "string \<Rightarrow> string" where
  "from_utf8_lossy s =
     (if s = [] then []
      else let (good, n) = utf8_chunk s
           in (if good then take n s else [CHR 0xEF, CHR 0xBF, CHR 0xBD]) @ from_utf8_lossy (drop n s))"
  by pat_completeness auto
termination
proof (relation "measure length", goal_cases)
  case 1
  then show ?case by simp
next
  case (2 s x good n)
  then have "0 < n" using utf8_chunk_pos [of s] by (metis snd_conv)
  with 2 show ?case by simp
qed

declare from_utf8_lossy.simps [simp del]

lemma from_utf8_lossy_valid: "utf8_valid s \<Longrightarrow> from_utf8_lossy s = s"
proof (induction s rule: from_utf8_lossy.induct)
  case (1 s)
  show ?case
  proof (cases "s = []")
    case True
    then show ?thesis by (simp add: from_utf8_lossy.simps)
  next
    case False
    obtain g n where c: "utf8_chunk s = (g, n)" by (cases "utf8_chunk s")
    have "fst (utf8_chunk s) \<and> utf8_valid (drop (snd (utf8_chunk s)) s)"
      using 1(2) False by (subst (asm) utf8_valid.simps) simp
    with c have v: "g" "utf8_valid (drop n s)" by simp_all
    have "from_utf8_lossy (drop n s) = drop n s"
      using 1(1) [OF False refl c [symmetric] v(2)] c by simp
    with False c v(1) show ?thesis by (subst from_utf8_lossy.simps) simp
  qed
qed

lemma utf8_valid_ascii: "list_all (\<lambda>c. (of_char c :: nat) < 128) s \<Longrightarrow> utf8_valid s"
proof (induction s)
  case Nil
  then show ?case by (subst utf8_valid.simps) simp
next
  case (Cons c s)
  then have "utf8_chunk (c # s) = (True, 1)" by (simp add: utf8_chunk_def Let_def)
  with Cons show ?case by (subst utf8_valid.simps) simp
qed

lemma ascii_lower_idem [simp]: "ascii_lower (ascii_lower c) = ascii_lower c"
  by (auto simp: ascii_lower_def)

lemma to_ascii_lowercase_idem [simp]:
  "to_ascii_lowercase (to_ascii_lowercase s) = to_ascii_lowercase s"
  by (simp add: to_ascii_lowercase_def)

lemma eq_ignore_ascii_case_refl [simp]: "eq_ignore_ascii_case s s"
  by (simp add: eq_ignore_ascii_case_def)

subsection \<open>Decimal numbers\<close>

definition digit_char :: "nat \<Rightarrow> char" where
  "digit_char d = char_of (48 + d)"

fun show_nat :: "nat \<Rightarrow> string" where
  "show_nat n = (if n < 10 then [digit_char n] else show_nat (n div 10) @ [digit_char (n mod 10)])"

declare show_nat.simps [simp del]

text \<open>\<open>char::to_digit\<close> for the radixes 10 and 16.\<close>

definition digit_value :: "nat \<Rightarrow> char \<Rightarrow> nat option" where
  "digit_value radix c =
     (let n = (of_char c :: nat);
          d = (if 48 \<le> n \<and> n \<le> 57 then n - 48
               else if 97 \<le> n \<and> n \<le> 102 then n - 87
               else if 65 \<le> n \<and> n \<le> 70 then n - 55 else 16)
      in if d < radix \<and> d < 16 then Some d else None)"

definition is_digit :: "nat \<Rightarrow> char \<Rightarrow> bool" where
  "is_digit radix c \<longleftrightarrow> digit_value radix c \<noteq> None"

definition digits_value :: "nat \<Rightarrow> string \<Rightarrow> nat" where
  "digits_value radix s =
     foldl (\<lambda>n c. n * radix + (case digit_value radix c of None \<Rightarrow> 0 | Some d \<Rightarrow> d)) 0 s"

text \<open>
  \<open>str::parse\<close> for an unsigned type with the given largest value: an optional plus sign,
  then at least one digit; every other character, or a value too large, is an error.
\<close>

definition parse_unsigned :: "nat \<Rightarrow> string \<Rightarrow> nat option" where
  "parse_unsigned max_value s =
     (let ds = (case s of [] \<Rightarrow> [] | c # cs \<Rightarrow> if c = CHR ''+'' then cs else s)
      in if ds \<noteq> [] \<and> list_all (is_digit 10) ds \<and> digits_value 10 ds \<le> max_value
         then Some (digits_value 10 ds) else None)"

definition parse_u16 :: "string \<Rightarrow> u16 option" where
  "parse_u16 s = map_option of_nat (parse_unsigned (2 ^ 16 - 1) s)"

definition parse_u32 :: "string \<Rightarrow> u32 option" where
  "parse_u32 s = map_option of_nat (parse_unsigned (2 ^ 32 - 1) s)"

lemma digit_value_digit_char [simp]: "d < 10 \<Longrightarrow> digit_value 10 (digit_char d) = Some d"
  by (simp add: digit_value_def digit_char_def Let_def)

lemma is_digit_digit_char [simp]: "d < 10 \<Longrightarrow> is_digit 10 (digit_char d)"
  by (simp add: is_digit_def)

lemma digits_value_snoc [simp]:
  "digits_value r (s @ [c]) =
     digits_value r s * r + (case digit_value r c of None \<Rightarrow> 0 | Some d \<Rightarrow> d)"
  by (simp add: digits_value_def)

lemma digits_value_Nil [simp]: "digits_value r [] = 0"
  by (simp add: digits_value_def)

lemma show_nat_not_Nil [simp]: "show_nat n \<noteq> []"
  by (subst show_nat.simps) simp

lemma show_nat_digits: "list_all (is_digit 10) (show_nat n)"
proof (induction n rule: show_nat.induct)
  case (1 n)
  then show ?case by (subst show_nat.simps) auto
qed

lemma digits_value_show_nat [simp]: "digits_value 10 (show_nat n) = n"
proof (induction n rule: show_nat.induct)
  case (1 n)
  show ?case
  proof (cases "n < 10")
    case True
    then show ?thesis
      using digits_value_snoc [of 10 "[]" "digit_char n"] by (subst show_nat.simps) simp
  next
    case False
    with "1" show ?thesis by (subst show_nat.simps) simp
  qed
qed

lemma digit_graphic: "is_digit 10 c \<Longrightarrow> graphic c"
  by (auto simp: is_digit_def digit_value_def graphic_def Let_def split: if_splits)

lemma digit_not_plus: "is_digit 10 c \<Longrightarrow> c \<noteq> CHR ''+''"
  by (auto simp: is_digit_def digit_value_def Let_def)

lemma parse_unsigned_show_nat:
  assumes "n \<le> m"
  shows "parse_unsigned m (show_nat n) = Some n"
proof -
  obtain c cs where s: "show_nat n = c # cs"
    by (cases "show_nat n") auto
  then have "is_digit 10 c" using show_nat_digits [of n] by simp
  then have "c \<noteq> CHR ''+''" by (rule digit_not_plus)
  with s assms show ?thesis
    using show_nat_digits [of n] digits_value_show_nat [of n]
    by (simp add: parse_unsigned_def Let_def)
qed

lemma parse_u16_show [simp]: "parse_u16 (show_nat (unat p)) = Some p"
proof -
  have "unat p < 2 ^ LENGTH(16)" by (rule unsigned_less)
  then have "unat p \<le> 2 ^ 16 - 1" by simp
  then show ?thesis by (simp add: parse_u16_def parse_unsigned_show_nat)
qed

lemma parse_u32_show [simp]: "parse_u32 (show_nat (unat p)) = Some p"
proof -
  have "unat p < 2 ^ LENGTH(32)" by (rule unsigned_less)
  then have "unat p \<le> 2 ^ 32 - 1" by simp
  then show ?thesis by (simp add: parse_u32_def parse_unsigned_show_nat)
qed

lemma show_nat_graphic: "\<forall>c \<in> set (show_nat n). graphic c"
  using show_nat_digits [of n] digit_graphic by (auto simp: list_all_iff)

lemma trim_show_nat [simp]: "trim (show_nat n) = show_nat n"
  using show_nat_graphic [of n] by (intro trim_graphic) auto

subsection \<open>Trimming and splitting together\<close>

lemma set_trim_subset: "set (trim s) \<subseteq> set s"
proof -
  have "set (trim s) \<subseteq> set (trim_start s)"
    unfolding trim_def using trim_end_prefix [of "trim_start s"] by (rule set_mono_prefix)
  also have "\<dots> \<subseteq> set s"
    unfolding trim_start_def using strip_front_suffix by (rule set_mono_suffix)
  finally show ?thesis .
qed

lemma split_on_subset: "p \<in> set (split_on c s) \<Longrightarrow> set p \<subseteq> set s"
proof (induction s arbitrary: p)
  case Nil
  then show ?case by simp
next
  case (Cons x xs)
  obtain q qs where "split_on c xs = q # qs"
    by (cases "split_on c xs") auto
  with Cons show ?case by (fastforce split: if_splits)
qed

lemma trimmed_last_cr: "trimmed s \<Longrightarrow> s \<noteq> [] \<Longrightarrow> last s \<noteq> CHR 0x0D"
  by (cases s rule: rev_cases) (auto simp: trimmed_def starts_blank_def white_space_def ascii_ws_def)

lemma strip_cr_trimmed: "trimmed s \<Longrightarrow> or_self (strip_suffix_char CHR 0x0D s) s = s"
  using trimmed_last_cr [of s] by (auto simp: or_self_def strip_suffix_char_def)

lemma white_space_graphic_free: "\<forall>w \<in> set white_space. \<forall>c \<in> set w. \<not> graphic c"
  by (simp add: white_space_def ascii_ws_def wide_ws_def graphic_def)

text \<open>A graphic first character, a graphic separator and a trimmed tail make a trimmed string.\<close>

lemma trimmed_append:
  assumes "k \<noteq> []" "graphic (hd k)" "graphic c" "trimmed v"
  shows "trimmed (k @ c # v)"
proof -
  have "\<not> starts_blank white_space (k @ c # v)"
    using assms(1,2) white_space_ends by (auto simp: starts_blank_def prefix_def hd_append) (metis hd_append2)
  moreover have "\<not> starts_blank (map rev white_space) (rev v @ c # rev k)"
  proof
    assume "starts_blank (map rev white_space) (rev v @ c # rev k)"
    then obtain w where w: "w \<in> set white_space" "w \<noteq> []" "prefix (rev w) (rev v @ c # rev k)"
      by (auto simp: starts_blank_def)
    have "c \<notin> set (rev w)" using w(1) white_space_graphic_free assms(3) by auto
    with w(3) have "prefix (rev w) (rev v)"
      by (auto simp: prefix_append prefix_Cons dest: arg_cong [where f = set])
    with w(1,2) assms(4) show False by (auto simp: trimmed_def starts_blank_def)
  qed
  ultimately show ?thesis by (simp add: trimmed_def)
qed

lemma trimmed_around:
  assumes "trimmed a" "a \<noteq> []" "graphic c" "trimmed b"
  shows "trimmed (a @ c # b)"
proof -
  have "\<not> starts_blank white_space (a @ c # b)"
  proof
    assume "starts_blank white_space (a @ c # b)"
    then obtain w where w: "w \<in> set white_space" "w \<noteq> []" "prefix w (a @ c # b)"
      by (auto simp: starts_blank_def)
    have "c \<notin> set w" using w(1) white_space_graphic_free assms(3) by auto
    with w(3) have "prefix w a"
      by (auto simp: prefix_append prefix_Cons)
    with w(1,2) assms(1) show False by (auto simp: trimmed_def starts_blank_def)
  qed
  moreover have "\<not> starts_blank (map rev white_space) (rev b @ c # rev a)"
  proof
    assume "starts_blank (map rev white_space) (rev b @ c # rev a)"
    then obtain w where w: "w \<in> set white_space" "w \<noteq> []" "prefix (rev w) (rev b @ c # rev a)"
      by (auto simp: starts_blank_def)
    have "c \<notin> set (rev w)" using w(1) white_space_graphic_free assms(3) by auto
    with w(3) have "prefix (rev w) (rev b)"
      by (auto simp: prefix_append prefix_Cons dest: arg_cong [where f = set])
    with w(1,2) assms(4) show False by (auto simp: trimmed_def starts_blank_def)
  qed
  ultimately show ?thesis by (simp add: trimmed_def)
qed

lemma raw_lines_no_lf: "l \<in> set (raw_lines acc s) \<Longrightarrow> CHR 0x0A \<notin> set acc \<Longrightarrow> CHR 0x0A \<notin> set l"
proof (induction s arbitrary: acc l)
  case Nil
  then show ?case by (auto split: if_splits)
next
  case (Cons c cs)
  have "CHR 0x0A \<notin> set (or_self (strip_suffix_char CHR 0x0D (rev acc)) (rev acc))"
    using Cons.prems(2) in_set_butlastD [of _ "rev acc"]
    by (auto simp: or_self_def strip_suffix_char_def simp del: butlast_rev)
  with Cons show ?case by (force split: if_splits)
qed

lemma str_lines_no_lf: "l \<in> set (str_lines s) \<Longrightarrow> CHR 0x0A \<notin> set l"
  by (simp add: str_lines_def raw_lines_no_lf)

lemma str_lines_concat:
  assumes "\<forall>l \<in> set ls. trimmed l \<and> CHR 0x0A \<notin> set l"
  shows "str_lines (concat (map (\<lambda>l. l @ [CHR 0x0A]) ls)) = ls"
  using assms by (induction ls) (simp_all add: str_lines_line strip_cr_trimmed)

text \<open>A carriage return at the end of a string is trimmed away.\<close>

lemma find_blank_cr:
  "find (\<lambda>w. w \<noteq> [] \<and> prefix w (CHR 0x0D # s)) (map rev white_space) = Some [CHR 0x0D]"
  by (simp add: white_space_def ascii_ws_def)

lemma trim_end_cr: "trim_end (s @ [CHR 0x0D]) = trim_end s"
  by (simp add: trim_end_def) (subst strip_front.simps, simp add: find_blank_cr)

lemma blank_snoc_cr:
  assumes "s \<noteq> []"
  shows "find (\<lambda>w. w \<noteq> [] \<and> prefix w (s @ [CHR 0x0D])) white_space
    = find (\<lambda>w. w \<noteq> [] \<and> prefix w s) white_space"
proof (rule find_cong [OF refl])
  fix w
  assume "w \<in> set white_space"
  then have "w \<noteq> s @ [CHR 0x0D]"
    using assms by (auto simp: white_space_def ascii_ws_def wide_ws_def Cons_eq_append_conv)
  then show "(w \<noteq> [] \<and> prefix w (s @ [CHR 0x0D])) = (w \<noteq> [] \<and> prefix w s)"
    by simp
qed

lemma strip_front_cr: "strip_front white_space [CHR 0x0D] = []"
  by (subst strip_front.simps, simp add: white_space_def ascii_ws_def)
    (simp add: strip_front_id starts_blank_def)

lemma trim_start_cr:
  "trim_start (s @ [CHR 0x0D]) = (if trim_start s = [] then [] else trim_start s @ [CHR 0x0D])"
proof -
  have "strip_front ws (s @ [CHR 0x0D])
      = (if strip_front ws s = [] then [] else strip_front ws s @ [CHR 0x0D])"
    if "ws = white_space" for ws
    using that
  proof (induction ws s rule: strip_front.induct)
    case (1 ws s)
    show ?case
    proof (cases "s = []")
      case True
      then show ?thesis by (simp add: 1(2) strip_front_cr strip_front_id starts_blank_def)
    next
      case False
      note same = blank_snoc_cr [OF this]
      show ?thesis
      proof (cases "find (\<lambda>w. w \<noteq> [] \<and> prefix w s) ws")
        case None
        then have "strip_front ws (s @ [CHR 0x0D]) = s @ [CHR 0x0D]" "strip_front ws s = s"
          using same 1(2) by (subst strip_front.simps, simp)+
        with False show ?thesis by simp
      next
        case (Some w)
        then have "prefix w s" by (auto dest: find_SomeD)
        then have "drop (length w) (s @ [CHR 0x0D]) = drop (length w) s @ [CHR 0x0D]"
          by (auto simp: prefix_def)
        moreover have "strip_front ws (s @ [CHR 0x0D]) = strip_front ws (drop (length w) (s @ [CHR 0x0D]))"
          "strip_front ws s = strip_front ws (drop (length w) s)"
          using Some same 1(2) by (subst strip_front.simps, simp)+
        ultimately show ?thesis using 1(1) [OF Some 1(2)] by simp
      qed
    qed
  qed
  then show ?thesis by (simp add: trim_start_def)
qed

lemma trim_snoc_cr [simp]: "trim (s @ [CHR 0x0D]) = trim s"
  by (simp add: trim_def trim_start_cr trim_end_cr)

text \<open>A string between two single quotes, as the messages of the code print names.\<close>

definition quoted :: "string \<Rightarrow> string" where
  "quoted s = CHR 0x27 # s @ [CHR 0x27]"

end
