(* ===== verification/Rust_Net.thy ===== *)
theory Rust_Net
  imports Rust_Str
begin

section \<open>Addresses of the Rust standard library: printing and parsing\<close>

text \<open>
  \<open>IpAddr\<close> and \<open>SocketAddr\<close> with the \<open>Display\<close> and \<open>FromStr\<close> of \<open>core::net\<close>, which the
  code relies on to write a resolved endpoint into the state file and to read it back.
  A parser takes the rest of the input and returns a value and what is left, or \<open>None\<close>
  with the input as it was.
\<close>

unbundle bit_operations_syntax

datatype ip_addr = V4 u32 | V6 u128

datatype socket_addr = SockV4 u32 u16 | SockV6 u128 u16 u32 u32

fun is_unspecified :: "ip_addr \<Rightarrow> bool" where
  "is_unspecified (V4 a) \<longleftrightarrow> a = 0"
| "is_unspecified (V6 a) \<longleftrightarrow> a = 0"

fun is_ipv6 :: "ip_addr \<Rightarrow> bool" where
  "is_ipv6 (V4 a) \<longleftrightarrow> False"
| "is_ipv6 (V6 a) \<longleftrightarrow> True"

fun sock_ip :: "socket_addr \<Rightarrow> ip_addr" where
  "sock_ip (SockV4 a p) = V4 a"
| "sock_ip (SockV6 a p fl sc) = V6 a"

fun sock_port :: "socket_addr \<Rightarrow> u16" where
  "sock_port (SockV4 a p) = p"
| "sock_port (SockV6 a p fl sc) = p"

subsection \<open>Display\<close>

definition octet :: "nat \<Rightarrow> u32 \<Rightarrow> nat" where
  "octet i a = unat (drop_bit (24 - 8 * i) a) mod 256"

definition show_ipv4 :: "u32 \<Rightarrow> string" where
  "show_ipv4 a = join ''.'' (map (\<lambda>i. show_nat (octet i a)) [0, 1, 2, 3])"

definition segment :: "nat \<Rightarrow> u128 \<Rightarrow> nat" where
  "segment i a = unat (drop_bit (112 - 16 * i) a) mod 65536"

definition segments :: "u128 \<Rightarrow> nat list" where
  "segments a = map (\<lambda>i. segment i a) [0, 1, 2, 3, 4, 5, 6, 7]"

definition hex_char :: "nat \<Rightarrow> char" where
  "hex_char d = (if d < 10 then char_of (48 + d) else char_of (87 + d))"

fun show_hex :: "nat \<Rightarrow> string" where
  "show_hex n = (if n < 16 then [hex_char n] else show_hex (n div 16) @ [hex_char (n mod 16)])"

declare show_hex.simps [simp del]

text \<open>The longest run of zero segments, the first of several: its start and its length.\<close>

fun longest_zeroes :: "nat \<Rightarrow> nat list \<Rightarrow> nat \<times> nat \<Rightarrow> nat \<times> nat \<Rightarrow> nat \<times> nat" where
  "longest_zeroes i [] current longest = longest"
| "longest_zeroes i (x # xs) current longest =
     (if x = 0 then
        (let start = (if snd current = 0 then i else fst current);
             current' = (start, Suc (snd current))
         in longest_zeroes (Suc i) xs current'
              (if snd current' > snd longest then current' else longest))
      else longest_zeroes (Suc i) xs (0, 0) longest)"

definition fmt_subslice :: "nat list \<Rightarrow> string" where
  "fmt_subslice xs = join '':'' (map show_hex xs)"

definition is_ipv4_mapped :: "u128 \<Rightarrow> bool" where
  "is_ipv4_mapped a \<longleftrightarrow> take 6 (segments a) = [0, 0, 0, 0, 0, 65535]"

definition show_ipv6 :: "u128 \<Rightarrow> string" where
  "show_ipv6 a =
     (if is_ipv4_mapped a then ''::ffff:'' @ show_ipv4 (ucast a)
      else
        (let sg = segments a; (start, len) = longest_zeroes 0 sg (0, 0) (0, 0)
         in if len > 1
            then fmt_subslice (take start sg) @ ''::'' @ fmt_subslice (drop (start + len) sg)
            else fmt_subslice sg))"

fun show_ip :: "ip_addr \<Rightarrow> string" where
  "show_ip (V4 a) = show_ipv4 a"
| "show_ip (V6 a) = show_ipv6 a"

fun show_sock :: "socket_addr \<Rightarrow> string" where
  "show_sock (SockV4 a p) = show_ipv4 a @ '':'' @ show_nat (unat p)"
| "show_sock (SockV6 a p fl sc) =
     (if sc = 0 then ''['' @ show_ipv6 a @ '']:'' @ show_nat (unat p)
      else ''['' @ show_ipv6 a @ ''%'' @ show_nat (unat sc) @ '']:'' @ show_nat (unat p))"

subsection \<open>FromStr\<close>

type_synonym 'a parser = "string \<Rightarrow> ('a \<times> string) option"

definition read_char :: "char \<Rightarrow> unit parser" where
  "read_char c s = (case s of [] \<Rightarrow> None | x # xs \<Rightarrow> if x = c then Some ((), xs) else None)"

definition read_number :: "nat \<Rightarrow> nat option \<Rightarrow> bool \<Rightarrow> nat \<Rightarrow> nat parser" where
  "read_number radix max_digits allow_zero_prefix max_value s =
     (let ds = takeWhile (is_digit radix) s; v = digits_value radix ds
      in if ds = [] \<or> (case max_digits of None \<Rightarrow> False | Some m \<Rightarrow> length ds > m)
           \<or> v > max_value \<or> (\<not> allow_zero_prefix \<and> hd ds = CHR ''0'' \<and> length ds > 1)
         then None else Some (v, drop (length ds) s))"

text \<open>\<open>read_separator\<close>: the separator stands in front of every part but the first.\<close>

definition read_separated :: "char \<Rightarrow> nat \<Rightarrow> 'a parser \<Rightarrow> 'a parser" where
  "read_separated sep i p s =
     (if i = 0 then p s
      else case read_char sep s of None \<Rightarrow> None | Some (_, r) \<Rightarrow> p r)"

definition read_octet :: "nat parser" where
  "read_octet = read_number 10 (Some 3) False 255"

definition of_octets :: "nat \<Rightarrow> nat \<Rightarrow> nat \<Rightarrow> nat \<Rightarrow> u32" where
  "of_octets a b c d = of_nat (((a * 256 + b) * 256 + c) * 256 + d)"

definition read_ipv4 :: "u32 parser" where
  "read_ipv4 s =
     (case read_octet s of None \<Rightarrow> None | Some (a, s) \<Rightarrow>
      case read_separated CHR ''.'' 1 read_octet s of None \<Rightarrow> None | Some (b, s) \<Rightarrow>
      case read_separated CHR ''.'' 2 read_octet s of None \<Rightarrow> None | Some (c, s) \<Rightarrow>
      case read_separated CHR ''.'' 3 read_octet s of None \<Rightarrow> None | Some (d, s) \<Rightarrow>
      Some (of_octets a b c d, s))"

text \<open>
  \<open>read_groups i n\<close>: up to \<open>n\<close> groups from the \<open>i\<close>-th on, with a dotted quad allowed where
  two groups are left; the groups read, whether a quad ended them, and the rest.
\<close>

fun read_groups :: "nat \<Rightarrow> nat \<Rightarrow> string \<Rightarrow> nat list \<times> bool \<times> string" where
  "read_groups i 0 s = ([], False, s)"
| "read_groups i (Suc n) s =
     (case (if n = 0 then None else read_separated CHR '':'' i read_ipv4 s) of
        Some (a, r) \<Rightarrow> ([unat a div 65536, unat a mod 65536], True, r)
      | None \<Rightarrow>
          (case read_separated CHR '':'' i (read_number 16 (Some 4) True 65535) s of
             None \<Rightarrow> ([], False, s)
           | Some (g, r) \<Rightarrow>
               (case read_groups (Suc i) n r of (gs, q, r') \<Rightarrow> (g # gs, q, r'))))"

definition of_segments :: "nat list \<Rightarrow> u128" where
  "of_segments gs = of_nat (foldl (\<lambda>n g. n * 65536 + g) 0 gs)"

definition read_ipv6 :: "u128 parser" where
  "read_ipv6 s =
     (case read_groups 0 8 s of (hd_groups, quad, r) \<Rightarrow>
      if length hd_groups = 8 then Some (of_segments hd_groups, r)
      else if quad then None
      else
        (case read_char CHR '':'' r of None \<Rightarrow> None | Some (_, r) \<Rightarrow>
         case read_char CHR '':'' r of None \<Rightarrow> None | Some (_, r) \<Rightarrow>
         case read_groups 0 (8 - (length hd_groups + 1)) r of (tl_groups, _, r) \<Rightarrow>
           Some (of_segments (hd_groups
                   @ replicate (8 - length hd_groups - length tl_groups) 0 @ tl_groups), r)))"

definition read_ip :: "ip_addr parser" where
  "read_ip s =
     (case read_ipv4 s of
        Some (a, r) \<Rightarrow> Some (V4 a, r)
      | None \<Rightarrow> (case read_ipv6 s of Some (a, r) \<Rightarrow> Some (V6 a, r) | None \<Rightarrow> None))"

definition read_port :: "u16 parser" where
  "read_port s =
     (case read_char CHR '':'' s of None \<Rightarrow> None | Some (_, r) \<Rightarrow>
      case read_number 10 None True 65535 r of None \<Rightarrow> None | Some (p, r) \<Rightarrow> Some (of_nat p, r))"

definition read_scope :: "u32 parser" where
  "read_scope s =
     (case read_char CHR ''%'' s of None \<Rightarrow> None | Some (_, r) \<Rightarrow>
      case read_number 10 None True 4294967295 r of None \<Rightarrow> None | Some (p, r) \<Rightarrow> Some (of_nat p, r))"

definition read_sock_v4 :: "socket_addr parser" where
  "read_sock_v4 s =
     (case read_ipv4 s of None \<Rightarrow> None | Some (a, r) \<Rightarrow>
      case read_port r of None \<Rightarrow> None | Some (p, r) \<Rightarrow> Some (SockV4 a p, r))"

definition read_sock_v6 :: "socket_addr parser" where
  "read_sock_v6 s =
     (case read_char CHR ''['' s of None \<Rightarrow> None | Some (_, r) \<Rightarrow>
      case read_ipv6 r of None \<Rightarrow> None | Some (a, r) \<Rightarrow>
      case (case read_scope r of None \<Rightarrow> (0, r) | Some x \<Rightarrow> x) of (sc, r) \<Rightarrow>
      case read_char CHR '']'' r of None \<Rightarrow> None | Some (_, r) \<Rightarrow>
      case read_port r of None \<Rightarrow> None | Some (p, r) \<Rightarrow> Some (SockV6 a p 0 sc, r))"

definition parse_all :: "'a parser \<Rightarrow> string \<Rightarrow> 'a option" where
  "parse_all p s = (case p s of Some (x, []) \<Rightarrow> Some x | _ \<Rightarrow> None)"

definition parse_ip :: "string \<Rightarrow> ip_addr option" where
  "parse_ip s = parse_all read_ip s"

definition parse_sock :: "string \<Rightarrow> socket_addr option" where
  "parse_sock s =
     parse_all (\<lambda>s. case read_sock_v4 s of Some x \<Rightarrow> Some x | None \<Rightarrow> read_sock_v6 s) s"

text \<open>The \<open>Display\<close> of \<open>AddrParseError\<close>.\<close>

definition ip_syntax_error :: string where
  "ip_syntax_error = ''invalid IP address syntax''"

definition sock_syntax_error :: string where
  "sock_syntax_error = ''invalid socket address syntax''"

subsection \<open>What is printed is read back\<close>

text \<open>A string that does not go on with a digit ends a number.\<close>

definition no_digit :: "nat \<Rightarrow> string \<Rightarrow> bool" where
  "no_digit radix r \<longleftrightarrow> r = [] \<or> \<not> is_digit radix (hd r)"

lemma takeWhile_digits:
  assumes "list_all (is_digit radix) s" and "no_digit radix r"
  shows "takeWhile (is_digit radix) (s @ r) = s"
proof -
  have "takeWhile (is_digit radix) (s @ r) = s @ takeWhile (is_digit radix) r"
    using assms(1) by (simp add: takeWhile_append2 list_all_iff)
  also have "takeWhile (is_digit radix) r = []"
    using assms(2) by (cases r) (auto simp: no_digit_def)
  finally show ?thesis by simp
qed

lemma show_nat_hd_zero: "hd (show_nat n) = CHR ''0'' \<Longrightarrow> length (show_nat n) = 1"
proof (induction n rule: show_nat.induct)
  case (1 n)
  show ?case
  proof (cases "n < 10")
    case True
    then show ?thesis by (simp add: show_nat.simps [of n])
  next
    case False
    then have n: "show_nat n = show_nat (n div 10) @ [digit_char (n mod 10)]"
      by (subst show_nat.simps) simp
    with "1.prems" have z: "hd (show_nat (n div 10)) = CHR ''0''" by simp
    have "length (show_nat (n div 10)) = 1" using "1.IH" [OF False z] .
    then obtain c where c: "show_nat (n div 10) = [c]"
      by (auto simp: length_Suc_conv)
    with z have "digits_value 10 (show_nat (n div 10)) = digits_value 10 ''0''" by simp
    then have "n div 10 = digits_value 10 ''0''" by simp
    also have "\<dots> = 0"
      by (simp add: digits_value_def digit_value_def)
    finally show ?thesis using False by simp
  qed
qed

lemma length_show_nat: "n < 10 ^ k \<Longrightarrow> 0 < k \<Longrightarrow> length (show_nat n) \<le> k"
proof (induction n arbitrary: k rule: show_nat.induct)
  case (1 n)
  show ?case
  proof (cases "n < 10")
    case True
    then show ?thesis using "1.prems" by (simp add: show_nat.simps [of n])
  next
    case False
    with "1.prems" obtain j where k: "k = Suc j" "0 < j"
      by (cases k; cases "k = 1") auto
    with "1.prems" have "n div 10 < 10 ^ j"
      by (simp add: less_mult_imp_div_less mult.commute)
    with "1.IH" [OF False] k have "length (show_nat (n div 10)) \<le> j" by blast
    with False k show ?thesis by (subst show_nat.simps) simp
  qed
qed

lemma read_number_show_nat:
  assumes "n \<le> mx" and "no_digit 10 r"
    and "case md of None \<Rightarrow> True | Some k \<Rightarrow> length (show_nat n) \<le> k"
  shows "read_number 10 md az mx (show_nat n @ r) = Some (n, r)"
proof -
  have t: "takeWhile (is_digit 10) (show_nat n @ r) = show_nat n"
    by (rule takeWhile_digits [OF show_nat_digits assms(2)])
  have "\<not> (hd (show_nat n) = CHR ''0'' \<and> length (show_nat n) > 1)"
    using show_nat_hd_zero [of n] by auto
  with t assms(1,3) show ?thesis
    unfolding read_number_def Let_def by (cases md) auto
qed

lemma read_octet_show:
  assumes "n < 256" and "no_digit 10 r"
  shows "read_octet (show_nat n @ r) = Some (n, r)"
proof -
  have "length (show_nat n) \<le> 3" using assms(1) by (intro length_show_nat) auto
  with assms show ?thesis
    unfolding read_octet_def by (intro read_number_show_nat) auto
qed

lemma octet_less [simp]: "octet i a < 256"
  by (simp add: octet_def)

lemma of_octets_octets: "of_octets (octet 0 a) (octet 1 a) (octet 2 a) (octet 3 a) = a"
proof -
  define n where "n = unat a"
  have "n < 2 ^ LENGTH(32)" unfolding n_def by (rule unsigned_less)
  then have n: "n < 4294967296" by simp
  have o: "octet i a = n div 2 ^ (24 - 8 * i) mod 256" for i
    unfolding octet_def n_def unat_drop_bit_eq by (simp add: drop_bit_eq_div)
  have sum: "((n div 16777216 mod 256 * 256 + n div 65536 mod 256) * 256 + n div 256 mod 256) * 256
      + n mod 256 = n"
  proof -
    have q: "n div 65536 = n div 256 div 256" "n div 16777216 = n div 65536 div 256"
      by (simp_all add: div_mult2_eq [symmetric])
    have "n div 16777216 mod 256 = n div 16777216"
      using n by (simp add: less_mult_imp_div_less)
    then have "n div 16777216 mod 256 * 256 + n div 65536 mod 256 = n div 65536"
      using div_mult_mod_eq [of "n div 65536" 256] q(2) by simp
    then have h: "(n div 16777216 mod 256 * 256 + n div 65536 mod 256) * 256
        + n div 256 mod 256 = n div 256"
      using div_mult_mod_eq [of "n div 256" 256] q(1) by simp
    show ?thesis unfolding h by (rule div_mult_mod_eq)
  qed
  have "octet 0 a = n div 16777216 mod 256" "octet 1 a = n div 65536 mod 256"
    "octet 2 a = n div 256 mod 256" "octet 3 a = n mod 256"
    by (simp_all add: o)
  then have "of_octets (octet 0 a) (octet 1 a) (octet 2 a) (octet 3 a) = of_nat n"
    unfolding of_octets_def by (simp only: sum)
  then show ?thesis by (simp add: n_def)
qed

lemma no_digit_dot [simp]: "no_digit 10 (CHR ''.'' # r)"
  and no_digit_colon [simp]: "no_digit 10 (CHR '':'' # r)"
  and no_digit_Nil [simp]: "no_digit radix []"
  by (simp_all add: no_digit_def is_digit_def digit_value_def)

lemma read_char_same [simp]: "read_char c (c # r) = Some ((), r)"
  by (simp add: read_char_def)

lemma read_ipv4_show:
  assumes "no_digit 10 r"
  shows "read_ipv4 (show_ipv4 a @ r) = Some (a, r)"
proof -
  have s: "show_ipv4 a @ r = show_nat (octet 0 a) @ CHR ''.'' # show_nat (octet 1 a)
      @ CHR ''.'' # show_nat (octet 2 a) @ CHR ''.'' # show_nat (octet 3 a) @ r"
    by (simp add: show_ipv4_def join_def)
  show ?thesis
    using assms of_octets_octets [of a]
    by (simp add: s read_ipv4_def read_octet_show read_separated_def)
qed

lemma read_port_show:
  assumes "no_digit 10 r"
  shows "read_port ('':'' @ show_nat (unat p) @ r) = Some (p, r)"
proof -
  have "unat p < 2 ^ LENGTH(16)" by (rule unsigned_less)
  then have "unat p \<le> 65535" by simp
  with assms show ?thesis
    by (simp add: read_port_def read_number_show_nat)
qed

text \<open>An IPv4 endpoint printed and parsed is the endpoint it was.\<close>

lemma parse_sock_show_v4: "parse_sock (show_sock (SockV4 a p)) = Some (SockV4 a p)"
proof -
  have "read_ipv4 (show_ipv4 a @ '':'' @ show_nat (unat p)) = Some (a, '':'' @ show_nat (unat p))"
    by (rule read_ipv4_show) simp
  moreover have "read_port ('':'' @ show_nat (unat p)) = Some (p, [])"
    using read_port_show [of "[]" p] by simp
  ultimately show ?thesis
    by (simp add: parse_sock_def parse_all_def read_sock_v4_def)
qed

lemma parse_ip_show_v4: "parse_ip (show_ip (V4 a)) = Some (V4 a)"
  using read_ipv4_show [of "[]" a] by (simp add: parse_ip_def parse_all_def read_ip_def)

text \<open>Evaluation of the parsers on literals.\<close>

lemmas parser_evals = parse_ip_def parse_sock_def parse_all_def read_ip_def read_ipv4_def
  read_separated_def read_char_def read_octet_def read_number_def read_sock_v4_def read_port_def
  is_digit_def digit_value_def digits_value_def of_octets_def Let_def

end
