(* ===== verification/Defguard.thy ===== *)
theory Defguard
  imports Rust_Net
begin

section \<open>What the code uses of the WireGuard crate\<close>

text \<open>
  \<open>defguard_wireguard_rs\<close> is not part of the repository. Its functions are fields of the
  record \<open>defguard\<close>, an argument of every definition that calls them; its key type is
  the type variable \<open>'k\<close>. Its public structs appear with the fields the code reads or
  writes. \<open>host_peers\<close> lists the peers in the order in which the crate's hash map is
  iterated, which nothing here relies on. A time is in nanoseconds since the Unix epoch.
\<close>

record ip_addr_mask =
  im_address :: ip_addr
  im_cidr :: u8

record 'k peer =
  peer_public_key :: 'k
  peer_preshared_key :: "'k option"
  peer_endpoint :: "socket_addr option"
  peer_last_handshake :: "int option"
  peer_tx_bytes :: u64
  peer_rx_bytes :: u64
  peer_keepalive :: "u16 option"
  peer_allowed_ips :: "ip_addr_mask list"

record 'k host =
  host_private_key :: "'k option"
  host_listen_port :: u16
  host_fwmark :: "u32 option"
  host_peers :: "'k peer list"

record 'k interface_configuration =
  ic_name :: string
  ic_prvkey :: string
  ic_addresses :: "ip_addr_mask list"
  ic_port :: u16
  ic_peers :: "'k peer list"
  ic_mtu :: "u32 option"
  ic_fwmark :: "u32 option"

record 'k defguard =
  key_from_str :: "string \<Rightarrow> 'k result"
  key_to_string :: "'k \<Rightarrow> string"
  key_public_key :: "'k \<Rightarrow> 'k"
  mask_from_str :: "string \<Rightarrow> ip_addr_mask result"
  mask_to_string :: "ip_addr_mask \<Rightarrow> string"
  mask_mask :: "ip_addr_mask \<Rightarrow> ip_addr"
  peer_new :: "'k \<Rightarrow> 'k peer"

subsection \<open>Documented behaviour, as named hypotheses\<close>

text \<open>A printed key parses back, is not empty and has no blanks around it.\<close>

definition key_text_ok :: "'k defguard \<Rightarrow> bool" where
  "key_text_ok dg \<longleftrightarrow>
     (\<forall>k. key_from_str dg (key_to_string dg k) = Inr k
        \<and> key_to_string dg k \<noteq> [] \<and> trimmed (key_to_string dg k))"

text \<open>A new peer has its key and no allowed IP.\<close>

definition peer_new_ok :: "'k defguard \<Rightarrow> bool" where
  "peer_new_ok dg \<longleftrightarrow>
     (\<forall>k. peer_public_key (peer_new dg k) = k \<and> peer_allowed_ips (peer_new dg k) = [])"

text \<open>\<open>mask()\<close> is the netmask of the prefix, in the family of its address.\<close>

definition netmask :: "ip_addr_mask \<Rightarrow> ip_addr" where
  "netmask p =
     (case im_address p of
        V4 a \<Rightarrow> V4 (NOT (mask (32 - unat (im_cidr p))))
      | V6 a \<Rightarrow> V6 (NOT (mask (128 - unat (im_cidr p)))))"

definition mask_ok :: "'k defguard \<Rightarrow> bool" where
  "mask_ok dg \<longleftrightarrow> (\<forall>p. mask_mask dg p = netmask p)"

subsection \<open>A concrete instance\<close>

text \<open>
  An instance for the examples that show the hypotheses can hold: a key is a number and
  its text the digits, its public key is the number a thousand further on, and a prefix is
  an address with an optional length.
\<close>

definition sample_mask_from_str :: "string \<Rightarrow> ip_addr_mask result" where
  "sample_mask_from_str s =
     (case split_once CHR ''/'' s of
        None \<Rightarrow>
          (case parse_ip s of
             None \<Rightarrow> Inl ip_syntax_error
           | Some a \<Rightarrow> Inr \<lparr>im_address = a, im_cidr = (if is_ipv6 a then 128 else 32)\<rparr>)
      | Some (ip, len) \<Rightarrow>
          (case (parse_ip ip, parse_unsigned 128 len) of
             (Some a, Some n) \<Rightarrow> Inr \<lparr>im_address = a, im_cidr = of_nat n\<rparr>
           | _ \<Rightarrow> Inl ip_syntax_error))"

definition sample_mask_to_string :: "ip_addr_mask \<Rightarrow> string" where
  "sample_mask_to_string m = show_ip (im_address m) @ ''/'' @ show_nat (unat (im_cidr m))"

definition blank_peer :: "'k \<Rightarrow> 'k peer" where
  "blank_peer k =
     \<lparr>peer_public_key = k, peer_preshared_key = None, peer_endpoint = None,
      peer_last_handshake = None, peer_tx_bytes = 0, peer_rx_bytes = 0,
      peer_keepalive = None, peer_allowed_ips = []\<rparr>"

datatype sample_key = Key nat

primrec sample_key_text :: "sample_key \<Rightarrow> string" where
  "sample_key_text (Key n) = show_nat n"

definition sample_key_parse :: "string \<Rightarrow> sample_key result" where
  "sample_key_parse s =
     (case parse_unsigned (digits_value 10 s) s of
        None \<Rightarrow> Inl ''bad key'' | Some n \<Rightarrow> Inr (Key n))"

primrec sample_key_public :: "sample_key \<Rightarrow> sample_key" where
  "sample_key_public (Key n) = Key (n + 1000)"

definition sample_dg :: "sample_key defguard" where
  "sample_dg =
     \<lparr>key_from_str = sample_key_parse, key_to_string = sample_key_text,
      key_public_key = sample_key_public, mask_from_str = sample_mask_from_str,
      mask_to_string = sample_mask_to_string, mask_mask = netmask, peer_new = blank_peer\<rparr>"

lemma sample_key_roundtrip: "sample_key_parse (sample_key_text k) = Inr k"
  by (cases k) (simp add: sample_key_parse_def parse_unsigned_show_nat)

lemma sample_key_text_ok: "key_text_ok sample_dg"
proof -
  have "sample_key_text k \<noteq> [] \<and> trimmed (sample_key_text k)" for k
    by (cases k) (simp add: trimmed_iff)
  then show ?thesis
    by (simp add: key_text_ok_def sample_dg_def sample_key_roundtrip)
qed

lemma sample_peer_new_ok: "peer_new_ok sample_dg"
  by (simp add: peer_new_ok_def sample_dg_def blank_peer_def)

lemma sample_mask_ok: "mask_ok sample_dg"
  by (simp add: mask_ok_def sample_dg_def)

end
