(* ===== verification/Keys.thy ===== *)
theory Keys
  imports Defguard
begin

section \<open>Key helpers (\<open>daemon/src/keys.rs\<close>)\<close>

text \<open>
  \<open>generate_private_key\<close> prints the key the crate generated, which is an argument here
  (\<open>fresh\<close>); \<open>public_key\<close> parses a private key and prints the derived public one.
\<close>

definition generate_private_key :: "'k defguard \<Rightarrow> 'k \<Rightarrow> string" where
  "generate_private_key dg fresh = key_to_string dg fresh"

definition public_key :: "'k defguard \<Rightarrow> string \<Rightarrow> string result" where
  "public_key dg private_key =
     bindR (map_err (\<lambda>e. ''invalid private key: '' @ e) (key_from_str dg (trim private_key)))
       (\<lambda>key. Inr (key_to_string dg (key_public_key dg key)))"

lemma public_key_generated:
  "key_text_ok dg \<Longrightarrow>
   public_key dg (generate_private_key dg k) = Inr (key_to_string dg (key_public_key dg k))"
  by (simp add: public_key_def generate_private_key_def key_text_ok_def trim_trimmed)

lemma public_key_trim [simp]: "public_key dg (trim s) = public_key dg s"
  by (simp add: public_key_def)

lemma public_key_Inr:
  "public_key dg s = Inr p \<longleftrightarrow>
   (\<exists>k. key_from_str dg (trim s) = Inr k \<and> p = key_to_string dg (key_public_key dg k))"
  by (auto simp: public_key_def)

lemma public_key_Inl:
  "public_key dg s = Inl e \<longleftrightarrow>
   (\<exists>d. key_from_str dg (trim s) = Inl d \<and> e = ''invalid private key: '' @ d)"
  by (auto simp: public_key_def bindR_eq_Inl map_err_eq_Inl)

end
