(* ===== verification/Proto.thy ===== *)
theory Proto
  imports Rust_Str
begin

section \<open>The IPC protocol (\<open>proto/src/lib.rs\<close>)\<close>

text \<open>
  The requests, the responses and the types they carry, the filter of \<open>ServerInfo::matches\<close>
  and the client side of the transport. The JSON codec is a parameter here; \<open>Wire\<close> gives the one that serde derives.
  Record fields carry a prefix for their struct, because HOL selectors are global.
\<close>

datatype conn_state = Alive | Connecting | Stale | Never

record server_spec =
  spec_name :: string
  spec_private_key :: "string option"
  spec_public_key :: string
  spec_endpoint :: string
  spec_addresses :: "string list"
  spec_allowed_ips :: "string list"
  spec_listen_port :: "u16 option"
  spec_mtu :: "u32 option"
  spec_keepalive :: "u16 option"
  spec_preshared_key :: "string option"
  spec_dns :: "string list"

record server_info =
  info_name :: string
  info_endpoint :: string
  info_addresses :: "string list"
  info_public_key :: string
  info_active :: bool
  info_state :: "conn_state option"

record server_detail =
  detail_name :: string
  detail_public_key :: string
  detail_endpoint :: string
  detail_addresses :: "string list"
  detail_allowed_ips :: "string list"
  detail_listen_port :: "u16 option"
  detail_mtu :: "u32 option"
  detail_keepalive :: "u16 option"
  detail_has_preshared_key :: bool
  detail_dns :: "string list"

record peer_status =
  ps_public_key :: string
  ps_endpoint :: "string option"
  ps_allowed_ips :: "string list"
  ps_state :: conn_state
  ps_handshake_age_secs :: "u64 option"
  ps_rx_bytes :: u64
  ps_tx_bytes :: u64

record interface_status =
  is_name :: string
  is_listen_port :: u16
  is_peers :: "peer_status list"

datatype request =
    ReqStatus
  | ReqListServers "string option"
  | ReqGetServer string
  | ReqAddServer server_spec
  | ReqEditServer server_spec
  | ReqImportServer string string
  | ReqRemoveServer string
  | ReqSwitchServer string
  | ReqDisconnect

datatype response =
    RespStatus interface_status
  | RespDisconnected
  | RespServers "server_info list"
  | RespServerDetail server_detail
  | RespSwitched string
  | RespError string

definition socket_path :: string where
  "socket_path = ''/run/wirefinder/wirefinderd.sock''"

subsection \<open>The list filter\<close>

text \<open>\<open>lower\<close> is the Unicode \<open>str::to_lowercase\<close>, whose table is not reproduced here.\<close>

definition matches :: "(string \<Rightarrow> string) \<Rightarrow> server_info \<Rightarrow> string \<Rightarrow> bool" where
  "matches lower i query =
     (let q = lower (trim query)
      in if q = [] then True
         else str_contains (lower (info_name i)) q
           \<or> str_contains (lower (info_endpoint i)) q
           \<or> list_ex (\<lambda>a. str_contains (lower a) q) (info_addresses i))"

text \<open>A query of white space only selects every server; the empty query is one of them.\<close>

lemma matches_blank: "lower [] = [] \<Longrightarrow> trim q = [] \<Longrightarrow> matches lower i q"
  by (simp add: matches_def)

text \<open>Neither the case of a query nor blanks around it change what it selects.\<close>

lemma matches_cong: "lower (trim q) = lower (trim q') \<Longrightarrow> matches lower i q = matches lower i q'"
  by (simp add: matches_def)

text \<open>The filter looks at the name, the endpoint and the addresses, and at nothing else.\<close>

lemma matches_fields:
  assumes "info_name i = info_name j" "info_endpoint i = info_endpoint j"
    "info_addresses i = info_addresses j"
  shows "matches lower i q = matches lower j q"
  using assms by (simp add: matches_def)

subsection \<open>The client side of the transport\<close>

text \<open>
  \<open>proto::request\<close> over the socket operations of the world: connect, two timeouts of ten
  seconds, one line out, one line in. \<open>enc\<close> and \<open>dec\<close> are serde's.
\<close>

record 'w ipc =
  ipc_connect :: "string \<Rightarrow> ('w, unit) action"
  ipc_set_read_timeout :: "nat \<Rightarrow> ('w, unit) action"
  ipc_set_write_timeout :: "nat \<Rightarrow> ('w, unit) action"
  ipc_write :: "string \<Rightarrow> ('w, unit) action"
  ipc_read_line :: "('w, string) action"

definition ipc_request ::
  "'w ipc \<Rightarrow> (request \<Rightarrow> string result) \<Rightarrow> (string \<Rightarrow> response result) \<Rightarrow> request
     \<Rightarrow> ('w, response) action" where
  "ipc_request io enc dec req =
     bindS (ipc_connect io socket_path) (\<lambda>_.
     bindS (ipc_set_read_timeout io 10) (\<lambda>_.
     bindS (ipc_set_write_timeout io 10) (\<lambda>_.
     bindS (liftR (enc req)) (\<lambda>json.
     bindS (ipc_write io json) (\<lambda>_.
     bindS (ipc_write io [CHR 0x0A]) (\<lambda>_.
     bindS (ipc_read_line io) (\<lambda>line.
     liftR (dec line))))))))"

end
