(* ===== verification/Config.thy ===== *)
theory Config
  imports Keys Proto
begin

section \<open>The persisted configuration (\<open>daemon/src/config.rs\<close>)\<close>

text \<open>
  \<open>Config\<close> is a list of servers addressed by name. The three operations on it keep the
  names distinct and, seen through \<open>find_server\<close>, are the operations of a finite map;
  that is the contract \<open>named_store\<close>, which the daemon relies on. The views \<open>info\<close> and
  \<open>detail\<close> are what a client may see of a server.
\<close>

record server_config =
  sc_name :: string
  sc_private_key :: string
  sc_public_key :: string
  sc_endpoint :: string
  sc_resolved_endpoint :: "string option"
  sc_addresses :: "string list"
  sc_allowed_ips :: "string list"
  sc_listen_port :: u16
  sc_mtu :: "u32 option"
  sc_keepalive :: "u16 option"
  sc_preshared_key :: "string option"
  sc_dns :: "string list"

record config =
  servers :: "server_config list"

definition config_default :: config where
  "config_default = \<lparr>servers = []\<rparr>"

definition find_server :: "config \<Rightarrow> string \<Rightarrow> server_config option" where
  "find_server c name = find (\<lambda>s. sc_name s = name) (servers c)"

text \<open>Replace the first element a predicate selects: the slot \<open>iter_mut().find\<close> hands out.\<close>

fun replace_first :: "('a \<Rightarrow> bool) \<Rightarrow> 'a \<Rightarrow> 'a list \<Rightarrow> 'a list" where
  "replace_first P y [] = []"
| "replace_first P y (x # xs) = (if P x then y # xs else x # replace_first P y xs)"

definition upsert_server :: "server_config \<Rightarrow> config \<Rightarrow> bool \<times> config" where
  "upsert_server server c =
     (if find (\<lambda>s. sc_name s = sc_name server) (servers c) \<noteq> None
      then (True, c\<lparr>servers := replace_first (\<lambda>s. sc_name s = sc_name server) server (servers c)\<rparr>)
      else (False, c\<lparr>servers := servers c @ [server]\<rparr>))"

definition remove_server :: "string \<Rightarrow> config \<Rightarrow> bool \<times> config" where
  "remove_server name c =
     (let before = length (servers c);
          c' = c\<lparr>servers := filter (\<lambda>s. sc_name s \<noteq> name) (servers c)\<rparr>
      in (length (servers c') \<noteq> before, c'))"

subsection \<open>The client-facing views\<close>

definition info :: "'k defguard \<Rightarrow> server_config \<Rightarrow> bool \<Rightarrow> server_info result" where
  "info dg s active =
     bindR (public_key dg (sc_private_key s)) (\<lambda>pk.
       Inr \<lparr>info_name = sc_name s, info_endpoint = sc_endpoint s,
            info_addresses = sc_addresses s, info_public_key = pk,
            info_active = active, info_state = None\<rparr>)"

definition detail :: "server_config \<Rightarrow> server_detail" where
  "detail s =
     \<lparr>detail_name = sc_name s, detail_public_key = sc_public_key s,
      detail_endpoint = sc_endpoint s, detail_addresses = sc_addresses s,
      detail_allowed_ips = sc_allowed_ips s,
      detail_listen_port = (if sc_listen_port s \<noteq> 0 then Some (sc_listen_port s) else None),
      detail_mtu = sc_mtu s, detail_keepalive = sc_keepalive s,
      detail_has_preshared_key = (sc_preshared_key s \<noteq> None), detail_dns = sc_dns s\<rparr>"

subsection \<open>The contract of a store of named entries\<close>

locale named_store =
  fixes lookup :: "'s \<Rightarrow> string \<Rightarrow> 'v option"
    and upsert :: "'v \<Rightarrow> 's \<Rightarrow> bool \<times> 's"
    and remove :: "string \<Rightarrow> 's \<Rightarrow> bool \<times> 's"
    and key :: "'v \<Rightarrow> string"
    and invar :: "'s \<Rightarrow> bool"
  assumes lookup_key: "lookup s n = Some v \<Longrightarrow> key v = n"
    and lookup_upsert: "invar s \<Longrightarrow> lookup (snd (upsert v s)) = (lookup s)(key v \<mapsto> v)"
    and upsert_replaced: "invar s \<Longrightarrow> fst (upsert v s) \<longleftrightarrow> lookup s (key v) \<noteq> None"
    and lookup_remove: "invar s \<Longrightarrow> lookup (snd (remove n s)) = (lookup s)(n := None)"
    and remove_found: "invar s \<Longrightarrow> fst (remove n s) \<longleftrightarrow> lookup s n \<noteq> None"
    and invar_upsert: "invar s \<Longrightarrow> invar (snd (upsert v s))"
    and invar_remove: "invar s \<Longrightarrow> invar (snd (remove n s))"
begin

lemma upsert_same: "invar s \<Longrightarrow> lookup (snd (upsert v s)) (key v) = Some v"
  by (simp add: lookup_upsert)

lemma upsert_other: "invar s \<Longrightarrow> n \<noteq> key v \<Longrightarrow> lookup (snd (upsert v s)) n = lookup s n"
  by (simp add: lookup_upsert)

lemma upsert_existing_dom:
  "invar s \<Longrightarrow> lookup s (key v) \<noteq> None \<Longrightarrow> dom (lookup (snd (upsert v s))) = dom (lookup s)"
  by (auto simp: lookup_upsert dom_def)

lemma remove_missing:
  assumes "invar s" and "\<not> fst (remove n s)"
  shows "lookup (snd (remove n s)) = lookup s"
  using assms by (simp add: lookup_remove remove_found fun_upd_idem)

lemma remove_upsert:
  assumes "invar s" and "lookup s (key v) = None"
  shows "lookup (snd (remove (key v) (snd (upsert v s)))) = lookup s"
  using assms by (simp add: lookup_remove lookup_upsert invar_upsert fun_upd_idem)

lemma upsert_twice:
  assumes "invar s" and "key u = key v"
  shows "lookup (snd (upsert v (snd (upsert u s)))) = lookup (snd (upsert v s))"
  using assms by (simp add: lookup_upsert invar_upsert)

end

subsection \<open>\<open>Config\<close> provides it\<close>

definition config_inv :: "config \<Rightarrow> bool" where
  "config_inv c \<longleftrightarrow> distinct (map sc_name (servers c))"

lemma replace_first_names:
  "sc_name y = n \<Longrightarrow> map sc_name (replace_first (\<lambda>s. sc_name s = n) y xs) = map sc_name xs"
  by (induction xs) auto

lemma find_replace_first:
  assumes "sc_name y = n" and "find (\<lambda>s. sc_name s = n) xs \<noteq> None"
  shows "find (\<lambda>s. sc_name s = m) (replace_first (\<lambda>s. sc_name s = n) y xs)
    = (if m = n then Some y else find (\<lambda>s. sc_name s = m) xs)"
  using assms by (induction xs) auto

lemma find_snoc:
  "find P (xs @ [y]) = (case find P xs of Some x \<Rightarrow> Some x | None \<Rightarrow> if P y then Some y else None)"
  by (induction xs) auto

lemma find_filter_names:
  "find (\<lambda>s. sc_name s = m) (filter (\<lambda>s. sc_name s \<noteq> n) xs)
    = (if m = n then None else find (\<lambda>s. sc_name s = m) xs)"
  by (induction xs) auto

lemma set_replace_first: "set (replace_first P y xs) \<subseteq> insert y (set xs)"
  by (induction xs) auto

lemma find_server_upsert:
  "find_server (snd (upsert_server v c)) = (find_server c)(sc_name v \<mapsto> v)"
proof
  fix m
  show "find_server (snd (upsert_server v c)) m = ((find_server c)(sc_name v \<mapsto> v)) m"
  proof (cases "find (\<lambda>s. sc_name s = sc_name v) (servers c)")
    case None
    then show ?thesis
      by (auto simp: find_server_def upsert_server_def find_snoc split: option.splits)
  next
    case (Some s)
    then show ?thesis
      by (simp add: find_server_def upsert_server_def find_replace_first)
  qed
qed

lemma find_server_remove:
  "find_server (snd (remove_server n c)) = (find_server c)(n := None)"
  by (rule ext) (simp add: find_server_def remove_server_def Let_def find_filter_names)

lemma remove_server_found: "fst (remove_server n c) \<longleftrightarrow> find_server c n \<noteq> None"
proof -
  have "length (filter (\<lambda>s. sc_name s \<noteq> n) xs) \<noteq> length xs
      \<longleftrightarrow> find (\<lambda>s. sc_name s = n) xs \<noteq> None" for xs
  proof (induction xs)
    case Nil
    then show ?case by simp
  next
    case (Cons x xs)
    have "length (filter (\<lambda>s. sc_name s \<noteq> n) xs) \<noteq> Suc (length xs)"
      using length_filter_le [of "\<lambda>s. sc_name s \<noteq> n" xs] by linarith
    with Cons show ?case by (cases "sc_name x = n") simp_all
  qed
  then show ?thesis by (simp add: remove_server_def find_server_def Let_def)
qed

interpretation cfg: named_store find_server upsert_server remove_server sc_name config_inv
proof (unfold_locales, goal_cases)
  case (1 s n v)
  then show ?case by (auto simp: find_server_def dest: find_SomeD)
next
  case (2 s v)
  then show ?case by (simp add: find_server_upsert)
next
  case (3 s v)
  then show ?case by (simp add: upsert_server_def find_server_def)
next
  case (4 s n)
  then show ?case by (simp add: find_server_remove)
next
  case (5 s n)
  then show ?case by (simp add: remove_server_found)
next
  case (6 s v)
  then show ?case
    by (auto simp: config_inv_def upsert_server_def replace_first_names find_map_iff image_iff)
next
  case (7 s n)
  then show ?case by (simp add: config_inv_def remove_server_def Let_def distinct_map_filter)
qed

lemma config_inv_default [simp]: "config_inv config_default"
  by (simp add: config_inv_def config_default_def)

lemma find_server_default [simp]: "find_server config_default n = None"
  by (simp add: find_server_def config_default_def)

lemma find_server_set: "find_server c n = Some s \<Longrightarrow> s \<in> set (servers c) \<and> sc_name s = n"
  by (auto simp: find_server_def dest: find_SomeD)

lemma upsert_servers: "set (servers (snd (upsert_server v c))) \<subseteq> insert v (set (servers c))"
  by (auto simp: upsert_server_def dest: set_replace_first [THEN subsetD])

lemma remove_servers: "set (servers (snd (remove_server n c))) \<subseteq> set (servers c)"
  by (auto simp: remove_server_def Let_def)

lemma config_inv_find:
  "config_inv c \<Longrightarrow> s \<in> set (servers c) \<Longrightarrow> find_server c (sc_name s) = Some s"
  by (simp add: config_inv_def find_server_def find_unique_key)

end
