(* ===== verification/Net_Roundtrip.thy ===== *)
theory Net_Roundtrip
  imports Rust_Net
begin

section \<open>A printed socket address can be parsed\<close>

text \<open>
  The round trip of \<open>show_ipv6\<close> and \<open>read_ipv6\<close>, and with it that of socket addresses: what
  the daemon caches as the resolved endpoint of a server can always be read back. A printed
  address does not show the flow information of an IPv6 socket address.
\<close>

subsection \<open>Hexadecimal numbers\<close>

lemma digit_value_hex_char: "d < 16 \<Longrightarrow> digit_value 16 (hex_char d) = Some d"
  by (auto simp: digit_value_def hex_char_def Let_def)

lemma is_digit_hex_char [simp]: "d < 16 \<Longrightarrow> is_digit 16 (hex_char d)"
  by (simp add: is_digit_def digit_value_hex_char)

lemma digits_value_hex_snoc:
  "d < 16 \<Longrightarrow> digits_value 16 (s @ [hex_char d]) = digits_value 16 s * 16 + d"
  by (simp add: digits_value_def digit_value_hex_char)

lemma show_hex_not_Nil [simp]: "show_hex n \<noteq> []"
  by (subst show_hex.simps) simp

lemma show_hex_digits: "list_all (is_digit 16) (show_hex n)"
proof (induction n rule: show_hex.induct)
  case (1 n)
  then show ?case by (subst show_hex.simps) simp
qed

lemma digits_value_show_hex [simp]: "digits_value 16 (show_hex n) = n"
proof (induction n rule: show_hex.induct)
  case (1 n)
  show ?case
  proof (cases "n < 16")
    case True
    then show ?thesis
      using digits_value_hex_snoc [of n "[]"] by (simp add: show_hex.simps [of n])
  next
    case False
    have "digits_value 16 (show_hex (n div 16) @ [hex_char (n mod 16)]) = n div 16 * 16 + n mod 16"
      using 1 [OF False] digits_value_hex_snoc [of "n mod 16" "show_hex (n div 16)"] by simp
    with False show ?thesis by (subst show_hex.simps) (simp add: digits_value_def)
  qed
qed

lemma length_show_hex: "n < 16 ^ k \<Longrightarrow> 0 < k \<Longrightarrow> length (show_hex n) \<le> k"
proof (induction n arbitrary: k rule: show_hex.induct)
  case (1 n)
  show ?case
  proof (cases "n < 16")
    case True
    then show ?thesis using "1.prems" by (simp add: show_hex.simps [of n])
  next
    case False
    with "1.prems" obtain j where k: "k = Suc j" "0 < j"
      by (cases k; cases "k = 1") auto
    with "1.prems" have "n div 16 < 16 ^ j"
      by (simp add: less_mult_imp_div_less mult.commute)
    with "1.IH" [OF False] k have "length (show_hex (n div 16)) \<le> j" by blast
    with False k show ?thesis by (subst show_hex.simps) simp
  qed
qed

text \<open>One group of an IPv6 address.\<close>

lemma read_group_show:
  assumes "n < 65536" and "no_digit 16 r"
  shows "read_number 16 (Some 4) True 65535 (show_hex n @ r) = Some (n, r)"
proof -
  have t: "takeWhile (is_digit 16) (show_hex n @ r) = show_hex n"
    by (rule takeWhile_digits [OF show_hex_digits assms(2)])
  have "length (show_hex n) \<le> 4" using assms(1) by (intro length_show_hex) simp_all
  with t assms(1) show ?thesis unfolding read_number_def Let_def by simp
qed

lemma read_number_none: "no_digit radix s \<Longrightarrow> read_number radix m z mx s = None"
  by (cases s) (auto simp: no_digit_def read_number_def)

lemma decimal_is_hex: "is_digit 10 c \<Longrightarrow> is_digit 16 c"
  by (auto simp: is_digit_def digit_value_def Let_def split: if_splits)

lemma no_digit_10: "no_digit 16 s \<Longrightarrow> no_digit 10 s"
  using decimal_is_hex by (auto simp: no_digit_def)

lemma read_ipv4_none:
  assumes "dropWhile (is_digit 10) s = [] \<or> hd (dropWhile (is_digit 10) s) \<noteq> CHR ''.''"
  shows "read_ipv4 s = None"
proof (cases "read_octet s")
  case (Some x)
  then have x: "read_octet s = Some (fst x, dropWhile (is_digit 10) s)"
    by (auto simp: read_octet_def read_number_def Let_def dropWhile_eq_drop split: if_splits)
  have "read_separated CHR ''.'' 1 read_octet t = None" if "t = [] \<or> hd t \<noteq> CHR ''.''" for t
    using that by (cases t) (auto simp: read_separated_def read_char_def)
  from this [OF assms]
  have "read_separated CHR ''.'' 1 read_octet (dropWhile (is_digit 10) s) = None" .
  with x show ?thesis by (simp add: read_ipv4_def)
qed (simp add: read_ipv4_def)

text \<open>What ends a sequence of groups.\<close>

definition ends_group :: "string \<Rightarrow> bool" where
  "ends_group r \<longleftrightarrow> r = [] \<or> \<not> is_digit 16 (hd r) \<and> hd r \<noteq> CHR ''.''"

definition ends_groups :: "string \<Rightarrow> bool" where
  "ends_groups r \<longleftrightarrow> ends_group r \<and> (\<forall>t. r = CHR '':'' # t \<longrightarrow> no_digit 16 t)"

lemma ends_group_no_digit: "ends_group r \<Longrightarrow> no_digit 16 r"
  by (auto simp: ends_group_def no_digit_def)

lemma read_ipv4_group:
  assumes "ends_group r"
  shows "read_ipv4 (show_hex n @ r) = None"
proof (rule read_ipv4_none)
  have d: "dropWhile (is_digit 10) (show_hex n @ r) =
      (if list_all (is_digit 10) (show_hex n) then dropWhile (is_digit 10) r
       else dropWhile (is_digit 10) (show_hex n) @ r)"
    by (auto simp: list_all_iff dropWhile_append)
  have r: "dropWhile (is_digit 10) r = r"
    using no_digit_10 [OF ends_group_no_digit [OF assms]] by (cases r) (auto simp: no_digit_def)
  show "dropWhile (is_digit 10) (show_hex n @ r) = [] \<or> hd (dropWhile (is_digit 10) (show_hex n @ r)) \<noteq> CHR ''.''"
  proof (cases "list_all (is_digit 10) (show_hex n)")
    case True
    with assms show ?thesis by (auto simp: d r ends_group_def)
  next
    case False
    then have ne: "dropWhile (is_digit 10) (show_hex n) \<noteq> []" by (auto simp: list_all_iff dropWhile_eq_Nil_conv)
    then have "hd (dropWhile (is_digit 10) (show_hex n)) \<in> set (show_hex n)"
      by (meson hd_in_set set_dropWhileD)
    then have "is_digit 16 (hd (dropWhile (is_digit 10) (show_hex n)))"
      using show_hex_digits [of n] by (simp add: list_all_iff)
    then have "hd (dropWhile (is_digit 10) (show_hex n)) \<noteq> CHR ''.''"
      by (auto simp: is_digit_def digit_value_def)
    with ne False show ?thesis by (simp add: d)
  qed
qed

lemma read_ipv4_no_digit: "no_digit 16 s \<Longrightarrow> read_ipv4 s = None"
  using no_digit_10 [of s] by (simp add: read_ipv4_def read_octet_def read_number_none)

lemma read_groups_end:
  assumes "if i = 0 then no_digit 16 s else ends_groups s"
  shows "read_groups i n s = ([], False, s)"
proof (cases n)
  case (Suc m)
  have "read_separated CHR '':'' i read_ipv4 s = None
      \<and> read_separated CHR '':'' i (read_number 16 (Some 4) True 65535) s = None"
    using assms
    by (cases s) (auto simp: read_separated_def read_char_def ends_groups_def read_ipv4_no_digit
        read_number_none split: if_splits)
  with Suc show ?thesis by simp
qed simp

subsection \<open>Sequences of groups\<close>

lemma fmt_subslice_simps [simp]:
  "fmt_subslice [] = []"
  "fmt_subslice [x] = show_hex x"
  "fmt_subslice (x # y # ys) = show_hex x @ CHR '':'' # fmt_subslice (y # ys)"
  by (simp_all add: fmt_subslice_def join_def)

lemma colon_ends_group: "ends_group (CHR '':'' # s)"
  by (simp add: ends_group_def is_digit_def digit_value_def)

lemma read_groups_fmt:
  assumes "xs \<noteq> []" "length xs \<le> n" "\<forall>x \<in> set xs. x < 65536" "ends_groups r"
  shows "read_groups i n ((if i = 0 then [] else '':'') @ fmt_subslice xs @ r) = (xs, False, r)"
  using assms(1-3)
proof (induction xs arbitrary: i n)
  case (Cons x xs)
  then obtain m where n: "n = Suc m" by (cases n) auto
  define rest where "rest = (if xs = [] then r else CHR '':'' # fmt_subslice xs @ r)"
  have f: "fmt_subslice (x # xs) @ r = show_hex x @ rest"
    by (cases xs) (simp_all add: rest_def)
  have e: "ends_group rest" using assms(4) by (simp add: rest_def colon_ends_group ends_groups_def)
  have "read_separated CHR '':'' i read_ipv4 ((if i = 0 then [] else '':'') @ show_hex x @ rest) = None"
    by (simp add: read_separated_def read_ipv4_group [OF e])
  moreover have "read_separated CHR '':'' i (read_number 16 (Some 4) True 65535)
      ((if i = 0 then [] else '':'') @ show_hex x @ rest) = Some (x, rest)"
    using Cons.prems(3) by (simp add: read_separated_def read_group_show ends_group_no_digit [OF e])
  moreover have "read_groups (Suc i) m rest = (xs, False, r)"
  proof (cases "xs = []")
    case True
    then show ?thesis using read_groups_end [of "Suc i" r m] assms(4) by (simp add: rest_def)
  next
    case False
    with Cons.IH [of m "Suc i"] Cons.prems n show ?thesis by (simp add: rest_def)
  qed
  ultimately show ?case by (cases m) (simp_all add: n f)
qed simp

subsection \<open>The longest run of zero segments\<close>

text \<open>A run of zeros in a list: where it starts and how long it is.\<close>

definition zero_run :: "nat list \<Rightarrow> nat \<times> nat \<Rightarrow> bool" where
  "zero_run xs r \<longleftrightarrow> fst r + snd r \<le> length xs \<and> take (snd r) (drop (fst r) xs) = replicate (snd r) 0
     \<or> snd r = 0"

lemma zero_run_snoc:
  assumes "snd r = 0 \<or> fst r + snd r = length xs" "zero_run xs r"
  shows "zero_run (xs @ 0 # ys) (if snd r = 0 then length xs else fst r, Suc (snd r))"
proof (cases "snd r = 0")
  case False
  with assms have r: "fst r + snd r = length xs" "take (snd r) (drop (fst r) xs) = replicate (snd r) 0"
    by (auto simp: zero_run_def)
  then have "drop (fst r) xs = replicate (snd r) 0" by simp
  with r(1) False show ?thesis
    by (simp add: zero_run_def replicate_append_same)
qed (simp add: zero_run_def)

lemma zero_run_append: "zero_run xs r \<Longrightarrow> zero_run (xs @ ys) r"
  by (auto simp: zero_run_def)

lemma longest_zeroes_run:
  assumes "i = length pre" "snd cur = 0 \<or> fst cur + snd cur = length pre"
    and "zero_run pre cur" "zero_run pre lng"
  shows "zero_run (pre @ xs) (longest_zeroes i xs cur lng)"
  using assms
proof (induction i xs cur lng arbitrary: pre rule: longest_zeroes.induct)
  case (1 i cur lng)
  then show ?case by simp
next
  case (2 i x xs cur lng)
  let ?pre = "pre @ [x]"
  show ?case
  proof (cases "x = 0")
    case True
    define c where "c = (if snd cur = 0 then i else fst cur, Suc (snd cur))"
    have c: "zero_run ?pre c" using zero_run_snoc [OF "2.prems"(2,3), of "[]"] True "2.prems"(1)
      by (cases "snd cur = 0") (simp_all add: c_def)
    have "zero_run (?pre @ xs) (longest_zeroes (Suc i) xs c (if snd c > snd lng then c else lng))"
      using "2.prems" c zero_run_append [OF "2.prems"(4), of "[x]"]
      unfolding c_def by (intro "2.IH"(1) [OF True refl refl, where pre = ?pre]) auto
    moreover have "longest_zeroes i (x # xs) cur lng
        = longest_zeroes (Suc i) xs c (if snd c > snd lng then c else lng)"
      using True by (simp add: c_def Let_def)
    ultimately show ?thesis by (simp only: append.simps append_assoc)
  next
    case False
    have "zero_run (?pre @ xs) (longest_zeroes (Suc i) xs (0, 0) lng)"
      using "2.prems" zero_run_append [OF "2.prems"(4), of "[x]"]
      by (intro "2.IH"(2) [OF False, where pre = ?pre]) (auto simp: zero_run_def)
    with False show ?thesis by simp
  qed
qed

lemma longest_zeroes_split:
  assumes "longest_zeroes 0 xs (0, 0) (0, 0) = (s, l)" "0 < l"
  shows "s + l \<le> length xs" "take s xs @ replicate l 0 @ drop (s + l) xs = xs"
proof -
  have "zero_run xs (s, l)"
    using longest_zeroes_run [of 0 "[]" "(0, 0)" "(0, 0)" xs] assms(1) by (simp add: zero_run_def)
  with assms(2) have r: "s + l \<le> length xs" "take l (drop s xs) = replicate l 0" by (auto simp: zero_run_def)
  then show "s + l \<le> length xs" by simp
  have "take s xs @ take l (drop s xs) @ drop l (drop s xs) = xs" by (simp only: append_take_drop_id)
  with r(2) show "take s xs @ replicate l 0 @ drop (s + l) xs = xs" by (simp add: add.commute)
qed

subsection \<open>Segments\<close>

lemma length_segments [simp]: "length (segments a) = 8"
  by (simp add: segments_def)

lemma segments_less: "x \<in> set (segments a) \<Longrightarrow> x < 65536"
  by (auto simp: segments_def segment_def)

text \<open>A number is its digits, most significant first.\<close>

fun base_digits :: "nat \<Rightarrow> nat \<Rightarrow> nat list" where
  "base_digits 0 n = []"
| "base_digits (Suc k) n = base_digits k (n div 65536) @ [n mod 65536]"

lemma foldl_base_digits:
  "n < 65536 ^ k \<Longrightarrow> foldl (\<lambda>m g. m * 65536 + g) 0 (base_digits k n) = n"
proof (induction k arbitrary: n)
  case (Suc k)
  then have "n div 65536 < 65536 ^ k" by (simp add: less_mult_imp_div_less mult.commute)
  with Suc.IH show ?case by simp
qed simp

lemma segments_digits: "segments a = base_digits 8 (unat a)"
proof -
  have "segment i a = unat a div 2 ^ (112 - 16 * i) mod 65536" for i
    unfolding segment_def unat_drop_bit_eq by (simp add: drop_bit_eq_div)
  moreover have "base_digits 8 n = [n div 2 ^ 112 mod 65536, n div 2 ^ 96 mod 65536, n div 2 ^ 80 mod 65536,
      n div 2 ^ 64 mod 65536, n div 2 ^ 48 mod 65536, n div 2 ^ 32 mod 65536, n div 2 ^ 16 mod 65536,
      n mod 65536]" for n
  proof -
    have eight: "(8 :: nat) = Suc (Suc (Suc (Suc (Suc (Suc (Suc (Suc 0)))))))" by simp
    show ?thesis unfolding eight base_digits.simps by (simp add: div_mult2_eq [symmetric])
  qed
  ultimately show ?thesis by (simp add: segments_def)
qed

lemma of_segments_segments [simp]: "of_segments (segments a) = a"
proof -
  have "unat a < 2 ^ LENGTH(128)" by (rule unsigned_less)
  then have "unat a < 65536 ^ 8" by simp
  then show ?thesis by (simp add: of_segments_def segments_digits foldl_base_digits)
qed

subsection \<open>Printed addresses\<close>

lemma bracket_ends [simp]: "ends_groups (CHR '']'' # s)" "ends_groups (CHR ''%'' # s)"
  by (simp_all add: ends_groups_def ends_group_def is_digit_def digit_value_def)

lemma ends_groups_no_digit: "ends_groups r \<Longrightarrow> no_digit 16 r"
  by (simp add: ends_groups_def ends_group_no_digit)

lemma double_colon_ends: "ends_groups (CHR '':'' # CHR '':'' # s)"
  by (simp add: ends_groups_def colon_ends_group) (simp add: no_digit_def is_digit_def digit_value_def)

lemma no_digit_colon16: "no_digit 16 (CHR '':'' # s)"
  by (simp add: no_digit_def is_digit_def digit_value_def)

lemma read_groups_first:
  assumes "length xs \<le> n" "\<forall>x \<in> set xs. x < 65536" "ends_groups r"
  shows "read_groups 0 n (fmt_subslice xs @ r) = (xs, False, r)"
proof (cases "xs = []")
  case True
  then show ?thesis using read_groups_end [of 0 r n] assms(3) by (simp add: ends_groups_no_digit)
next
  case False
  from read_groups_fmt [OF this assms, of 0] show ?thesis by simp
qed

lemma read_ipv6_plain:
  assumes "\<not> is_ipv4_mapped a" "ends_groups r"
  shows "read_ipv6 (show_ipv6 a @ r) = Some (a, r)"
proof -
  obtain s l where z: "longest_zeroes 0 (segments a) (0, 0) (0, 0) = (s, l)" by force
  have less: "\<forall>x \<in> set (segments a). x < 65536" using segments_less by blast
  show ?thesis
  proof (cases "l > 1")
    case True
    from longest_zeroes_split [OF z] True have sl: "s + l \<le> 8"
      and sg: "take s (segments a) @ replicate l 0 @ drop (s + l) (segments a) = segments a" by auto
    define hs ts where "hs = take s (segments a)" and "ts = drop (s + l) (segments a)"
    have len: "length hs = s" "length ts = 8 - (s + l)" using sl by (simp_all add: hs_def ts_def)
    have lt: "\<forall>x \<in> set hs. x < 65536" "\<forall>x \<in> set ts. x < 65536"
      using less by (auto simp: hs_def ts_def dest: in_set_takeD in_set_dropD)
    have shown: "show_ipv6 a @ r = fmt_subslice hs @ '':'' @ '':'' @ fmt_subslice ts @ r"
      using assms(1) True by (simp add: show_ipv6_def z hs_def ts_def Let_def)
    have "read_groups 0 8 (fmt_subslice hs @ '':'' @ '':'' @ fmt_subslice ts @ r)
        = (hs, False, '':'' @ '':'' @ fmt_subslice ts @ r)"
      using len sl lt double_colon_ends by (intro read_groups_first) simp_all
    moreover have "read_groups 0 (8 - (s + 1)) (fmt_subslice ts @ r) = (ts, False, r)"
      using len sl lt True assms(2) by (intro read_groups_first) simp_all
    moreover have "8 - s - length ts = l" using len sl by simp
    ultimately show ?thesis
      using len sl True sg by (simp add: shown read_ipv6_def hs_def [symmetric] ts_def [symmetric])
  next
    case False
    then have "show_ipv6 a = fmt_subslice (segments a)"
      using assms(1) by (simp add: show_ipv6_def z)
    moreover have "read_groups 0 8 (fmt_subslice (segments a) @ r) = (segments a, False, r)"
      using less assms(2) by (intro read_groups_first) simp_all
    ultimately show ?thesis by (simp add: read_ipv6_def)
  qed
qed

lemma mapped_segments:
  assumes "is_ipv4_mapped a"
  shows "[0, 0, 0, 0, 0, 65535, unat (ucast a :: u32) div 65536, unat (ucast a :: u32) mod 65536] = segments a"
proof -
  define n where "n = unat a"
  have u: "unat (ucast a :: u32) = n mod 4294967296"
    by (simp add: n_def unsigned_ucast_eq take_bit_eq_mod)
  have "n mod 4294967296 = 65536 * (n div 65536 mod 65536) + n mod 65536"
    using mod_mult2_eq [of n 65536 65536] by simp
  then have "unat (ucast a :: u32) div 65536 = n div 65536 mod 65536" "unat (ucast a :: u32) mod 65536 = n mod 65536"
    by (simp_all add: u)
  moreover have "segment 6 a = n div 65536 mod 65536" "segment 7 a = n mod 65536"
    unfolding segment_def unat_drop_bit_eq n_def by (simp_all add: drop_bit_eq_div)
  ultimately have "drop 6 (segments a) = [unat (ucast a :: u32) div 65536, unat (ucast a :: u32) mod 65536]"
    by (simp add: segments_def)
  with assms append_take_drop_id [of 6 "segments a"] show ?thesis by (simp add: is_ipv4_mapped_def)
qed

lemma read_ipv6_mapped:
  assumes "is_ipv4_mapped a" "ends_groups r"
  shows "read_ipv6 (show_ipv6 a @ r) = Some (a, r)"
proof -
  let ?v = "ucast a :: u32"
  define t where "t = show_ipv4 ?v @ r"
  have d: "no_digit 10 r" using assms(2) by (simp add: ends_groups_no_digit no_digit_10)
  have hex: "show_hex 65535 = ''ffff''"
    by (simp add: show_hex.simps hex_char_def char_of_def bit_0)
  have shown: "show_ipv6 a @ r = '':'' @ '':'' @ show_hex 65535 @ '':'' @ t"
    using assms(1) by (simp add: show_ipv6_def t_def hex)
  have "read_groups 0 8 ('':'' @ '':'' @ show_hex 65535 @ '':'' @ t)
      = ([], False, '':'' @ '':'' @ show_hex 65535 @ '':'' @ t)"
    by (rule read_groups_end) (simp add: no_digit_colon16)
  moreover have "read_groups 0 7 (show_hex 65535 @ '':'' @ t)
      = ([65535, unat ?v div 65536, unat ?v mod 65536], True, r)"
  proof -
    have seven: "(7 :: nat) = Suc 6" "(6 :: nat) = Suc 5" by simp_all
    have "read_groups (Suc 0) 6 ('':'' @ t) = ([unat ?v div 65536, unat ?v mod 65536], True, r)"
      using read_ipv4_show [OF d]
      by (subst seven(2), subst read_groups.simps(2)) (simp add: read_separated_def t_def)
    moreover have "read_ipv4 (show_hex 65535 @ '':'' @ t) = None"
      using read_ipv4_group [OF colon_ends_group] by simp
    moreover have "read_number 16 (Some 4) True 65535 (show_hex 65535 @ '':'' @ t) = Some (65535, '':'' @ t)"
      using read_group_show [of 65535 "'':'' @ t"] by (simp add: no_digit_colon16)
    ultimately show ?thesis
      by (subst seven(1), subst read_groups.simps(2)) (simp add: read_separated_def)
  qed
  moreover have five: "replicate 5 (0 :: nat) = [0, 0, 0, 0, 0]" by (simp add: numeral_eq_Suc)
  ultimately show ?thesis
    using mapped_segments [OF assms(1)] of_segments_segments [of a] five
    by (simp add: shown read_ipv6_def)
qed

lemma read_ipv6_show: "ends_groups r \<Longrightarrow> read_ipv6 (show_ipv6 a @ r) = Some (a, r)"
  using read_ipv6_plain read_ipv6_mapped by (cases "is_ipv4_mapped a") blast+

lemma read_scope_show:
  assumes "no_digit 10 r"
  shows "read_scope (''%'' @ show_nat (unat sc) @ r) = Some (sc, r)"
proof -
  have "unat sc < 2 ^ LENGTH(32)" by (rule unsigned_less)
  then have "unat sc \<le> 4294967295" by simp
  with assms show ?thesis by (simp add: read_scope_def read_number_show_nat)
qed

lemma read_sock_v4_bracket: "read_sock_v4 (CHR ''['' # s) = None"
  by (simp add: read_sock_v4_def read_ipv4_no_digit no_digit_def is_digit_def digit_value_def)

text \<open>What is read back: the address that was printed, without its flow information.\<close>

fun without_flow :: "socket_addr \<Rightarrow> socket_addr" where
  "without_flow (SockV4 a p) = SockV4 a p"
| "without_flow (SockV6 a p fl sc) = SockV6 a p 0 sc"

lemma parse_sock_show: "parse_sock (show_sock a) = Some (without_flow a)"
proof (cases a)
  case (SockV4 b p)
  then show ?thesis by (simp only: parse_sock_show_v4 without_flow.simps)
next
  case (SockV6 b p fl sc)
  have port: "read_port ('':'' @ show_nat (unat p)) = Some (p, [])" using read_port_show [of "[]" p] by simp
  show ?thesis
  proof (cases "sc = 0")
    case True
    have "read_scope (CHR '']'' # s) = None" for s by (simp add: read_scope_def read_char_def)
    with True SockV6 port show ?thesis
      by (simp add: parse_sock_def parse_all_def read_sock_v4_bracket read_sock_v6_def read_ipv6_show)
  next
    case False
    have "no_digit 10 (CHR '']'' # s)" for s by (simp add: no_digit_def is_digit_def digit_value_def)
    with False SockV6 port read_scope_show show ?thesis
      by (simp add: parse_sock_def parse_all_def read_sock_v4_bracket read_sock_v6_def read_ipv6_show)
  qed
qed

text \<open>A printed IPv6 address has a colon, a printed IPv4 address none.\<close>

lemma show_nat_no_colon [simp]: "CHR '':'' \<notin> set (show_nat n)"
  using show_nat_digits [of n] by (auto simp: list_all_iff is_digit_def digit_value_def)

lemma show_ipv4_no_colon [simp]: "CHR '':'' \<notin> set (show_ipv4 a)"
  by (simp add: show_ipv4_def join_def)

lemma show_ipv6_colon [simp]: "CHR '':'' \<in> set (show_ipv6 a)"
proof (cases "is_ipv4_mapped a")
  case False
  obtain start len where l: "longest_zeroes 0 (segments a) (0, 0) (0, 0) = (start, len)" by fastforce
  have "CHR '':'' \<in> set (fmt_subslice (segments a))" by (simp add: segments_def)
  with False l show ?thesis by (cases "len > 1") (simp_all add: show_ipv6_def Let_def)
qed (simp add: show_ipv6_def)

end
