(* ===== verification/Validate.thy ===== *)
theory Validate
  imports Config Net_Roundtrip
begin

section \<open>Validation and conversion (\<open>daemon/src/wireguard.rs\<close>)\<close>

text \<open>
  The checks a server passes when it is added, edited or switched to, and the crate's structs
  built from it. A host name is looked up on a thread of its own with a time limit: the
  outcome of that lookup is \<open>lookup\<close>, and the resolver, a function from \<open>host:port\<close> to
  such an outcome, is an argument. An endpoint that is an IP literal never reaches it.
\<close>

datatype lookup = Found "socket_addr option" | Lookup_Failed string | Timed_Out

type_synonym resolver = "string \<Rightarrow> lookup"

definition interface_name :: string where
  "interface_name = ''wirefinder''"

definition about_server :: "server_config \<Rightarrow> string" where
  "about_server s = ''server '' @ quoted (sc_name s) @ '': ''"

definition resolve_endpoint :: "resolver \<Rightarrow> server_config \<Rightarrow> socket_addr result" where
  "resolve_endpoint resolve server =
     (let endpoint = trim (sc_endpoint server)
      in case parse_sock endpoint of
           Some addr \<Rightarrow> Inr addr
         | None \<Rightarrow>
             (case resolve endpoint of
                Found (Some addr) \<Rightarrow> Inr addr
              | Found None \<Rightarrow> Inl (about_server server @ ''endpoint resolved to no addresses'')
              | Lookup_Failed e \<Rightarrow> Inl (about_server server @ ''cannot resolve endpoint: '' @ e)
              | Timed_Out \<Rightarrow> Inl (about_server server @ ''endpoint resolution timed out'')))"

definition or_cached :: "socket_addr result \<Rightarrow> string option \<Rightarrow> socket_addr result" where
  "or_cached fresh cached =
     (case fresh of
        Inr addr \<Rightarrow> Inr addr
      | Inl e \<Rightarrow> ok_or (Option.bind cached parse_sock) e)"

definition endpoint_addr :: "resolver \<Rightarrow> server_config \<Rightarrow> socket_addr result" where
  "endpoint_addr resolve server =
     or_cached (resolve_endpoint resolve server) (sc_resolved_endpoint server)"

definition parse_addresses :: "'k defguard \<Rightarrow> server_config \<Rightarrow> ip_addr_mask list result" where
  "parse_addresses dg server =
     (if sc_addresses server = [] then Inl (about_server server @ ''at least one address required'')
      else collectR (map (\<lambda>a.
        map_err (\<lambda>e. about_server server @ ''bad address '' @ quoted a @ '': '' @ e)
          (mask_from_str dg (trim a))) (sc_addresses server)))"

definition check_private_key :: "'k defguard \<Rightarrow> server_config \<Rightarrow> 'k result" where
  "check_private_key dg server =
     map_err (\<lambda>e. about_server server @ ''bad private_key: '' @ e)
       (key_from_str dg (trim (sc_private_key server)))"

definition build_interface_config ::
  "'k defguard \<Rightarrow> server_config \<Rightarrow> 'k peer list \<Rightarrow> u32 option \<Rightarrow> 'k interface_configuration result" where
  "build_interface_config dg server peers fwmark =
     bindR (check_private_key dg server) (\<lambda>_.
     bindR (parse_addresses dg server) (\<lambda>addresses.
       Inr \<lparr>ic_name = interface_name, ic_prvkey = trim (sc_private_key server),
            ic_addresses = addresses, ic_port = sc_listen_port server, ic_peers = peers,
            ic_mtu = sc_mtu server, ic_fwmark = fwmark\<rparr>))"

text \<open>The loop over the allowed IPs: each is parsed and pushed; a bad one ends the function.\<close>

fun push_allowed_ips ::
  "'k defguard \<Rightarrow> server_config \<Rightarrow> string list \<Rightarrow> 'k peer \<Rightarrow> 'k peer result" where
  "push_allowed_ips dg server [] peer = Inr peer"
| "push_allowed_ips dg server (ip # ips) peer =
     bindR (map_err (\<lambda>e. about_server server @ ''bad allowed_ip '' @ quoted ip @ '': '' @ e)
         (mask_from_str dg (trim ip))) (\<lambda>m.
       push_allowed_ips dg server ips (peer\<lparr>peer_allowed_ips := peer_allowed_ips peer @ [m]\<rparr>))"

definition check_preshared_key :: "'k defguard \<Rightarrow> server_config \<Rightarrow> 'k option result" where
  "check_preshared_key dg server =
     (case sc_preshared_key server of
        None \<Rightarrow> Inr None
      | Some s \<Rightarrow>
          bindR (map_err (\<lambda>e. about_server server @ ''bad preshared_key: '' @ e)
              (key_from_str dg (trim s))) (\<lambda>k. Inr (Some k)))"

definition build_peer :: "'k defguard \<Rightarrow> resolver \<Rightarrow> server_config \<Rightarrow> 'k peer result" where
  "build_peer dg resolve server =
     bindR (map_err (\<lambda>e. about_server server @ ''bad public_key: '' @ e)
         (key_from_str dg (trim (sc_public_key server)))) (\<lambda>key.
     bindR (endpoint_addr resolve server) (\<lambda>addr.
     bindR (push_allowed_ips dg server (sc_allowed_ips server)
         ((peer_new dg key)\<lparr>peer_endpoint := Some addr\<rparr>)) (\<lambda>p.
     bindR (check_preshared_key dg server) (\<lambda>psk.
       Inr (p\<lparr>peer_keepalive := sc_keepalive server, peer_preshared_key := psk\<rparr>)))))"

definition parse_dns :: "server_config \<Rightarrow> ip_addr list result" where
  "parse_dns server =
     collectR (map (\<lambda>s.
       map_err (\<lambda>e. about_server server @ ''bad dns '' @ quoted s @ '': '' @ e)
         (ok_or (parse_ip (trim s)) ip_syntax_error)) (sc_dns server))"

definition validate_server :: "'k defguard \<Rightarrow> resolver \<Rightarrow> server_config \<Rightarrow> socket_addr result" where
  "validate_server dg resolve server =
     bindR (check_private_key dg server) (\<lambda>_.
     bindR (build_peer dg resolve server) (\<lambda>peer.
     bindR (parse_dns server) (\<lambda>_.
     bindR (parse_addresses dg server) (\<lambda>_.
       ok_or (peer_endpoint peer) (about_server server @ ''endpoint resolved to no addresses'')))))"

subsection \<open>The specification of validation\<close>

text \<open>
  What validation demands apart from the endpoint: every key parses, every address, allowed
  IP and DNS server is well-formed, and there is an address.
\<close>

definition well_formed :: "'k defguard \<Rightarrow> server_config \<Rightarrow> bool" where
  "well_formed dg s \<longleftrightarrow>
     is_ok (key_from_str dg (trim (sc_private_key s)))
     \<and> is_ok (key_from_str dg (trim (sc_public_key s)))
     \<and> list_all (\<lambda>ip. is_ok (mask_from_str dg (trim ip))) (sc_allowed_ips s)
     \<and> (case sc_preshared_key s of None \<Rightarrow> True | Some k \<Rightarrow> is_ok (key_from_str dg (trim k)))
     \<and> list_all (\<lambda>d. parse_ip (trim d) \<noteq> None) (sc_dns s)
     \<and> sc_addresses s \<noteq> [] \<and> list_all (\<lambda>a. is_ok (mask_from_str dg (trim a))) (sc_addresses s)"

lemma is_ok_map_err [simp]: "is_ok (map_err g r) = is_ok r"
  by (cases r) simp_all

lemma is_ok_ok_or [simp]: "is_ok (ok_or x e) \<longleftrightarrow> x \<noteq> None"
  by (cases x) simp_all

lemma is_ok_bindR: "is_ok (bindR r f) \<longleftrightarrow> (\<exists>x. r = Inr x \<and> is_ok (f x))"
  by (cases r) auto

lemma is_okE: "is_ok r \<Longrightarrow> (\<And>x. r = Inr x \<Longrightarrow> P) \<Longrightarrow> P"
  by (cases r) auto

lemma push_allowed_ips_Inr:
  "push_allowed_ips dg s ips p = Inr q \<longleftrightarrow>
   (\<exists>ms. map (\<lambda>ip. mask_from_str dg (trim ip)) ips = map Inr ms
      \<and> q = p\<lparr>peer_allowed_ips := peer_allowed_ips p @ ms\<rparr>)"
proof (induction ips arbitrary: p)
  case Nil
  then show ?case by auto
next
  case (Cons ip ips)
  show ?case
  proof (cases "mask_from_str dg (trim ip)")
    case (Inl e)
    then show ?thesis by (auto simp: Cons_eq_map_conv)
  next
    case (Inr m)
    then show ?thesis by (auto simp: Cons Cons_eq_map_conv)
  qed
qed

lemma all_ok_map: "list_all (\<lambda>x. is_ok (f x)) xs \<longleftrightarrow> (\<exists>ys. map f xs = map Inr ys)"
proof (induction xs)
  case Nil
  then show ?case by simp
next
  case (Cons x xs)
  then show ?case by (auto simp: is_ok_iff Cons_eq_map_conv)
qed

lemma parse_addresses_ok:
  "is_ok (parse_addresses dg s) \<longleftrightarrow>
   sc_addresses s \<noteq> [] \<and> list_all (\<lambda>a. is_ok (mask_from_str dg (trim a))) (sc_addresses s)"
  by (simp add: parse_addresses_def collectR_is_ok list_all_iff)

lemma parse_addresses_Inr:
  assumes "parse_addresses dg s = Inr as"
  shows "as \<noteq> []" "map (\<lambda>a. mask_from_str dg (trim a)) (sc_addresses s) = map Inr as"
proof -
  have ne: "sc_addresses s \<noteq> []" using assms by (auto simp: parse_addresses_def)
  with assms have m: "map (\<lambda>a. map_err (\<lambda>e. about_server s @ ''bad address '' @ quoted a @ '': '' @ e)
      (mask_from_str dg (trim a))) (sc_addresses s) = map Inr as"
    by (simp add: parse_addresses_def collectR_eq_Inr)
  with ne show "as \<noteq> []" by auto
  from m show "map (\<lambda>a. mask_from_str dg (trim a)) (sc_addresses s) = map Inr as"
    by (auto simp: list_eq_iff_nth_eq)
qed

lemma parse_dns_ok: "is_ok (parse_dns s) \<longleftrightarrow> list_all (\<lambda>d. parse_ip (trim d) \<noteq> None) (sc_dns s)"
  by (simp add: parse_dns_def collectR_is_ok list_all_iff)

lemma parse_dns_Inr:
  assumes "parse_dns s = Inr ds"
  shows "map Some ds = map (\<lambda>d. parse_ip (trim d)) (sc_dns s)"
  using assms by (auto simp: parse_dns_def collectR_eq_Inr list_eq_iff_nth_eq)

lemma check_preshared_key_Inr:
  assumes "check_preshared_key dg s = Inr psk"
  shows "map_option Inr psk = map_option (\<lambda>k. key_from_str dg (trim k)) (sc_preshared_key s)"
  using assms by (cases "sc_preshared_key s") (auto simp: check_preshared_key_def bindR_eq_Inr)

lemma check_preshared_key_ok:
  "is_ok (check_preshared_key dg s) \<longleftrightarrow>
   (case sc_preshared_key s of None \<Rightarrow> True | Some k \<Rightarrow> is_ok (key_from_str dg (trim k)))"
  by (auto simp: check_preshared_key_def is_ok_bindR is_ok_iff split: option.splits)

lemma check_private_key_ok:
  "is_ok (check_private_key dg s) \<longleftrightarrow> is_ok (key_from_str dg (trim (sc_private_key s)))"
  by (simp add: check_private_key_def)

text \<open>The peer of a configuration, field by field.\<close>

lemma build_peer_Inr:
  "build_peer dg r s = Inr p \<longleftrightarrow>
   (\<exists>key addr ms psk. key_from_str dg (trim (sc_public_key s)) = Inr key
      \<and> endpoint_addr r s = Inr addr
      \<and> map (\<lambda>ip. mask_from_str dg (trim ip)) (sc_allowed_ips s) = map Inr ms
      \<and> check_preshared_key dg s = Inr psk
      \<and> p = (peer_new dg key)\<lparr>peer_endpoint := Some addr,
               peer_allowed_ips := peer_allowed_ips (peer_new dg key) @ ms,
               peer_keepalive := sc_keepalive s, peer_preshared_key := psk\<rparr>)"
  by (auto simp: build_peer_def push_allowed_ips_Inr)

lemma build_peer_ok:
  "is_ok (build_peer dg r s) \<longleftrightarrow>
   is_ok (key_from_str dg (trim (sc_public_key s))) \<and> is_ok (endpoint_addr r s)
   \<and> list_all (\<lambda>ip. is_ok (mask_from_str dg (trim ip))) (sc_allowed_ips s)
   \<and> (case sc_preshared_key s of None \<Rightarrow> True | Some k \<Rightarrow> is_ok (key_from_str dg (trim k)))"
  unfolding all_ok_map check_preshared_key_ok [symmetric]
  by (auto simp: is_ok_iff build_peer_Inr)

lemma build_peer_endpoint:
  "build_peer dg r s = Inr p \<Longrightarrow> \<exists>addr. peer_endpoint p = Some addr \<and> endpoint_addr r s = Inr addr"
  by (auto simp: build_peer_Inr)

lemma validate_server_Inr:
  "validate_server dg r s = Inr addr \<longleftrightarrow> well_formed dg s \<and> endpoint_addr r s = Inr addr"
proof
  assume "validate_server dg r s = Inr addr"
  then obtain p where "is_ok (check_private_key dg s)" "is_ok (parse_dns s)"
    "is_ok (parse_addresses dg s)" and p: "build_peer dg r s = Inr p" "peer_endpoint p = Some addr"
    by (auto simp: validate_server_def)
  moreover have "is_ok (build_peer dg r s)" using p by simp
  then have "is_ok (key_from_str dg (trim (sc_public_key s)))"
    "list_all (\<lambda>ip. is_ok (mask_from_str dg (trim ip))) (sc_allowed_ips s)"
    "(case sc_preshared_key s of None \<Rightarrow> True | Some k \<Rightarrow> is_ok (key_from_str dg (trim k)))"
    by (simp_all only: build_peer_ok)
  moreover have "endpoint_addr r s = Inr addr" using build_peer_endpoint [OF p(1)] p(2) by auto
  ultimately show "well_formed dg s \<and> endpoint_addr r s = Inr addr"
    unfolding parse_dns_ok parse_addresses_ok check_private_key_ok well_formed_def by blast
next
  assume a: "well_formed dg s \<and> endpoint_addr r s = Inr addr"
  then have "is_ok (check_private_key dg s)" "is_ok (parse_dns s)" "is_ok (parse_addresses dg s)"
    "is_ok (build_peer dg r s)"
    by (simp_all add: well_formed_def build_peer_ok parse_dns_ok parse_addresses_ok check_private_key_ok)
  then obtain k d as p where "check_private_key dg s = Inr k" "parse_dns s = Inr d"
    "parse_addresses dg s = Inr as" "build_peer dg r s = Inr p"
    by (auto elim!: is_okE)
  moreover from this have "peer_endpoint p = Some addr"
    using a build_peer_endpoint by fastforce
  ultimately show "validate_server dg r s = Inr addr"
    by (simp add: validate_server_def)
qed

lemma endpoint_addr_cached:
  "Option.bind (sc_resolved_endpoint s) parse_sock \<noteq> None \<Longrightarrow> is_ok (endpoint_addr r s)"
  by (cases "resolve_endpoint r s") (auto simp: endpoint_addr_def or_cached_def)

lemma endpoint_addr_shown:
  "sc_resolved_endpoint s = Some (show_sock a) \<Longrightarrow> is_ok (endpoint_addr r s)"
  by (rule endpoint_addr_cached) (simp add: parse_sock_show)

lemma endpoint_addr_literal:
  "parse_sock (trim (sc_endpoint s)) = Some a \<Longrightarrow> endpoint_addr r s = Inr a"
  by (simp add: endpoint_addr_def or_cached_def resolve_endpoint_def)

end
