(* ===== verification/Routes.thy ===== *)
theory Routes
  imports Validate
begin

section \<open>Split routes (\<open>daemon/src/wireguard.rs\<close>)\<close>

text \<open>
  The prefixes that need a kernel route of their own, and the calls of \<open>ip\<close> that make them,
  and only them, the routes of the interface. Running a program is an effect of the world:
  \<open>cmd_status\<close> runs it and waits (whether it succeeded, and its exit status as text),
  \<open>cmd_output\<close> returns its standard output in place of the text, and \<open>cmd_spawn\<close>, \<open>cmd_write\<close>
  and \<open>cmd_wait\<close> start it with a pipe, feed it a script and wait for it.
  serde's decoder of the JSON that \<open>ip\<close> prints is an argument.
\<close>

record 'w commands =
  cmd_status :: "string \<Rightarrow> string list \<Rightarrow> ('w, bool \<times> string) action"
  cmd_output :: "string \<Rightarrow> string list \<Rightarrow> ('w, bool \<times> string) action"
  cmd_spawn :: "string \<Rightarrow> string list \<Rightarrow> ('w, bool) action"
  cmd_write :: "string \<Rightarrow> ('w, unit) action"
  cmd_wait :: "('w, bool \<times> string) action"

definition network_prefix :: "'k defguard \<Rightarrow> ip_addr_mask \<Rightarrow> ip_addr_mask" where
  "network_prefix dg p =
     (let address =
        (case (im_address p, mask_mask dg p) of
           (V4 a, V4 m) \<Rightarrow> V4 (a AND m)
         | (V6 a, V6 m) \<Rightarrow> V6 (a AND m)
         | _ \<Rightarrow> im_address p)
      in \<lparr>im_address = address, im_cidr = im_cidr p\<rparr>)"

definition split_route_prefixes :: "'k defguard \<Rightarrow> 'k peer \<Rightarrow> ip_addr_mask list" where
  "split_route_prefixes dg peer =
     map (network_prefix dg)
       (filter (\<lambda>ip. \<not> is_unspecified (im_address ip)) (peer_allowed_ips peer))"

definition route_proto :: string where
  "route_proto = ''static''"

definition ip_route_args :: "'k defguard \<Rightarrow> string \<Rightarrow> ip_addr_mask \<Rightarrow> string \<Rightarrow> string list" where
  "ip_route_args dg act p ifname =
     [''route'', act, mask_to_string dg p, ''dev'', ifname, ''table'', ''main'',
      ''proto'', route_proto]"

definition ip_route ::
  "'k defguard \<Rightarrow> 'w commands \<Rightarrow> string \<Rightarrow> ip_addr_mask \<Rightarrow> string \<Rightarrow> ('w, unit) action" where
  "ip_route dg io act p ifname =
     (let dest = mask_to_string dg p
      in bindS (map_errS (\<lambda>e. ''ip route '' @ act @ '' '' @ dest @ '': '' @ e)
             (cmd_status io ''ip'' (ip_route_args dg act p ifname)))
           (\<lambda>(success, status).
             if success then retS ()
             else liftR (Inl (''ip route '' @ act @ '' '' @ dest @ '' dev '' @ ifname
                    @ '' exited with '' @ status))))"

definition parse_ip_route_prefixes ::
  "'k defguard \<Rightarrow> (string \<Rightarrow> string option list result) \<Rightarrow> string \<Rightarrow> ip_addr_mask list" where
  "parse_ip_route_prefixes dg dec json =
     List.map_filter (\<lambda>dst. Option.bind dst (\<lambda>d. ok (mask_from_str dg (trim d))))
       (case dec json of Inl e \<Rightarrow> [] | Inr entries \<Rightarrow> entries)"

definition route_show_args :: "string \<Rightarrow> string \<Rightarrow> string list" where
  "route_show_args family ifname =
     [family, ''-j'', ''route'', ''show'', ''table'', ''main'', ''dev'', ifname, ''proto'', route_proto]"

definition shown_routes ::
  "'k defguard \<Rightarrow> (string \<Rightarrow> string option list result) \<Rightarrow> 'w commands \<Rightarrow> string \<Rightarrow> string
     \<Rightarrow> 'w \<Rightarrow> ip_addr_mask list \<times> 'w" where
  "shown_routes dg dec io ifname family w =
     (case cmd_output io ''ip'' (route_show_args family ifname) w of (out, w') \<Rightarrow>
        (let stdout = (case out of Inr (True, bytes) \<Rightarrow> bytes | _ \<Rightarrow> [])
         in (parse_ip_route_prefixes dg dec (from_utf8_lossy stdout), w')))"

definition installed_split_routes ::
  "'k defguard \<Rightarrow> (string \<Rightarrow> string option list result) \<Rightarrow> 'w commands \<Rightarrow> string
     \<Rightarrow> 'w \<Rightarrow> ip_addr_mask list \<times> 'w" where
  "installed_split_routes dg dec io ifname w =
     (case shown_routes dg dec io ifname ''-4'' w of (v4, w1) \<Rightarrow>
      case shown_routes dg dec io ifname ''-6'' w1 of (v6, w2) \<Rightarrow> (v4 @ v6, w2))"

definition stale_routes :: "ip_addr_mask list \<Rightarrow> ip_addr_mask list \<Rightarrow> ip_addr_mask list" where
  "stale_routes installed wanted = filter (\<lambda>p. p \<notin> set wanted) installed"

text \<open>The two loops: every add is a hard error, a delete is best-effort.\<close>

fun replace_routes ::
  "'k defguard \<Rightarrow> 'w commands \<Rightarrow> string \<Rightarrow> ip_addr_mask list \<Rightarrow> ('w, unit) action" where
  "replace_routes dg io ifname [] = retS ()"
| "replace_routes dg io ifname (p # ps) =
     bindS (ip_route dg io ''replace'' p ifname) (\<lambda>_. replace_routes dg io ifname ps)"

fun delete_routes ::
  "'k defguard \<Rightarrow> 'w commands \<Rightarrow> string \<Rightarrow> ip_addr_mask list \<Rightarrow> ('w, unit) action" where
  "delete_routes dg io ifname [] = retS ()"
| "delete_routes dg io ifname (p # ps) =
     bindS (ignoreS (ip_route dg io ''del'' p ifname)) (\<lambda>_. delete_routes dg io ifname ps)"

definition sync_split_routes_via_ip ::
  "'k defguard \<Rightarrow> (string \<Rightarrow> string option list result) \<Rightarrow> 'w commands \<Rightarrow> string
     \<Rightarrow> ip_addr_mask list \<Rightarrow> ('w, unit) action" where
  "sync_split_routes_via_ip dg dec io ifname ps =
     bindS (replace_routes dg io ifname ps) (\<lambda>_ w.
       (case installed_split_routes dg dec io ifname w of (installed, w') \<Rightarrow>
          delete_routes dg io ifname (stale_routes installed ps) w'))"

subsection \<open>Which prefixes, and in which form\<close>

lemma mask_idem: "a AND m AND m = a AND (m :: 'a :: len word)"
  by (simp add: and.assoc)

lemma network_prefix_cidr [simp]: "im_cidr (network_prefix dg p) = im_cidr p"
  by (simp add: network_prefix_def Let_def)

lemma network_prefix_family [simp]:
  "is_ipv6 (im_address (network_prefix dg p)) = is_ipv6 (im_address p)"
  by (simp add: network_prefix_def Let_def split: ip_addr.split)

lemma network_prefix_idem:
  assumes "mask_ok dg"
  shows "network_prefix dg (network_prefix dg p) = network_prefix dg p"
  using assms
  by (cases "im_address p") (simp_all add: network_prefix_def mask_ok_def netmask_def Let_def mask_idem)

text \<open>The addresses a prefix covers; clearing the host bits does not change them.\<close>

definition covers :: "ip_addr_mask \<Rightarrow> ip_addr \<Rightarrow> bool" where
  "covers p a \<longleftrightarrow>
     (case (netmask p, im_address p, a) of
        (V4 m, V4 n, V4 x) \<Rightarrow> x AND m = n AND m
      | (V6 m, V6 n, V6 x) \<Rightarrow> x AND m = n AND m
      | _ \<Rightarrow> False)"

lemma network_prefix_covers:
  assumes "mask_ok dg"
  shows "covers (network_prefix dg p) a = covers p a"
  using assms
  by (cases "im_address p"; cases a)
    (simp_all add: covers_def network_prefix_def mask_ok_def netmask_def Let_def mask_idem)

lemma stale_routes_set: "set (stale_routes i w) = set i - set w"
  by (auto simp: stale_routes_def)

subsection \<open>The commands that run\<close>

text \<open>The same commands with a log of what was run and what came back.\<close>

definition logged ::
  "'w commands \<Rightarrow> ('w \<times> (string list \<times> (bool \<times> string) result) list) commands" where
  "logged io =
     \<lparr>cmd_status = (\<lambda>prog args (w, l).
        (case cmd_status io prog args w of (r, w') \<Rightarrow> (r, w', l @ [(prog # args, r)]))),
      cmd_output = (\<lambda>prog args (w, l).
        (case cmd_output io prog args w of (r, w') \<Rightarrow> (r, w', l @ [(prog # args, r)]))),
      cmd_spawn = (\<lambda>prog args (w, l).
        (case cmd_spawn io prog args w of (r, w') \<Rightarrow>
          (r, w', l @ [(prog # args, map_sum id (\<lambda>stdin. (stdin, [])) r)]))),
      cmd_write = (\<lambda>s (w, l). (case cmd_write io s w of (r, w') \<Rightarrow> (r, w', l))),
      cmd_wait = (\<lambda>(w, l). (case cmd_wait io w of (r, w') \<Rightarrow> (r, w', l)))\<rparr>"

definition succeeded :: "(bool \<times> string) result \<Rightarrow> bool" where
  "succeeded r = (case r of Inl e \<Rightarrow> False | Inr (s, t) \<Rightarrow> s)"

definition route_cmd :: "'k defguard \<Rightarrow> string \<Rightarrow> string \<Rightarrow> ip_addr_mask \<Rightarrow> string list" where
  "route_cmd dg act ifname p = ''ip'' # ip_route_args dg act p ifname"

definition show_cmd :: "string \<Rightarrow> string \<Rightarrow> string list" where
  "show_cmd family ifname = ''ip'' # route_show_args family ifname"

text \<open>
  The prefixes an answer of \<open>ip route show\<close> lists: the destinations of its entries that are
  prefixes, in order, and none if the answer cannot be decoded. A command that could not be run
  or failed counts as an empty answer, which is no JSON.
\<close>

definition listed_prefixes ::
  "'k defguard \<Rightarrow> (string \<Rightarrow> string option list result) \<Rightarrow> (bool \<times> string) result \<Rightarrow> ip_addr_mask list" where
  "listed_prefixes dg dec answer =
     [p. Inr entries \<leftarrow> [dec (from_utf8_lossy (if succeeded answer then snd (projr answer) else []))],
         Some dst \<leftarrow> entries, Inr p \<leftarrow> [mask_from_str dg (trim dst)]]"

lemma ip_route_logged:
  "\<exists>r w' x. ip_route dg (logged io) act p ifname (w, l) = (r, w', l @ [(route_cmd dg act ifname p, x)])
     \<and> (r = Inr () \<longleftrightarrow> succeeded x)"
  by (auto simp: ip_route_def logged_def route_cmd_def bindS_def map_errS_def Let_def succeeded_def
      split: prod.splits sum.splits)

lemma delete_routes_logged:
  "\<exists>w' xs. delete_routes dg (logged io) ifname ps (w, l)
     = (Inr (), w', l @ zip (map (route_cmd dg ''del'' ifname) ps) xs) \<and> length xs = length ps"
proof (induction ps arbitrary: w l)
  case Nil
  then show ?case by simp
next
  case (Cons p ps)
  from ip_route_logged [of dg io "''del''" p ifname w l] obtain r w1 x where
    "ip_route dg (logged io) ''del'' p ifname (w, l) = (r, w1, l @ [(route_cmd dg ''del'' ifname p, x)])"
    by blast
  moreover from Cons [of w1 "l @ [(route_cmd dg ''del'' ifname p, x)]"] obtain w' xs where
    "delete_routes dg (logged io) ifname ps (w1, l @ [(route_cmd dg ''del'' ifname p, x)])
      = (Inr (), w', (l @ [(route_cmd dg ''del'' ifname p, x)])
          @ zip (map (route_cmd dg ''del'' ifname) ps) xs)" "length xs = length ps" by blast
  ultimately show ?case
    by (intro exI [of _ w'] exI [of _ "x # xs"]) simp
qed

text \<open>The additions run in order, all of them, or up to the first that fails.\<close>

definition up_to_failure :: "'a list \<Rightarrow> (bool \<times> string) result list \<Rightarrow> bool \<Rightarrow> bool" where
  "up_to_failure ps xs good \<longleftrightarrow>
     (if good then length xs = length ps \<and> list_all succeeded xs
      else xs \<noteq> [] \<and> length xs \<le> length ps \<and> list_all succeeded (butlast xs) \<and> \<not> succeeded (last xs))"

lemma replace_routes_logged:
  "\<exists>r w' xs. replace_routes dg (logged io) ifname ps (w, l)
     = (r, w', l @ zip (map (route_cmd dg ''replace'' ifname) ps) xs) \<and> up_to_failure ps xs (r = Inr ())"
proof (induction ps arbitrary: w l)
  case Nil
  show ?case by (intro exI [of _ "Inr ()"] exI [of _ w] exI [of _ "[]"]) (simp add: up_to_failure_def)
next
  case (Cons p ps)
  from ip_route_logged [of dg io "''replace''" p ifname w l] obtain r w1 x where
    1: "ip_route dg (logged io) ''replace'' p ifname (w, l)
      = (r, w1, l @ [(route_cmd dg ''replace'' ifname p, x)])" "r = Inr () \<longleftrightarrow> succeeded x" by blast
  show ?case
  proof (cases r)
    case (Inl e)
    with 1 show ?thesis
      by (intro exI [of _ "Inl e"] exI [of _ w1] exI [of _ "[x]"]) (simp add: bindS_def up_to_failure_def)
  next
    case (Inr u)
    from Cons [of w1 "l @ [(route_cmd dg ''replace'' ifname p, x)]"] obtain r' w' xs where
      "replace_routes dg (logged io) ifname ps (w1, l @ [(route_cmd dg ''replace'' ifname p, x)])
        = (r', w', (l @ [(route_cmd dg ''replace'' ifname p, x)])
          @ zip (map (route_cmd dg ''replace'' ifname) ps) xs)"
      "up_to_failure ps xs (r' = Inr ())" by blast
    with 1 Inr show ?thesis
      by (intro exI [of _ r'] exI [of _ w'] exI [of _ "x # xs"])
        (auto simp: bindS_def up_to_failure_def)
  qed
qed

lemma parse_prefixes_listed:
  "parse_ip_route_prefixes dg dec json =
     [p. Inr entries \<leftarrow> [dec json], Some dst \<leftarrow> entries, Inr p \<leftarrow> [mask_from_str dg (trim dst)]]"
proof -
  have "List.map_filter (\<lambda>dst. Option.bind dst (\<lambda>d. ok (mask_from_str dg (trim d)))) entries
      = [p. Some dst \<leftarrow> entries, Inr p \<leftarrow> [mask_from_str dg (trim dst)]]" for entries
    by (induction entries) (auto split: option.split sum.split)
  then show ?thesis by (auto simp: parse_ip_route_prefixes_def split: sum.split)
qed

lemma shown_logged:
  "\<exists>w' a. shown_routes dg dec (logged io) ifname family (w, l)
     = (listed_prefixes dg dec a, w', l @ [(show_cmd family ifname, a)])"
proof -
  obtain a w' where "cmd_output io ''ip'' (route_show_args family ifname) w = (a, w')" by fastforce
  then show ?thesis
    by (intro exI [of _ w'] exI [of _ a])
      (auto simp: shown_routes_def logged_def listed_prefixes_def parse_prefixes_listed succeeded_def show_cmd_def Let_def
        split: sum.split prod.split bool.split)
qed

lemma installed_logged:
  "\<exists>w' a b. installed_split_routes dg dec (logged io) ifname (w, l)
     = (listed_prefixes dg dec a @ listed_prefixes dg dec b, w',
        l @ [(show_cmd ''-4'' ifname, a), (show_cmd ''-6'' ifname, b)])"
proof -
  obtain w1 a where 4: "shown_routes dg dec (logged io) ifname ''-4'' (w, l)
      = (listed_prefixes dg dec a, w1, l @ [(show_cmd ''-4'' ifname, a)])" using shown_logged [of dg dec io ifname "''-4''" w l] by blast
  obtain w2 b where "shown_routes dg dec (logged io) ifname ''-6'' (w1, l @ [(show_cmd ''-4'' ifname, a)])
      = (listed_prefixes dg dec b, w2, (l @ [(show_cmd ''-4'' ifname, a)]) @ [(show_cmd ''-6'' ifname, b)])"
    using shown_logged [of dg dec io ifname "''-6''" w1 "l @ [(show_cmd ''-4'' ifname, a)]"] by blast
  with 4 show ?thesis
    by (intro exI [of _ w2] exI [of _ a] exI [of _ b]) (simp add: installed_split_routes_def)
qed

subsection \<open>What the commands leave installed\<close>

text \<open>
  Documented behaviour of \<open>ip\<close>, as named hypotheses over a view of the world: the prefixes routed
  out of the interface with our protocol tag. A \<open>replace\<close> that succeeds adds a prefix in the
  form in which the kernel keeps it, a \<open>del\<close> that succeeds takes it away, one that fails changes
  nothing, and showing the routes never does.
\<close>

definition ip_routes ::
  "'k defguard \<Rightarrow> 'w commands \<Rightarrow> string \<Rightarrow> ('w \<Rightarrow> ip_addr_mask set) \<Rightarrow> bool" where
  "ip_routes dg io ifname routes \<longleftrightarrow>
     (\<forall>p w. network_prefix dg p = p \<longrightarrow>
        (let out = cmd_status io ''ip'' (ip_route_args dg ''replace'' p ifname) w
         in routes (snd out) = (if succeeded (fst out) then insert p (routes w) else routes w)))
   \<and> (\<forall>p w. let out = cmd_status io ''ip'' (ip_route_args dg ''del'' p ifname) w
        in routes (snd out) = (if succeeded (fst out) then routes w - {p} else routes w))
   \<and> (\<forall>family w. routes (snd (cmd_output io ''ip'' (route_show_args family ifname) w)) = routes w)"

text \<open>
  And if nothing goes wrong: the routes are shown, and a route that is there can be deleted.
\<close>

definition ip_cleans ::
  "'k defguard \<Rightarrow> (string \<Rightarrow> string option list result) \<Rightarrow> 'w commands \<Rightarrow> string
     \<Rightarrow> ('w \<Rightarrow> ip_addr_mask set) \<Rightarrow> bool" where
  "ip_cleans dg dec io ifname routes \<longleftrightarrow>
     (\<forall>family \<in> {''-4'', ''-6''}. \<forall>w. set (fst (shown_routes dg dec io ifname family w))
        = {p \<in> routes w. is_ipv6 (im_address p) \<longleftrightarrow> family \<noteq> ''-4''})
   \<and> (\<forall>p w. p \<in> routes w \<longrightarrow>
        succeeded (fst (cmd_status io ''ip'' (ip_route_args dg ''del'' p ifname) w)))"

lemma ip_route_outcome:
  assumes "ip_route dg io act p ifname w = (r, w')"
  shows "w' = snd (cmd_status io ''ip'' (ip_route_args dg act p ifname) w)"
    and "r = Inr () \<longleftrightarrow> succeeded (fst (cmd_status io ''ip'' (ip_route_args dg act p ifname) w))"
  using assms
  by (cases "cmd_status io ''ip'' (ip_route_args dg act p ifname) w",
      cases "fst (cmd_status io ''ip'' (ip_route_args dg act p ifname) w)",
      auto simp: ip_route_def Let_def bindS_def map_errS_def succeeded_def split: if_splits)+

lemma ip_route_replace:
  assumes "ip_routes dg io ifname routes" "network_prefix dg p = p"
    and "ip_route dg io ''replace'' p ifname w = (r, w')"
  shows "routes w' = (if r = Inr () then insert p (routes w) else routes w)"
  using assms(1,2) unfolding ip_route_outcome [OF assms(3)] ip_routes_def Let_def by blast

lemma ip_route_del:
  assumes "ip_routes dg io ifname routes" and "ip_route dg io ''del'' p ifname w = (r, w')"
  shows "routes w' = (if r = Inr () then routes w - {p} else routes w)"
  using assms(1) unfolding ip_route_outcome [OF assms(2)] ip_routes_def Let_def by blast

lemma ip_route_cleans:
  assumes "ip_cleans dg dec io ifname routes" "p \<in> routes w"
    and "ip_route dg io ''del'' p ifname w = (r, w')"
  shows "r = Inr ()"
  using assms(2) conjunct2 [OF assms(1) [unfolded ip_cleans_def]] unfolding ip_route_outcome(2) [OF assms(3)] by simp

lemma shown_routes_cleans:
  assumes "ip_cleans dg dec io ifname routes"
  shows "shown_routes dg dec io ifname ''-4'' w = (i, w') \<Longrightarrow> set i = {p \<in> routes w. \<not> is_ipv6 (im_address p)}"
    and "shown_routes dg dec io ifname ''-6'' w = (i, w') \<Longrightarrow> set i = {p \<in> routes w. is_ipv6 (im_address p)}"
proof -
  have "\<forall>family \<in> {''-4'', ''-6''}. \<forall>w. set (fst (shown_routes dg dec io ifname family w))
      = {p \<in> routes w. is_ipv6 (im_address p) \<longleftrightarrow> family \<noteq> ''-4''}"
    using assms unfolding ip_cleans_def by (rule conjunct1)
  then have "set (fst (shown_routes dg dec io ifname ''-4'' w)) = {p \<in> routes w. \<not> is_ipv6 (im_address p)}"
    and "set (fst (shown_routes dg dec io ifname ''-6'' w)) = {p \<in> routes w. is_ipv6 (im_address p)}"
    by simp_all
  then show "shown_routes dg dec io ifname ''-4'' w = (i, w') \<Longrightarrow> set i = {p \<in> routes w. \<not> is_ipv6 (im_address p)}"
    and "shown_routes dg dec io ifname ''-6'' w = (i, w') \<Longrightarrow> set i = {p \<in> routes w. is_ipv6 (im_address p)}"
    by simp_all
qed

lemma shown_routes_keep:
  assumes "ip_routes dg io ifname routes"
  shows "routes (snd (shown_routes dg dec io ifname family w)) = routes w"
proof -
  have "routes (snd (cmd_output io ''ip'' (route_show_args family ifname) w)) = routes w"
    using assms unfolding ip_routes_def by blast
  then show ?thesis by (simp add: shown_routes_def Let_def split_beta)
qed

lemma replace_routes_leave:
  assumes "ip_routes dg io ifname routes" "\<forall>p \<in> set ps. network_prefix dg p = p"
    and "replace_routes dg io ifname ps w = (r, w')"
  shows "routes w \<subseteq> routes w' \<and> routes w' \<subseteq> routes w \<union> set ps \<and> (r = Inr () \<longrightarrow> routes w' = routes w \<union> set ps)"
  using assms(2,3)
proof (induction ps arbitrary: w)
  case Nil
  then show ?case by simp
next
  case (Cons p ps)
  obtain x w1 where 1: "ip_route dg io ''replace'' p ifname w = (x, w1)" by fastforce
  have "routes w1 = (if x = Inr () then insert p (routes w) else routes w)"
    using ip_route_replace [OF assms(1) _ 1] Cons.prems(1) by simp
  with Cons.prems Cons.IH [of w1] 1 show ?case
    by (cases x) (auto simp: bindS_def)
qed

lemma delete_routes_leave:
  assumes "ip_routes dg io ifname routes"
  shows "routes w - set ps \<subseteq> routes (snd (delete_routes dg io ifname ps w))
    \<and> (ip_cleans dg dec io ifname routes \<longrightarrow> routes (snd (delete_routes dg io ifname ps w)) = routes w - set ps)"
proof (induction ps arbitrary: w)
  case Nil
  then show ?case by simp
next
  case (Cons p ps)
  obtain x w1 where 1: "ip_route dg io ''del'' p ifname w = (x, w1)" by fastforce
  have r: "routes w1 = (if x = Inr () then routes w - {p} else routes w)"
    by (rule ip_route_del [OF assms 1])
  moreover have "routes w1 = routes w - {p}" if c: "ip_cleans dg dec io ifname routes"
    using ip_route_cleans [OF c _ 1] r by (cases "p \<in> routes w") auto
  ultimately show ?case
    using Cons [of w1] 1 by (auto split: if_splits)
qed

lemma delete_routes_succeed: "fst (delete_routes dg io ifname ps w) = Inr ()"
  by (induction ps arbitrary: w) simp_all

lemma installed_leave:
  assumes "ip_routes dg io ifname routes" and "installed_split_routes dg dec io ifname w = (i, w')"
  shows "routes w' = routes w \<and> (ip_cleans dg dec io ifname routes \<longrightarrow> set i = routes w)"
proof -
  obtain i4 w1 where 4: "shown_routes dg dec io ifname ''-4'' w = (i4, w1)" by fastforce
  obtain i6 w2 where 6: "shown_routes dg dec io ifname ''-6'' w1 = (i6, w2)" by fastforce
  have 7: "routes w1 = routes w" "routes w2 = routes w1"
    using shown_routes_keep [OF assms(1), of dec "''-4''" w] shown_routes_keep [OF assms(1), of dec "''-6''" w1] 4 6
    by simp_all
  have i: "i = i4 @ i6" "w' = w2" using assms(2) 4 6 by (simp_all add: installed_split_routes_def)
  have "set i = routes w" if c: "ip_cleans dg dec io ifname routes"
    using shown_routes_cleans(1) [OF c 4] shown_routes_cleans(2) [OF c 6] unfolding i 7 set_append by blast
  with i 7 show ?thesis by simp
qed

text \<open>A call leaves the routes as they should be, and, when it fails, has removed nothing.\<close>

lemma sync_routes_leave:
  assumes "ip_routes dg io ifname routes" "\<forall>p \<in> set ps. network_prefix dg p = p"
    and "sync_split_routes_via_ip dg dec io ifname ps w = (r, w')"
  shows "(r = Inr () \<longrightarrow> set ps \<subseteq> routes w') \<and> (r \<noteq> Inr () \<longrightarrow> routes w \<subseteq> routes w')
    \<and> (r = Inr () \<longrightarrow> ip_cleans dg dec io ifname routes \<longrightarrow> routes w' = set ps)"
proof -
  obtain x w1 where 1: "replace_routes dg io ifname ps w = (x, w1)" by fastforce
  note a = replace_routes_leave [OF assms(1,2) 1]
  show ?thesis
  proof (cases x)
    case (Inl e)
    with a 1 assms(3) show ?thesis by (auto simp: sync_split_routes_via_ip_def bindS_def)
  next
    case (Inr u)
    obtain i w2 where 2: "installed_split_routes dg dec io ifname w1 = (i, w2)" by fastforce
    have w': "(r, w') = delete_routes dg io ifname (stale_routes i ps) w2"
      using assms(3) 1 2 Inr by (simp add: sync_split_routes_via_ip_def bindS_def)
    then have r: "r = Inr ()" and w'': "w' = snd (delete_routes dg io ifname (stale_routes i ps) w2)"
      by (metis delete_routes_succeed fst_conv, metis snd_conv)
    have "routes w1 = routes w \<union> set ps" using a Inr by simp
    then have "routes w2 = routes w \<union> set ps" and i: "ip_cleans dg dec io ifname routes \<longrightarrow> set i = routes w \<union> set ps"
      using installed_leave [OF assms(1) 2] by simp_all
    with delete_routes_leave [OF assms(1), of w2 "stale_routes i ps" dec]
    have "(routes w \<union> set ps) - (set i - set ps) \<subseteq> routes w'"
      and "ip_cleans dg dec io ifname routes \<longrightarrow> routes w' = routes w \<union> set ps - (set i - set ps)"
      unfolding w'' stale_routes_set by simp_all
    with r i show ?thesis by blast
  qed
qed

text \<open>The same commands with a record of the routes after each of them.\<close>

definition watched :: "('w \<Rightarrow> ip_addr_mask set) \<Rightarrow> 'w commands \<Rightarrow> ('w \<times> ip_addr_mask set list) commands" where
  "watched routes io =
     \<lparr>cmd_status = (\<lambda>prog args (w, h).
        (case cmd_status io prog args w of (r, w') \<Rightarrow> (r, w', h @ [routes w']))),
      cmd_output = (\<lambda>prog args (w, h).
        (case cmd_output io prog args w of (r, w') \<Rightarrow> (r, w', h @ [routes w']))),
      cmd_spawn = (\<lambda>prog args (w, h).
        (case cmd_spawn io prog args w of (r, w') \<Rightarrow> (r, w', h @ [routes w']))),
      cmd_write = (\<lambda>s (w, h). (case cmd_write io s w of (r, w') \<Rightarrow> (r, w', h @ [routes w']))),
      cmd_wait = (\<lambda>(w, h). (case cmd_wait io w of (r, w') \<Rightarrow> (r, w', h @ [routes w'])))\<rparr>"

definition always_routed :: "('w \<Rightarrow> ip_addr_mask set) \<Rightarrow> ip_addr_mask set \<Rightarrow> 'w \<times> ip_addr_mask set list \<Rightarrow> bool" where
  "always_routed routes c x \<longleftrightarrow> c \<subseteq> routes (fst x) \<and> (\<forall>s \<in> set (snd x). c \<subseteq> s)"

lemma watched_ip_routes:
  "ip_routes dg io ifname routes \<Longrightarrow> ip_routes dg (watched routes io) ifname (routes \<circ> fst)"
  unfolding ip_routes_def watched_def Let_def by (simp add: split_beta)

lemma watched_ip_cleans:
  assumes "ip_cleans dg dec io ifname routes"
  shows "ip_cleans dg dec (watched routes io) ifname (routes \<circ> fst)"
proof -
  have "fst (shown_routes dg dec (watched routes io) ifname f x) = fst (shown_routes dg dec io ifname f (fst x))" for f x
    by (simp add: shown_routes_def watched_def split_beta)
  then show ?thesis
    using assms unfolding ip_cleans_def by (simp add: watched_def split_beta)
qed

lemma watched_ip_route:
  "\<exists>w'. ip_route dg (watched routes io) act p ifname (w, h) = (r, x) \<longrightarrow> x = (w', h @ [routes w'])"
  unfolding ip_route_def watched_def Let_def
  by (auto simp: bindS_def map_errS_def split_beta split: prod.splits sum.splits if_splits)

lemma always_routed_replace:
  assumes "ip_routes dg io ifname routes" "network_prefix dg p = p"
  shows "keeps (always_routed routes c) (ip_route dg (watched routes io) ''replace'' p ifname)"
proof
  fix x assume a: "always_routed routes c x"
  obtain w h where x: "x = (w, h)" by fastforce
  obtain r y where 1: "ip_route dg (watched routes io) ''replace'' p ifname x = (r, y)" by (rule prod.exhaust)
  with watched_ip_route [of dg routes io "''replace''" p ifname w h r y] obtain w' where y: "y = (w', h @ [routes w'])"
    unfolding x by blast
  have "routes w \<subseteq> routes w'"
    using ip_route_replace [OF watched_ip_routes [OF assms(1)] assms(2) 1] unfolding x y by (auto split: if_splits)
  with a have "always_routed routes c y"
    unfolding x y by (auto simp: always_routed_def)
  then show "always_routed routes c (snd (ip_route dg (watched routes io) ''replace'' p ifname x))"
    unfolding 1 by simp
qed

lemma always_routed_del:
  assumes "ip_routes dg io ifname routes" "p \<notin> c"
  shows "keeps (always_routed routes c) (ip_route dg (watched routes io) ''del'' p ifname)"
proof
  fix x assume a: "always_routed routes c x"
  obtain w h where x: "x = (w, h)" by fastforce
  obtain r y where 1: "ip_route dg (watched routes io) ''del'' p ifname x = (r, y)" by (rule prod.exhaust)
  with watched_ip_route [of dg routes io "''del''" p ifname w h r y] obtain w' where y: "y = (w', h @ [routes w'])"
    unfolding x by blast
  have "routes w - {p} \<subseteq> routes w'"
    using ip_route_del [OF watched_ip_routes [OF assms(1)] 1] unfolding x y by (auto split: if_splits)
  with a assms(2) have "always_routed routes c y"
    unfolding x y by (auto simp: always_routed_def)
  then show "always_routed routes c (snd (ip_route dg (watched routes io) ''del'' p ifname x))"
    unfolding 1 by simp
qed

lemma always_routed_shown:
  assumes "ip_routes dg io ifname routes"
  shows "always_routed routes c x
    \<Longrightarrow> always_routed routes c (snd (shown_routes dg dec (watched routes io) ifname family x))"
  using shown_routes_keep [OF assms, of dec family "fst x"]
  by (cases x) (auto simp: always_routed_def shown_routes_def watched_def split_beta Let_def)

lemma always_routed_sync:
  assumes "ip_routes dg io ifname routes" "\<forall>p \<in> set ps. network_prefix dg p = p" "c \<subseteq> set ps"
  shows "keeps (always_routed routes c) (sync_split_routes_via_ip dg dec (watched routes io) ifname ps)"
proof -
  have r: "keeps (always_routed routes c) (replace_routes dg (watched routes io) ifname qs)"
    if "set qs \<subseteq> set ps" for qs
    using that assms(2) by (induction qs) (auto intro!: keeps_bindS always_routed_replace [OF assms(1)])
  have d: "keeps (always_routed routes c) (delete_routes dg (watched routes io) ifname qs)"
    if "set qs \<inter> c = {}" for qs
    using that by (induction qs) (auto intro!: keeps_bindS keeps_ignoreS always_routed_del [OF assms(1)])
  have "keeps (always_routed routes c) (\<lambda>x. case installed_split_routes dg dec (watched routes io) ifname x of
      (installed, x') \<Rightarrow> delete_routes dg (watched routes io) ifname (stale_routes installed ps) x')"
  proof
    fix x assume a: "always_routed routes c x"
    obtain i y where i: "installed_split_routes dg dec (watched routes io) ifname x = (i, y)" by (rule prod.exhaust)
    have "always_routed routes c y"
      using i always_routed_shown [OF assms(1) always_routed_shown [OF assms(1) a, of dec "''-4''"], of dec "''-6''"]
      unfolding installed_split_routes_def split_beta by (metis snd_conv)
    moreover have "set (stale_routes i ps) \<inter> c = {}" using assms(3) by (auto simp: stale_routes_set)
    ultimately show "always_routed routes c (snd (case installed_split_routes dg dec (watched routes io) ifname x of
      (installed, x') \<Rightarrow> delete_routes dg (watched routes io) ifname (stale_routes installed ps) x'))"
      using keepsD [OF d] unfolding i by simp
  qed
  then show ?thesis
    unfolding sync_split_routes_via_ip_def by (intro keeps_bindS r) simp_all
qed

lemma split_routes_canonical:
  "mask_ok dg \<Longrightarrow> \<forall>p \<in> set (split_route_prefixes dg peer). network_prefix dg p = p"
  by (auto simp: split_route_prefixes_def network_prefix_idem)

section \<open>Properties of the split routes\<close>

text \<open>
  C15: the commands a switch runs, whatever they answer. First one \<open>ip route replace\<close> for each
  wanted prefix in order; the first that fails ends the call with an error, before anything
  was removed. Then the routes are shown for both families, and one \<open>ip route del\<close> is run for
  each prefix those two answers list that is not wanted, and for no other, whether or not the
  one before it succeeded.
\<close>

theorem sync_routes_commands:
  "\<exists>r w' adds a b dels. sync_split_routes_via_ip dg dec (logged io) ifname ps (w, l)
     = (r, w', l @ zip (map (route_cmd dg ''replace'' ifname) ps) adds
          @ (if r = Inr ()
             then [(show_cmd ''-4'' ifname, a), (show_cmd ''-6'' ifname, b)]
               @ zip (map (route_cmd dg ''del'' ifname)
                   [p \<leftarrow> listed_prefixes dg dec a @ listed_prefixes dg dec b. p \<notin> set ps]) dels
             else []))
     \<and> up_to_failure ps adds (r = Inr ())
     \<and> length dels = length [p \<leftarrow> listed_prefixes dg dec a @ listed_prefixes dg dec b. p \<notin> set ps]"
proof -
  from replace_routes_logged [of dg io ifname ps w l] obtain r w1 adds where
    1: "replace_routes dg (logged io) ifname ps (w, l)
     = (r, w1, l @ zip (map (route_cmd dg ''replace'' ifname) ps) adds)"
      "up_to_failure ps adds (r = Inr ())" by blast
  let ?l1 = "l @ zip (map (route_cmd dg ''replace'' ifname) ps) adds"
  from installed_logged [of dg dec io ifname w1 ?l1] obtain w2 a b where
    2: "installed_split_routes dg dec (logged io) ifname (w1, ?l1)
      = (listed_prefixes dg dec a @ listed_prefixes dg dec b, w2,
         ?l1 @ [(show_cmd ''-4'' ifname, a), (show_cmd ''-6'' ifname, b)])" by blast
  let ?l2 = "?l1 @ [(show_cmd ''-4'' ifname, a), (show_cmd ''-6'' ifname, b)]"
  let ?old = "[p \<leftarrow> listed_prefixes dg dec a @ listed_prefixes dg dec b. p \<notin> set ps]"
  from delete_routes_logged [of dg io ifname ?old w2 ?l2] obtain w' dels where
    3: "delete_routes dg (logged io) ifname ?old (w2, ?l2)
      = (Inr (), w', ?l2 @ zip (map (route_cmd dg ''del'' ifname) ?old) dels)" "length dels = length ?old" by blast
  show ?thesis
  proof (cases r)
    case (Inl e)
    with 1 3(2) show ?thesis
      by (intro exI [of _ r] exI [of _ w1] exI [of _ adds] exI [of _ a] exI [of _ b] exI [of _ dels])
        (simp add: sync_split_routes_via_ip_def bindS_def)
  next
    case (Inr u)
    with 1 2 3 show ?thesis
      by (intro exI [of _ r] exI [of _ w'] exI [of _ adds] exI [of _ a] exI [of _ b] exI [of _ dels])
        (simp add: sync_split_routes_via_ip_def bindS_def stale_routes_def)
  qed
qed

text \<open>
  C14: what a switch does to the routes, where \<open>ip\<close> does what its documentation says. After every
  command, a prefix that was routed before and is wanted still has its route, so that the
  traffic both servers carry never falls back to the local link. A call that succeeds leaves
  every wanted prefix routed, one that fails has removed nothing. And if the routes can be
  shown and deleted, exactly the wanted prefixes are routed in the end.
\<close>

theorem sync_routes_effect:
  assumes "mask_ok dg" and "ip_routes dg io ifname routes"
    and "sync_split_routes_via_ip dg dec (watched routes io) ifname (split_route_prefixes dg peer) (w, [])
      = (r, w', h)"
  shows "(\<forall>s \<in> set h. routes w \<inter> set (split_route_prefixes dg peer) \<subseteq> s)
    \<and> (if r = Inr () then set (split_route_prefixes dg peer) \<subseteq> routes w' else routes w \<subseteq> routes w')
    \<and> (r = Inr () \<and> ip_cleans dg dec io ifname routes \<longrightarrow> routes w' = set (split_route_prefixes dg peer))"
proof -
  note c = split_routes_canonical [OF assms(1), of peer]
  have "always_routed routes (routes w \<inter> set (split_route_prefixes dg peer)) (w', h)"
    using keepsD [OF always_routed_sync [OF assms(2) c, of "routes w \<inter> set (split_route_prefixes dg peer)" dec],
      of "(w, [])"] assms(3)
    by (simp add: always_routed_def)
  with sync_routes_leave [OF watched_ip_routes [OF assms(2)] c assms(3)]
    watched_ip_cleans [of dg dec io ifname routes]
  show ?thesis by (auto simp: always_routed_def)
qed

definition lan_a :: ip_addr_mask where
  "lan_a = \<lparr>im_address = V4 0xC0A80100, im_cidr = 24\<rparr>"

definition lan_b :: ip_addr_mask where
  "lan_b = \<lparr>im_address = V4 0x0A080000, im_cidr = 16\<rparr>"

definition lan_peer :: "sample_key peer" where
  "lan_peer = (blank_peer (Key 7))\<lparr>peer_allowed_ips :=
     [\<lparr>im_address = V4 0, im_cidr = 0\<rparr>, \<lparr>im_address = V4 0xC0A80105, im_cidr = 24\<rparr>]\<rparr>"

lemma lan_peer_split: "split_route_prefixes sample_dg lan_peer = [lan_a]"
  by (simp add: split_route_prefixes_def lan_peer_def blank_peer_def network_prefix_def
      sample_dg_def netmask_def lan_a_def mask_eq_exp_minus_1)

text \<open>An \<open>ip\<close> that knows two prefixes.\<close>

lemma no_digit_slash: "no_digit 10 (CHR ''/'' # s)" "ends_groups (CHR ''/'' # s)"
  by (simp_all add: no_digit_def ends_groups_def ends_group_def is_digit_def digit_value_def)

lemma sample_mask_to_string_inj: "sample_mask_to_string p = sample_mask_to_string q \<longleftrightarrow> p = q"
proof
  assume e: "sample_mask_to_string p = sample_mask_to_string q"
  have colon: "is_ipv6 (im_address m) \<longleftrightarrow> CHR '':'' \<in> set (sample_mask_to_string m)" for m
    by (cases "im_address m") (simp_all add: sample_mask_to_string_def)
  have "im_address p = im_address q \<and> show_nat (unat (im_cidr p)) = show_nat (unat (im_cidr q))"
  proof (cases "im_address p")
    case (V4 a)
    then obtain b where "im_address q = V4 b" using colon [of p] colon [of q] e by (cases "im_address q") auto
    with V4 e show ?thesis
      using read_ipv4_show [OF no_digit_slash(1), of a] read_ipv4_show [OF no_digit_slash(1), of b]
      by (simp add: sample_mask_to_string_def) (metis list.inject option.inject prod.inject)
  next
    case (V6 a)
    then obtain b where "im_address q = V6 b" using colon [of p] colon [of q] e by (cases "im_address q") auto
    with V6 e show ?thesis
      using read_ipv6_show [OF no_digit_slash(2), of a] read_ipv6_show [OF no_digit_slash(2), of b]
      by (simp add: sample_mask_to_string_def) (metis list.inject option.inject prod.inject)
  qed
  moreover from this have "im_cidr p = im_cidr q" using digits_value_show_nat unsigned_word_eqI by metis
  ultimately show "p = q" by (cases p; cases q) simp
qed simp

definition lan_routes :: "bool \<times> bool \<Rightarrow> ip_addr_mask set" where
  "lan_routes w = (if fst w then {lan_a} else {}) \<union> (if snd w then {lan_b} else {})"

definition lan_ip :: "(bool \<times> bool) commands" where
  "lan_ip =
     \<lparr>cmd_status = (\<lambda>prog args (a, b).
        if args = ip_route_args sample_dg ''replace'' lan_a ''wf0'' then (Inr (True, ''0''), True, b)
        else if args = ip_route_args sample_dg ''replace'' lan_b ''wf0'' then (Inr (True, ''0''), a, True)
        else if args = ip_route_args sample_dg ''del'' lan_a ''wf0'' then (Inr (a, ''2''), False, b)
        else if args = ip_route_args sample_dg ''del'' lan_b ''wf0'' then (Inr (b, ''2''), a, False)
        else (Inr (False, ''2''), a, b)),
      cmd_output = (\<lambda>prog args (a, b).
        (Inr (True, if hd args = ''-4'' then (if a then ''a'' else []) @ (if b then ''b'' else []) else []), a, b)),
      cmd_spawn = (\<lambda>prog args. retS True), cmd_write = (\<lambda>s. retS ()), cmd_wait = retS (True, ''0'')\<rparr>"

definition lan_dec :: "string \<Rightarrow> string option list result" where
  "lan_dec s = Inr (map (\<lambda>c. Some (sample_mask_to_string (if c = CHR ''a'' then lan_a else lan_b))) s)"

lemma lan_args [simp]:
  "ip_route_args sample_dg act p ifname = ip_route_args sample_dg act' q ifname' \<longleftrightarrow>
   act = act' \<and> p = q \<and> ifname = ifname'"
  by (auto simp: ip_route_args_def sample_dg_def sample_mask_to_string_inj)

lemma lan_distinct [simp]: "lan_a \<noteq> lan_b" "lan_b \<noteq> lan_a"
  "\<not> is_ipv6 (im_address lan_a)" "\<not> is_ipv6 (im_address lan_b)"
  by (simp_all add: lan_a_def lan_b_def)

lemma lan_ip_routes: "ip_routes sample_dg lan_ip ''wf0'' lan_routes"
  unfolding ip_routes_def by (auto simp: lan_ip_def lan_routes_def succeeded_def)

lemma lan_texts:
  "sample_mask_from_str (trim (sample_mask_to_string lan_a)) = Inr lan_a"
  "sample_mask_from_str (trim (sample_mask_to_string lan_b)) = Inr lan_b"
proof -
  have s: "sample_mask_to_string lan_a = ''192.168.1.0/24''" "sample_mask_to_string lan_b = ''10.8.0.0/16''"
    by (simp_all add: sample_mask_to_string_def lan_a_def lan_b_def show_ipv4_def join_def octet_def
        show_nat.simps digit_char_def char_of_def bit_0 unat_drop_bit_eq)
  have t: "trim ''192.168.1.0/24'' = ''192.168.1.0/24''" "trim ''10.8.0.0/16'' = ''10.8.0.0/16''"
    by (rule trim_graphic, simp add: graphic_def)+
  show "sample_mask_from_str (trim (sample_mask_to_string lan_a)) = Inr lan_a"
    "sample_mask_from_str (trim (sample_mask_to_string lan_b)) = Inr lan_b"
    unfolding s t by (simp_all add: sample_mask_from_str_def parse_unsigned_def parser_evals lan_a_def lan_b_def)
qed

lemma lan_ip_cleans: "ip_cleans sample_dg lan_dec lan_ip ''wf0'' lan_routes"
proof -
  have "set (fst (shown_routes sample_dg lan_dec lan_ip ''wf0'' f (a, b)))
      = {p \<in> lan_routes (a, b). is_ipv6 (im_address p) \<longleftrightarrow> f \<noteq> ''-4''}" if "f \<in> {''-4'', ''-6''}" for f a b
  proof -
    have "from_utf8_lossy (if f = ''-4'' then (if a then ''a'' else []) @ (if b then ''b'' else []) else [])
        = (if f = ''-4'' then (if a then ''a'' else []) @ (if b then ''b'' else []) else [])"
      by (rule from_utf8_lossy_valid, rule utf8_valid_ascii) simp
    with that show ?thesis
      by (cases a; cases b) (auto simp: shown_routes_def route_show_args_def lan_ip_def lan_routes_def
          parse_ip_route_prefixes_def lan_dec_def lan_texts sample_dg_def List.map_filter_def)
  qed
  then show ?thesis unfolding ip_cleans_def by (auto simp: lan_ip_def lan_routes_def succeeded_def split: if_splits)
qed

lemma lan_sync: "fst (sync_split_routes_via_ip sample_dg lan_dec (watched lan_routes lan_ip) ''wf0'' [lan_a] ((False, True), [])) = Inr ()"
  by (simp add: sync_split_routes_via_ip_def bindS_def ip_route_def map_errS_def watched_def lan_ip_def Let_def
      delete_routes_succeed split_beta)

theorem sync_routes_effect_witness:
  "lan_routes (fst (snd (sync_split_routes_via_ip sample_dg lan_dec (watched lan_routes lan_ip) ''wf0''
     (split_route_prefixes sample_dg lan_peer) ((False, True), [])))) = {lan_a}"
proof -
  obtain r w h where e: "sync_split_routes_via_ip sample_dg lan_dec (watched lan_routes lan_ip) ''wf0''
     (split_route_prefixes sample_dg lan_peer) ((False, True), []) = (r, w, h)" by (metis prod.exhaust)
  have "r = Inr ()" using lan_sync e by (simp add: lan_peer_split)
  with sync_routes_effect [OF sample_mask_ok lan_ip_routes e] lan_ip_cleans e show ?thesis
    by (simp add: lan_peer_split)
qed

text \<open>
  The split routes cover exactly the addresses of the peer's allowed IPs that are not
  default routes, and each is in the canonical form, host bits cleared, in which the kernel
  reports routes back, so that the comparison with the installed routes is meaningful.
\<close>

lemma split_routes_cover:
  assumes "mask_ok dg"
  shows "(\<exists>q \<in> set (split_route_prefixes dg peer). covers q a)
      = (\<exists>p \<in> set (peer_allowed_ips peer). \<not> is_unspecified (im_address p) \<and> covers p a)
    \<and> map (network_prefix dg) (split_route_prefixes dg peer) = split_route_prefixes dg peer"
  using assms by (auto simp: split_route_prefixes_def network_prefix_covers network_prefix_idem)

lemma split_routes_cover_example:
  "covers lan_a (V4 0xC0A80107) \<and> (\<exists>p \<in> set (peer_allowed_ips lan_peer).
     \<not> is_unspecified (im_address p) \<and> covers p (V4 0xC0A80107))"
proof -
  have "covers lan_a (V4 0xC0A80107)" by (simp add: covers_def netmask_def lan_a_def mask_eq_exp_minus_1)
  then show ?thesis
    using split_routes_cover [OF sample_mask_ok, of lan_peer "V4 0xC0A80107"]
    by (simp add: lan_peer_split)
qed

text \<open>
  A prefix counts as a default route by its address alone. A half of the address space
  written with the unspecified address, as in the common pair 0.0.0.0/1 and 128.0.0.0/1,
  therefore gets no route of its own, although its length is not zero.
\<close>

lemma split_routes_half_space:
  "split_route_prefixes sample_dg ((blank_peer k)\<lparr>peer_allowed_ips :=
      [\<lparr>im_address = V4 0, im_cidr = 1\<rparr>, \<lparr>im_address = V4 0x80000000, im_cidr = 1\<rparr>]\<rparr>)
    = [\<lparr>im_address = V4 0x80000000, im_cidr = 1\<rparr>]"
  by (simp add: split_route_prefixes_def blank_peer_def network_prefix_def sample_dg_def netmask_def
      mask_eq_exp_minus_1)

end
