(* ===== verification/Firewall.thy ===== *)
theory Firewall
  imports Routes
begin

section \<open>The packet filter (\<open>daemon/src/wireguard.rs\<close>)\<close>

text \<open>
  \<open>nft_script\<close> writes a script as text, and \<open>run_nft\<close> feeds it to \<open>nft\<close>. The text is the
  rendering of a value of \<open>nft_command list\<close>, on which the meaning of the script is
  defined: what it does to the tables of the host, and which packets its chains drop.
\<close>

definition lf :: string where "lf = [CHR 0x0A]"
definition tab :: string where "tab = [CHR 0x09]"
definition dquoted :: "string \<Rightarrow> string" where "dquoted s = CHR 0x22 # s @ [CHR 0x22]"

definition nft_table :: string where
  "nft_table = ''wirefinder''"

definition nft_priority_raw :: string where
  "nft_priority_raw = ''-300''"

definition nft_priority_mangle :: string where
  "nft_priority_mangle = ''-150''"

text \<open>The body of the loop over the two families: what one of them appends to the script.\<close>

definition family_script ::
  "string \<Rightarrow> ip_addr_mask list \<Rightarrow> u32 option \<Rightarrow> string \<times> bool \<Rightarrow> string" where
  "family_script ifname addresses fwmark = (\<lambda>(family, want_v6).
     (let head = ''add table '' @ family @ '' '' @ nft_table @ lf
            @ ''delete table '' @ family @ '' '' @ nft_table @ lf;
          addrs = filter (\<lambda>a. is_ipv6 (im_address a) = want_v6) addresses
      in if addrs = [] then head
         else head
           @ ''table '' @ family @ '' '' @ nft_table @ '' {'' @ lf
           @ tab @ ''chain preraw {'' @ lf
           @ tab @ tab @ ''type filter hook prerouting priority '' @ nft_priority_raw @ '';'' @ lf
           @ concat (map (\<lambda>addr. tab @ tab @ ''iifname != '' @ dquoted ifname @ '' '' @ family
               @ '' daddr '' @ show_ip (im_address addr) @ '' fib saddr type != local drop'' @ lf) addrs)
           @ tab @ ''}'' @ lf
           @ (case fwmark of
                None \<Rightarrow> []
              | Some m \<Rightarrow>
                  (if m = 0 then []
                   else tab @ ''chain premangle {'' @ lf
                     @ tab @ tab @ ''type filter hook prerouting priority ''
                     @ nft_priority_mangle @ '';'' @ lf
                     @ tab @ tab @ ''meta l4proto udp meta mark set ct mark'' @ lf
                     @ tab @ ''}'' @ lf
                     @ tab @ ''chain postmangle {'' @ lf
                     @ tab @ tab @ ''type filter hook postrouting priority ''
                     @ nft_priority_mangle @ '';'' @ lf
                     @ tab @ tab @ ''meta l4proto udp mark '' @ show_nat (unat m)
                     @ '' ct mark set mark'' @ lf
                     @ tab @ ''}'' @ lf))
           @ ''}'' @ lf))"

definition nft_script :: "string \<Rightarrow> ip_addr_mask list \<Rightarrow> u32 option \<Rightarrow> string" where
  "nft_script ifname addresses fwmark =
     concat (map (family_script ifname addresses fwmark) [(''ip'', False), (''ip6'', True)])"

text \<open>
  \<open>run_nft\<close>: spawn, take the pipe (absent is an error), write, close by the end of the
  scope, wait in any case, and report the write before the exit status.
\<close>

definition run_nft :: "'w commands \<Rightarrow> string \<Rightarrow> ('w, unit) action" where
  "run_nft io script =
     bindS (map_errS (\<lambda>e. ''nft: '' @ e) (cmd_spawn io ''nft'' [''-f'', ''-'']))
     (\<lambda>stdin. if \<not> stdin then liftR (Inl ''nft: stdin unavailable'')
        else (\<lambda>w. case cmd_write io script w of (written, w1) \<Rightarrow>
          bindS (map_errS (\<lambda>e. ''nft: '' @ e) (cmd_wait io))
          (\<lambda>(success, status).
             bindS (liftR (map_err (\<lambda>e. ''nft: writing ruleset: '' @ e) written))
             (\<lambda>_. if success then retS () else liftR (Inl (''nft -f exited with '' @ status)))) w1))"

subsection \<open>The rules behind the text\<close>

datatype family = Ip | Ip6

datatype nft_rule =
    Drop_Spoofed string family ip_addr
  | Restore_Mark
  | Save_Mark u32

datatype hook = Prerouting_Raw | Prerouting_Mangle | Postrouting_Mangle

datatype nft_chain = Chain string hook "nft_rule list"

datatype nft_command =
    Add_Table family
  | Delete_Table family
  | Define_Table family "nft_chain list"

fun family_of :: "ip_addr \<Rightarrow> family" where
  "family_of (V4 a) = Ip"
| "family_of (V6 a) = Ip6"

definition mark_chains :: "u32 option \<Rightarrow> nft_chain list" where
  "mark_chains fwmark =
     (case fwmark of
        None \<Rightarrow> []
      | Some m \<Rightarrow>
          (if m = 0 then []
           else [Chain ''premangle'' Prerouting_Mangle [Restore_Mark],
                 Chain ''postmangle'' Postrouting_Mangle [Save_Mark m]]))"

definition family_rules ::
  "string \<Rightarrow> ip_addr_mask list \<Rightarrow> u32 option \<Rightarrow> family \<Rightarrow> nft_command list" where
  "family_rules ifname addresses fwmark f =
     [Add_Table f, Delete_Table f]
     @ (let own = filter (\<lambda>a. family_of (im_address a) = f) addresses
        in if own = [] then []
           else [Define_Table f
             (Chain ''preraw'' Prerouting_Raw (map (\<lambda>a. Drop_Spoofed ifname f (im_address a)) own)
              # mark_chains fwmark)])"

definition nft_rules :: "string \<Rightarrow> ip_addr_mask list \<Rightarrow> u32 option \<Rightarrow> nft_command list" where
  "nft_rules ifname addresses fwmark =
     concat (map (family_rules ifname addresses fwmark) [Ip, Ip6])"

subsection \<open>Rendering\<close>

primrec show_family :: "family \<Rightarrow> string" where
  "show_family Ip = ''ip''"
| "show_family Ip6 = ''ip6''"

primrec show_rule :: "nft_rule \<Rightarrow> string" where
  "show_rule (Drop_Spoofed ifname f a) = ''iifname != '' @ dquoted ifname @ '' '' @ show_family f
     @ '' daddr '' @ show_ip a @ '' fib saddr type != local drop''"
| "show_rule Restore_Mark = ''meta l4proto udp meta mark set ct mark''"
| "show_rule (Save_Mark m) = ''meta l4proto udp mark '' @ show_nat (unat m) @ '' ct mark set mark''"

primrec show_hook :: "hook \<Rightarrow> string" where
  "show_hook Prerouting_Raw = ''prerouting priority '' @ nft_priority_raw"
| "show_hook Prerouting_Mangle = ''prerouting priority '' @ nft_priority_mangle"
| "show_hook Postrouting_Mangle = ''postrouting priority '' @ nft_priority_mangle"

primrec show_chain :: "nft_chain \<Rightarrow> string" where
  "show_chain (Chain name h rules) = tab @ ''chain '' @ name @ '' {'' @ lf
     @ tab @ tab @ ''type filter hook '' @ show_hook h @ '';'' @ lf
     @ concat (map (\<lambda>r. tab @ tab @ show_rule r @ lf) rules) @ tab @ ''}'' @ lf"

primrec show_command :: "nft_command \<Rightarrow> string" where
  "show_command (Add_Table f) = ''add table '' @ show_family f @ '' '' @ nft_table @ lf"
| "show_command (Delete_Table f) = ''delete table '' @ show_family f @ '' '' @ nft_table @ lf"
| "show_command (Define_Table f cs) = ''table '' @ show_family f @ '' '' @ nft_table @ '' {'' @ lf
     @ concat (map show_chain cs) @ ''}'' @ lf"

lemma family_filter:
  "filter (\<lambda>a. family_of (im_address a) = Ip) as = filter (\<lambda>a. is_ipv6 (im_address a) = False) as"
  "filter (\<lambda>a. family_of (im_address a) = Ip6) as = filter (\<lambda>a. is_ipv6 (im_address a) = True) as"
proof -
  have "family_of x = Ip \<longleftrightarrow> is_ipv6 x = False" "family_of x = Ip6 \<longleftrightarrow> is_ipv6 x = True" for x
    by (cases x; simp)+
  then show "filter (\<lambda>a. family_of (im_address a) = Ip) as = filter (\<lambda>a. is_ipv6 (im_address a) = False) as"
    "filter (\<lambda>a. family_of (im_address a) = Ip6) as = filter (\<lambda>a. is_ipv6 (im_address a) = True) as"
    by simp_all
qed

lemma mark_chains_text:
  "concat (map show_chain (mark_chains fwmark)) =
   (case fwmark of
      None \<Rightarrow> []
    | Some m \<Rightarrow>
        (if m = 0 then []
         else tab @ ''chain premangle {'' @ lf
           @ tab @ tab @ ''type filter hook prerouting priority '' @ nft_priority_mangle @ '';'' @ lf
           @ tab @ tab @ ''meta l4proto udp meta mark set ct mark'' @ lf
           @ tab @ ''}'' @ lf
           @ tab @ ''chain postmangle {'' @ lf
           @ tab @ tab @ ''type filter hook postrouting priority '' @ nft_priority_mangle @ '';'' @ lf
           @ tab @ tab @ ''meta l4proto udp mark '' @ show_nat (unat m) @ '' ct mark set mark'' @ lf
           @ tab @ ''}'' @ lf))"
  by (simp add: mark_chains_def split: option.split)

lemma family_script_text:
  "family_script ifname as fwmark (show_family f, v6) =
     concat (map show_command (family_rules ifname as fwmark f))"
  if "filter (\<lambda>a. family_of (im_address a) = f) as = filter (\<lambda>a. is_ipv6 (im_address a) = v6) as"
  unfolding family_script_def family_rules_def that
  by (simp add: Let_def mark_chains_text o_def)

lemma nft_script_text: "nft_script ifname as fwmark = concat (map show_command (nft_rules ifname as fwmark))"
  using family_script_text [of Ip as False ifname fwmark, OF family_filter(1)]
    family_script_text [of Ip6 as True ifname fwmark, OF family_filter(2)]
  by (simp add: nft_script_def nft_rules_def)

subsection \<open>The meaning of a script\<close>

text \<open>
  The tables of the host by family and name. A script is one transaction: a command that
  fails leaves everything as it was. Adding a table that exists changes nothing, deleting
  one that does not is an error, and a definition adds its chains to what is there.
\<close>

type_synonym nft_tables = "family \<times> string \<Rightarrow> nft_chain list option"

primrec apply_command :: "nft_command \<Rightarrow> nft_tables \<Rightarrow> nft_tables option" where
  "apply_command (Add_Table f) t =
     Some (if t (f, nft_table) = None then t((f, nft_table) := Some []) else t)"
| "apply_command (Delete_Table f) t =
     (if t (f, nft_table) = None then None else Some (t((f, nft_table) := None)))"
| "apply_command (Define_Table f cs) t =
     Some (t((f, nft_table) := Some (case t (f, nft_table) of None \<Rightarrow> cs | Some ds \<Rightarrow> ds @ cs)))"

fun apply_script :: "nft_command list \<Rightarrow> nft_tables \<Rightarrow> nft_tables option" where
  "apply_script [] t = Some t"
| "apply_script (c # cs) t = Option.bind (apply_command c t) (apply_script cs)"

definition our_table ::
  "string \<Rightarrow> ip_addr_mask list \<Rightarrow> u32 option \<Rightarrow> family \<Rightarrow> nft_chain list option" where
  "our_table ifname addresses fwmark f =
     (let own = filter (\<lambda>a. family_of (im_address a) = f) addresses
      in if own = [] then None
         else Some (Chain ''preraw'' Prerouting_Raw (map (\<lambda>a. Drop_Spoofed ifname f (im_address a)) own)
                # mark_chains fwmark))"

lemma apply_script_append:
  "apply_script (cs @ ds) t = Option.bind (apply_script cs t) (apply_script ds)"
proof (induction cs arbitrary: t)
  case Nil
  then show ?case by simp
next
  case (Cons c cs)
  then show ?case by (cases "apply_command c t") simp_all
qed

lemma family_rules_apply:
  "apply_script (family_rules ifname as fwmark f) t =
   Some (t((f, nft_table) := our_table ifname as fwmark f))"
  by (auto simp: family_rules_def our_table_def Let_def fun_upd_idem_iff split: option.split)

lemma nft_rules_apply:
  "apply_script (nft_rules ifname as fwmark) t =
   Some (t((Ip, nft_table) := our_table ifname as fwmark Ip,
           (Ip6, nft_table) := our_table ifname as fwmark Ip6))"
  by (simp add: nft_rules_def apply_script_append family_rules_apply)

text \<open>
  A packet as the anti-spoofing rule sees it: the interface it came in on, where it goes,
  and whether its source is an address of the host.
\<close>

record nft_packet =
  pk_iifname :: string
  pk_daddr :: ip_addr
  pk_local_source :: bool

fun rule_drops :: "nft_packet \<Rightarrow> nft_rule \<Rightarrow> bool" where
  "rule_drops pk (Drop_Spoofed ifname f a) \<longleftrightarrow>
     pk_iifname pk \<noteq> ifname \<and> family_of (pk_daddr pk) = f \<and> pk_daddr pk = a \<and> \<not> pk_local_source pk"
| "rule_drops pk _ \<longleftrightarrow> False"

primrec chain_drops :: "nft_packet \<Rightarrow> nft_chain \<Rightarrow> bool" where
  "chain_drops pk (Chain name h rules) \<longleftrightarrow> h = Prerouting_Raw \<and> list_ex (rule_drops pk) rules"

definition our_tables_drop :: "nft_tables \<Rightarrow> nft_packet \<Rightarrow> bool" where
  "our_tables_drop t pk \<longleftrightarrow>
     list_ex (\<lambda>f. case t (f, nft_table) of None \<Rightarrow> False | Some cs \<Rightarrow> list_ex (chain_drops pk) cs) [Ip, Ip6]"

lemma mark_chains_drop_nothing: "\<not> list_ex (chain_drops pk) (mark_chains m)"
  by (simp add: mark_chains_def split: option.split)

lemma list_ex_map: "list_ex P (map g xs) = list_ex (P \<circ> g) xs"
  by (induction xs) simp_all

lemma our_table_drops:
  "(case our_table ifname as m f of None \<Rightarrow> False | Some cs \<Rightarrow> list_ex (chain_drops pk) cs) \<longleftrightarrow>
   pk_iifname pk \<noteq> ifname \<and> \<not> pk_local_source pk \<and> family_of (pk_daddr pk) = f
   \<and> pk_daddr pk \<in> im_address ` set as"
proof -
  let ?own = "filter (\<lambda>a. family_of (im_address a) = f) as"
  have "(case our_table ifname as m f of None \<Rightarrow> False | Some cs \<Rightarrow> list_ex (chain_drops pk) cs)
      \<longleftrightarrow> list_ex (\<lambda>a. rule_drops pk (Drop_Spoofed ifname f (im_address a))) ?own"
    by (cases "?own = []")
      (simp_all add: our_table_def Let_def mark_chains_drop_nothing list_ex_map o_def)
  also have "\<dots> \<longleftrightarrow> pk_iifname pk \<noteq> ifname \<and> \<not> pk_local_source pk \<and> family_of (pk_daddr pk) = f
   \<and> pk_daddr pk \<in> im_address ` set as"
    by (auto simp: list_ex_iff)
  finally show ?thesis .
qed

lemma our_tables_drop_iff:
  "our_tables_drop (t((Ip, nft_table) := our_table ifname as m Ip,
           (Ip6, nft_table) := our_table ifname as m Ip6)) pk \<longleftrightarrow>
   pk_iifname pk \<noteq> ifname \<and> \<not> pk_local_source pk \<and> pk_daddr pk \<in> im_address ` set as"
  using our_table_drops [where f = Ip and ifname = ifname and as = as and m = m and pk = pk]
    our_table_drops [where f = Ip6 and ifname = ifname and as = as and m = m and pk = pk]
  by (cases "pk_daddr pk") (simp_all add: our_tables_drop_def)

section \<open>Properties of the packet filter\<close>

text \<open>
  C12: the text \<open>nft_script\<close> builds is the rendering of a script that never fails, whatever
  tables the host has, and after which our tables drop exactly the packets that are
  addressed to one of the tunnel's addresses, came in on another interface and have no local
  source. No table with another name changes.
\<close>

theorem firewall_guards:
  "\<exists>cs t'. nft_script ifname addresses fwmark = concat (map show_command cs)
     \<and> apply_script cs t = Some t'
     \<and> {pk. our_tables_drop t' pk} = {pk. pk_iifname pk \<noteq> ifname \<and> \<not> pk_local_source pk
          \<and> pk_daddr pk \<in> im_address ` set addresses}
     \<and> {k. t' k \<noteq> t k} \<subseteq> {(Ip, nft_table), (Ip6, nft_table)}"
  by (intro exI conjI, rule nft_script_text, rule nft_rules_apply)
    (auto simp: our_tables_drop_iff)

text \<open>The marks that chains on a hook save, and whether they restore the mark of a connection.\<close>

definition saved_marks :: "hook \<Rightarrow> nft_chain list \<Rightarrow> u32 set" where
  "saved_marks h cs = {m. \<exists>n rules. Chain n h rules \<in> set cs \<and> Save_Mark m \<in> set rules}"

definition restores_marks :: "hook \<Rightarrow> nft_chain list \<Rightarrow> bool" where
  "restores_marks h cs \<longleftrightarrow> (\<exists>n rules. Chain n h rules \<in> set cs \<and> Restore_Mark \<in> set rules)"

lemma our_table_None:
  "our_table ifname as fwmark f = None \<longleftrightarrow> f \<notin> (family_of \<circ> im_address) ` set as"
  by (auto simp: our_table_def Let_def filter_empty_conv)

lemma our_table_marks:
  assumes "our_table ifname as fwmark f = Some cs"
  shows "saved_marks h cs = (if h = Postrouting_Mangle \<and> fwmark \<noteq> Some 0 then set_option fwmark else {})"
    and "restores_marks h cs \<longleftrightarrow> h = Prerouting_Mangle \<and> fwmark \<noteq> None \<and> fwmark \<noteq> Some 0"
proof -
  have cs: "cs = Chain ''preraw'' Prerouting_Raw (map (\<lambda>a. Drop_Spoofed ifname f (im_address a))
      (filter (\<lambda>a. family_of (im_address a) = f) as)) # mark_chains fwmark"
    using assms by (auto simp: our_table_def Let_def split: if_splits)
  show "saved_marks h cs = (if h = Postrouting_Mangle \<and> fwmark \<noteq> Some 0 then set_option fwmark else {})"
    unfolding cs by (cases h; cases fwmark) (auto simp: saved_marks_def mark_chains_def ex_disj_distrib conj_disj_distribR)
  show "restores_marks h cs \<longleftrightarrow> h = Prerouting_Mangle \<and> fwmark \<noteq> None \<and> fwmark \<noteq> Some 0"
    unfolding cs by (cases h; cases fwmark) (auto simp: restores_marks_def mark_chains_def ex_disj_distrib conj_disj_distribR)
qed

text \<open>
  C13: the text \<open>nft_script\<close> builds is the rendering of a replacement. Whatever tables a
  previous server had left, ours are afterwards the same: one per family that has an
  address and none for the other family. The connection-mark chains are there
  exactly if the mark is known and not zero: one on the way out saves that mark, one on
  the way in restores it. Without an address, as on a disconnect, the text just
  deletes both tables, after making sure that they exist.
\<close>

theorem firewall_replaces:
  "(\<exists>cs ours. nft_script ifname addresses fwmark = concat (map show_command cs)
     \<and> (\<forall>t. apply_script cs t = Some (\<lambda>(f, n). if n = nft_table then ours f else t (f, n)))
     \<and> (\<forall>f h. case ours f of
          None \<Rightarrow> f \<notin> (family_of \<circ> im_address) ` set addresses
        | Some ours_f \<Rightarrow> f \<in> (family_of \<circ> im_address) ` set addresses
            \<and> saved_marks h ours_f = (if h = Postrouting_Mangle \<and> fwmark \<noteq> Some 0 then set_option fwmark else {})
            \<and> (restores_marks h ours_f \<longleftrightarrow> h = Prerouting_Mangle \<and> fwmark \<noteq> None \<and> fwmark \<noteq> Some 0)))
   \<and> nft_script ifname [] fwmark
       = ''add table ip wirefinder'' @ lf @ ''delete table ip wirefinder'' @ lf
         @ ''add table ip6 wirefinder'' @ lf @ ''delete table ip6 wirefinder'' @ lf"
proof (intro conjI exI allI)
  show "nft_script ifname addresses fwmark = concat (map show_command (nft_rules ifname addresses fwmark))"
    by (rule nft_script_text)
  show "apply_script (nft_rules ifname addresses fwmark) t
      = Some (\<lambda>(f, n). if n = nft_table then our_table ifname addresses fwmark f else t (f, n))" for t
  proof -
    have "f = Ip \<or> f = Ip6" for f by (cases f) simp_all
    then show ?thesis unfolding nft_rules_apply by (auto simp: fun_eq_iff)
  qed
  show "case our_table ifname addresses fwmark f of
          None \<Rightarrow> f \<notin> (family_of \<circ> im_address) ` set addresses
        | Some ours_f \<Rightarrow> f \<in> (family_of \<circ> im_address) ` set addresses
            \<and> saved_marks h ours_f = (if h = Postrouting_Mangle \<and> fwmark \<noteq> Some 0 then set_option fwmark else {})
            \<and> (restores_marks h ours_f \<longleftrightarrow> h = Prerouting_Mangle \<and> fwmark \<noteq> None \<and> fwmark \<noteq> Some 0)" for f h
    using our_table_None [of ifname addresses fwmark f] our_table_marks [of ifname addresses fwmark f _ h]
    by (cases "our_table ifname addresses fwmark f") simp_all
  show "nft_script ifname [] fwmark
      = ''add table ip wirefinder'' @ lf @ ''delete table ip wirefinder'' @ lf
        @ ''add table ip6 wirefinder'' @ lf @ ''delete table ip6 wirefinder'' @ lf"
    by (simp add: nft_script_def family_script_def nft_table_def)
qed

end
