(* ===== verification/Kernel.thy ===== *)
theory Kernel
  imports Firewall
begin

section \<open>Switching and disconnecting (\<open>daemon/src/wireguard.rs\<close>)\<close>

text \<open>
  The two layers of the WireGuard boundary. \<open>wg_ops\<close> is the low-level trait \<open>WgOps\<close>: one
  operation of the kernel each, over a world of any type. \<open>wireguard\<close> is the high-level
  trait \<open>Wireguard\<close>; the \<open>kernel_\<close> functions implement it by orchestrating a \<open>wg_ops\<close>, as
  \<open>KernelWireguard\<close> does. The messages on standard error are left out.
\<close>

record live_peer =
  lp_public_key :: string
  lp_endpoint :: "string option"
  lp_allowed_ips :: "string list"
  lp_last_handshake :: "int option"
  lp_rx_bytes :: u64
  lp_tx_bytes :: u64

record live_interface =
  li_name :: string
  li_public_key :: "string option"
  li_listen_port :: u16
  li_peers :: "live_peer list"

record 'w wireguard =
  wg_disconnect :: "('w, unit) action"
  wg_switch :: "resolver \<Rightarrow> server_config \<Rightarrow> ('w, socket_addr) action"
  wg_status :: "('w, live_interface) action"

record ('k, 'w) wg_ops =
  op_create_interface :: "('w, unit) action"
  op_remove_interface :: "('w, unit) action"
  op_configure_interface :: "'k interface_configuration \<Rightarrow> ('w, unit) action"
  op_configure_peer_routing :: "'k peer list \<Rightarrow> ('w, unit) action"
  op_sync_split_routes :: "ip_addr_mask list \<Rightarrow> ('w, unit) action"
  op_apply_firewall :: "ip_addr_mask list \<Rightarrow> u32 option \<Rightarrow> ('w, unit) action"
  op_clear_firewall :: "('w, unit) action"
  op_configure_dns :: "ip_addr list \<Rightarrow> string list \<Rightarrow> ('w, unit) action"
  op_reset_dns :: "('w, unit) action"
  op_read_interface_data :: "('w, 'k host) action"

subsection \<open>\<open>KernelWireguard\<close>\<close>

definition bring_up_with ::
  "('k, 'w) wg_ops \<Rightarrow> 'k interface_configuration \<Rightarrow> ('w, unit) action" where
  "bring_up_with ops cfg =
     bindS (ignoreS (op_create_interface ops)) (\<lambda>_. op_configure_interface ops cfg)"

definition apply_dns :: "('k, 'w) wg_ops \<Rightarrow> ip_addr list \<Rightarrow> ('w, unit) action" where
  "apply_dns ops dns =
     (if dns = [] then ignoreS (op_reset_dns ops) else op_configure_dns ops dns [])"

definition kernel_disconnect :: "('k, 'w) wg_ops \<Rightarrow> ('w, unit) action" where
  "kernel_disconnect ops w =
     (case op_remove_interface ops w of (removed, w1) \<Rightarrow>
      case op_clear_firewall ops w1 of (_, w2) \<Rightarrow> (removed, w2))"

text \<open>Warm or cold, by whether the interface can be read.\<close>

definition reconfigure ::
  "'k defguard \<Rightarrow> ('k, 'w) wg_ops \<Rightarrow> server_config \<Rightarrow> 'k peer \<Rightarrow> ('w, unit) action" where
  "reconfigure dg ops server peer w =
     (case op_read_interface_data ops w of
        (Inr host, w1) \<Rightarrow>
          bindS (liftR (build_interface_config dg server [peer] (host_fwmark host)))
            (op_configure_interface ops) w1
      | (Inl _, w1) \<Rightarrow>
          bindS (liftR (build_interface_config dg server [peer] None)) (bring_up_with ops) w1)"

definition nonzero :: "u32 option \<Rightarrow> u32 option" where
  "nonzero m = (case m of None \<Rightarrow> None | Some v \<Rightarrow> if v = 0 then None else Some v)"

text \<open>The packet filter, with the mark the device has after routing.\<close>

definition guard_tunnel :: "('k, 'w) wg_ops \<Rightarrow> ip_addr_mask list \<Rightarrow> ('w, unit) action" where
  "guard_tunnel ops addresses w =
     (case op_read_interface_data ops w of (r, w1) \<Rightarrow>
        op_apply_firewall ops addresses (nonzero (Option.bind (ok r) host_fwmark)) w1)"

definition kernel_switch ::
  "'k defguard \<Rightarrow> ('k, 'w) wg_ops \<Rightarrow> resolver \<Rightarrow> server_config \<Rightarrow> ('w, socket_addr) action" where
  "kernel_switch dg ops resolve server =
     bindS (liftR (build_peer dg resolve server)) (\<lambda>peer.
     bindS (liftR (parse_dns server)) (\<lambda>dns.
     bindS (liftR (parse_addresses dg server)) (\<lambda>addresses.
     bindS (liftR (ok_or (peer_endpoint peer)
         (about_server server @ ''endpoint resolved to no addresses''))) (\<lambda>endpoint.
     bindS (reconfigure dg ops server peer) (\<lambda>_.
     bindS (op_configure_peer_routing ops [peer]) (\<lambda>_.
     bindS (op_sync_split_routes ops (split_route_prefixes dg peer)) (\<lambda>_.
     bindS (guard_tunnel ops addresses) (\<lambda>_.
     bindS (apply_dns ops dns) (\<lambda>_. retS endpoint)))))))))"

definition kernel_status :: "'k defguard \<Rightarrow> ('k, 'w) wg_ops \<Rightarrow> ('w, live_interface) action" where
  "kernel_status dg ops =
     bindS (op_read_interface_data ops) (\<lambda>host. retS
       \<lparr>li_name = interface_name,
        li_public_key = map_option (\<lambda>k. key_to_string dg (key_public_key dg k)) (host_private_key host),
        li_listen_port = host_listen_port host,
        li_peers = map (\<lambda>p.
          \<lparr>lp_public_key = key_to_string dg (peer_public_key p),
           lp_endpoint = map_option show_sock (peer_endpoint p),
           lp_allowed_ips = map (mask_to_string dg) (peer_allowed_ips p),
           lp_last_handshake = peer_last_handshake p,
           lp_rx_bytes = peer_rx_bytes p, lp_tx_bytes = peer_tx_bytes p\<rparr>) (host_peers host)\<rparr>)"

definition kernel_wireguard :: "'k defguard \<Rightarrow> ('k, 'w) wg_ops \<Rightarrow> 'w wireguard" where
  "kernel_wireguard dg ops =
     \<lparr>wg_disconnect = kernel_disconnect ops, wg_switch = kernel_switch dg ops,
      wg_status = kernel_status dg ops\<rparr>"

subsection \<open>\<open>KernelWgOps\<close>\<close>

text \<open>
  The real backend: each method opens the crate's API for the interface, which can fail, and
  delegates; the split routes, the firewall and the resolver reset are the functions above
  and in \<open>Resolvconf\<close>. The crate's calls are an argument.
\<close>

record ('k, 'w) wg_api =
  api_new :: "string \<Rightarrow> ('w, unit) action"
  api_create_interface :: "('w, unit) action"
  api_remove_interface :: "('w, unit) action"
  api_configure_interface :: "'k interface_configuration \<Rightarrow> ('w, unit) action"
  api_configure_peer_routing :: "'k peer list \<Rightarrow> ('w, unit) action"
  api_configure_dns :: "ip_addr list \<Rightarrow> string list \<Rightarrow> ('w, unit) action"
  api_read_interface_data :: "('w, 'k host) action"

definition with_api :: "('k, 'w) wg_api \<Rightarrow> string \<Rightarrow> ('w, 'a) action \<Rightarrow> ('w, 'a) action" where
  "with_api api ifname call = bindS (api_new api ifname) (\<lambda>_. call)"

definition kernel_wg_ops ::
  "'k defguard \<Rightarrow> (string \<Rightarrow> string option list result) \<Rightarrow> ('k, 'w) wg_api \<Rightarrow> 'w commands
     \<Rightarrow> (string \<Rightarrow> ('w, unit) action) \<Rightarrow> string \<Rightarrow> ('k, 'w) wg_ops" where
  "kernel_wg_ops dg dec api io reset_resolvconf ifname =
     \<lparr>op_create_interface = with_api api ifname (api_create_interface api),
      op_remove_interface = with_api api ifname (api_remove_interface api),
      op_configure_interface = (\<lambda>cfg. with_api api ifname (api_configure_interface api cfg)),
      op_configure_peer_routing = (\<lambda>peers. with_api api ifname (api_configure_peer_routing api peers)),
      op_sync_split_routes = sync_split_routes_via_ip dg dec io ifname,
      op_apply_firewall = (\<lambda>addresses fwmark. run_nft io (nft_script ifname addresses fwmark)),
      op_clear_firewall = run_nft io (nft_script ifname [] None),
      op_configure_dns = (\<lambda>dns search. with_api api ifname (api_configure_dns api dns search)),
      op_reset_dns = reset_resolvconf ifname,
      op_read_interface_data = with_api api ifname (api_read_interface_data api)\<rparr>"

subsection \<open>What every switch keeps\<close>

text \<open>
  If every operation but the two that tear down keeps a property of the world, then so does a
  whole switch, wherever it stops: it calls none of those two. The packet filter need only
  keep it for the addresses \<open>allowed\<close>, because a switch applies it to its server's own.
\<close>

locale filter_ops =
  fixes ops :: "('k, 'w) wg_ops" and P :: "'w \<Rightarrow> bool" and allowed :: "ip_addr_mask list \<Rightarrow> bool"
  assumes keeps_create: "keeps P (op_create_interface ops)"
    and keeps_configure: "keeps P (op_configure_interface ops cfg)"
    and keeps_routing: "keeps P (op_configure_peer_routing ops peers)"
    and keeps_routes: "keeps P (op_sync_split_routes ops ps)"
    and keeps_firewall: "allowed as \<Longrightarrow> keeps P (op_apply_firewall ops as m)"
    and keeps_dns: "keeps P (op_configure_dns ops ds search)"
    and keeps_reset: "keeps P (op_reset_dns ops)"
    and keeps_read: "keeps P (op_read_interface_data ops)"
begin

lemma keeps_bring_up: "keeps P (bring_up_with ops cfg)"
  unfolding bring_up_with_def by (intro keeps_bindS keeps_ignoreS keeps_create keeps_configure)

lemma keeps_reconfigure: "keeps P (reconfigure dg ops s peer)"
proof
  fix w
  assume "P w"
  then have r: "P (snd (op_read_interface_data ops w))" by (rule keepsD [OF keeps_read])
  show "P (snd (reconfigure dg ops s peer w))"
  proof (cases "op_read_interface_data ops w")
    case (Pair x w1)
    have "P w1" using r Pair by simp
    moreover have "keeps P (bindS (liftR c) (op_configure_interface ops))"
      "keeps P (bindS (liftR c) (bring_up_with ops))" for c
      by (intro keeps_bindS keeps_liftR keeps_configure keeps_bring_up)+
    ultimately show ?thesis
      by (cases x) (simp_all add: reconfigure_def Pair keepsD)
  qed
qed

lemma keeps_guard:
  assumes "allowed as"
  shows "keeps P (guard_tunnel ops as)"
proof
  fix w
  assume "P w"
  then have "P (snd (op_read_interface_data ops w))" by (rule keepsD [OF keeps_read])
  then show "P (snd (guard_tunnel ops as w))"
    by (auto simp: guard_tunnel_def split: prod.split intro: keepsD [OF keeps_firewall [OF assms]])
qed

lemma keeps_apply_dns: "keeps P (apply_dns ops ds)"
  unfolding apply_dns_def by (auto intro: keeps_ignoreS keeps_reset keeps_dns)

lemma keeps_allowed_switch:
  assumes "\<And>as. parse_addresses dg s = Inr as \<Longrightarrow> allowed as"
  shows "keeps P (kernel_switch dg ops r s)"
  unfolding kernel_switch_def
  by (intro keeps_bind_liftR keeps_bindS keeps_liftR keeps_retS keeps_reconfigure keeps_routing keeps_routes
      keeps_guard keeps_apply_dns assms)

lemma keeps_status: "keeps P (kernel_status dg ops)"
  unfolding kernel_status_def by (intro keeps_bindS keeps_retS keeps_read)

end

text \<open>
  The contract behind leak-safety: the property may be that the kill switch is installed, or
  that no teardown was ever called, whatever addresses are filtered.
\<close>

locale tunnel_ops =
  fixes ops :: "('k, 'w) wg_ops" and P :: "'w \<Rightarrow> bool"
  assumes keeps_create: "keeps P (op_create_interface ops)"
    and keeps_configure: "keeps P (op_configure_interface ops cfg)"
    and keeps_routing: "keeps P (op_configure_peer_routing ops peers)"
    and keeps_routes: "keeps P (op_sync_split_routes ops ps)"
    and keeps_firewall: "keeps P (op_apply_firewall ops as m)"
    and keeps_dns: "keeps P (op_configure_dns ops ds search)"
    and keeps_reset: "keeps P (op_reset_dns ops)"
    and keeps_read: "keeps P (op_read_interface_data ops)"

sublocale tunnel_ops \<subseteq> any_filter: filter_ops ops P "\<lambda>_. True"
  by unfold_locales (rule keeps_create keeps_configure keeps_routing keeps_routes keeps_firewall keeps_dns
      keeps_reset keeps_read)+

context tunnel_ops
begin

lemma keeps_switch: "keeps P (kernel_switch dg ops r s)"
  by (rule any_filter.keeps_allowed_switch) simp

lemma keeps_status: "keeps P (kernel_status dg ops)"
  by (rule any_filter.keeps_status)

end

subsection \<open>The calls a switch makes\<close>

datatype 'k kernel_call =
    Create_Interface
  | Remove_Interface
  | Configure_Interface "'k interface_configuration"
  | Configure_Peer_Routing "'k peer list"
  | Sync_Split_Routes "ip_addr_mask list"
  | Apply_Firewall "ip_addr_mask list" "u32 option"
  | Clear_Firewall
  | Configure_Dns "ip_addr list" "string list"
  | Reset_Dns
  | Read_Interface_Data

definition traced_op ::
  "'c \<Rightarrow> ('w, 'a) action \<Rightarrow> ('w \<times> 'c list, 'a) action" where
  "traced_op c m = (\<lambda>(w, l). case m w of (r, w') \<Rightarrow> (r, w', l @ [c]))"

text \<open>Any backend, with a log of the calls made on it.\<close>

definition traced :: "('k, 'w) wg_ops \<Rightarrow> ('k, 'w \<times> 'k kernel_call list) wg_ops" where
  "traced ops =
     \<lparr>op_create_interface = traced_op Create_Interface (op_create_interface ops),
      op_remove_interface = traced_op Remove_Interface (op_remove_interface ops),
      op_configure_interface =
        (\<lambda>cfg. traced_op (Configure_Interface cfg) (op_configure_interface ops cfg)),
      op_configure_peer_routing =
        (\<lambda>peers. traced_op (Configure_Peer_Routing peers) (op_configure_peer_routing ops peers)),
      op_sync_split_routes = (\<lambda>ps. traced_op (Sync_Split_Routes ps) (op_sync_split_routes ops ps)),
      op_apply_firewall = (\<lambda>as m. traced_op (Apply_Firewall as m) (op_apply_firewall ops as m)),
      op_clear_firewall = traced_op Clear_Firewall (op_clear_firewall ops),
      op_configure_dns = (\<lambda>ds search. traced_op (Configure_Dns ds search) (op_configure_dns ops ds search)),
      op_reset_dns = traced_op Reset_Dns (op_reset_dns ops),
      op_read_interface_data = traced_op Read_Interface_Data (op_read_interface_data ops)\<rparr>"

lemma traced_op_apply: "traced_op c m (w, l) = (fst (m w), snd (m w), l @ [c])"
  by (simp add: traced_op_def split: prod.split)

definition teardown_calls :: "'k kernel_call list \<Rightarrow> 'k kernel_call list" where
  "teardown_calls l = filter (\<lambda>c. c = Remove_Interface \<or> c = Clear_Firewall) l"

lemma keeps_traced_op:
  "c \<noteq> Remove_Interface \<Longrightarrow> c \<noteq> Clear_Firewall \<Longrightarrow>
   keeps (\<lambda>(w, l). teardown_calls l = ts) (traced_op c m)"
  by (auto simp: keeps_def traced_op_apply teardown_calls_def)

interpretation log: tunnel_ops "traced ops" "\<lambda>(w, l). teardown_calls l = ts"
  for ops :: "('k, 'w) wg_ops" and ts :: "'k kernel_call list"
  by unfold_locales (simp_all add: traced_def keeps_traced_op)

text \<open>What calls do to the world when they are made one after the other.\<close>

primrec perform :: "('k, 'w) wg_ops \<Rightarrow> 'k kernel_call \<Rightarrow> 'w \<Rightarrow> 'w" where
  "perform ops Create_Interface = (\<lambda>w. snd (op_create_interface ops w))"
| "perform ops Remove_Interface = (\<lambda>w. snd (op_remove_interface ops w))"
| "perform ops (Configure_Interface cfg) = (\<lambda>w. snd (op_configure_interface ops cfg w))"
| "perform ops (Configure_Peer_Routing peers) = (\<lambda>w. snd (op_configure_peer_routing ops peers w))"
| "perform ops (Sync_Split_Routes ps) = (\<lambda>w. snd (op_sync_split_routes ops ps w))"
| "perform ops (Apply_Firewall as m) = (\<lambda>w. snd (op_apply_firewall ops as m w))"
| "perform ops Clear_Firewall = (\<lambda>w. snd (op_clear_firewall ops w))"
| "perform ops (Configure_Dns ds search) = (\<lambda>w. snd (op_configure_dns ops ds search w))"
| "perform ops Reset_Dns = (\<lambda>w. snd (op_reset_dns ops w))"
| "perform ops Read_Interface_Data = (\<lambda>w. snd (op_read_interface_data ops w))"

definition performed :: "('k, 'w) wg_ops \<Rightarrow> 'k kernel_call list \<Rightarrow> 'w \<Rightarrow> 'w" where
  "performed ops cs w = fold (perform ops) cs w"

lemma performed_simps [simp]:
  "performed ops [] w = w" "performed ops (c # cs) w = performed ops cs (perform ops c w)"
  "performed ops (cs @ ds) w = performed ops ds (performed ops cs w)"
  by (simp_all add: performed_def)

text \<open>
  A call on the traced backend follows a plan, which may depend on the world it starts in: it
  makes the calls of the plan in order, all of them if it succeeds, and the first few of them if
  it fails, and does nothing else to the world.
\<close>

definition follows ::
  "('k, 'w) wg_ops \<Rightarrow> ('w \<times> 'k kernel_call list, 'a) action \<Rightarrow> ('w \<Rightarrow> 'k kernel_call list) \<Rightarrow> bool" where
  "follows ops m plan \<longleftrightarrow> (\<forall>w l. \<exists>r n. m (w, l) = (r, performed ops (take n (plan w)) w, l @ take n (plan w))
     \<and> (is_ok r \<longrightarrow> length (plan w) \<le> n))"

lemma followsI:
  assumes "\<And>w l. \<exists>r n. m (w, l) = (r, performed ops (take n (plan w)) w, l @ take n (plan w))
     \<and> (is_ok r \<longrightarrow> length (plan w) \<le> n)"
  shows "follows ops m plan"
  unfolding follows_def using assms by blast

lemma followsE:
  assumes "follows ops m plan"
  obtains r n where "m (w, l) = (r, performed ops (take n (plan w)) w, l @ take n (plan w))"
    "is_ok r \<longrightarrow> length (plan w) \<le> n"
  using assms unfolding follows_def by blast

lemma follows_traced_op:
  assumes "\<And>w. perform ops c w = snd (m w)"
  shows "follows ops (traced_op c m) (\<lambda>w. [c])"
proof (rule followsI)
  fix w l
  show "\<exists>r n. traced_op c m (w, l) = (r, performed ops (take n [c]) w, l @ take n [c])
      \<and> (is_ok r \<longrightarrow> length [c] \<le> n)"
    by (intro exI [of _ "fst (m w)"] exI [of _ 1]) (simp add: traced_op_apply assms)
qed

lemma follows_ignored:
  assumes "\<And>w. perform ops c w = snd (m w)"
  shows "follows ops (ignoreS (traced_op c m)) (\<lambda>w. [c])"
proof (rule followsI)
  fix w l
  show "\<exists>r n. ignoreS (traced_op c m) (w, l) = (r, performed ops (take n [c]) w, l @ take n [c])
      \<and> (is_ok r \<longrightarrow> length [c] \<le> n)"
    by (intro exI [of _ "Inr ()"] exI [of _ 1]) (simp add: traced_op_apply assms)
qed

lemma follows_bindS:
  assumes "follows ops m p" and "\<And>x. follows ops (f x) q"
  shows "follows ops (bindS m f) (\<lambda>w. p w @ q (performed ops (p w) w))"
proof (rule followsI)
  fix w l
  let ?q = "q (performed ops (p w) w)"
  obtain r n where m: "m (w, l) = (r, performed ops (take n (p w)) w, l @ take n (p w))"
    "is_ok r \<longrightarrow> length (p w) \<le> n" by (rule followsE [OF assms(1)])
  show "\<exists>r n. bindS m f (w, l) = (r, performed ops (take n (p w @ ?q)) w, l @ take n (p w @ ?q))
      \<and> (is_ok r \<longrightarrow> length (p w @ ?q) \<le> n)"
  proof (cases r)
    case (Inl e)
    with m(1) show ?thesis
      by (intro exI [of _ "Inl e"] exI [of _ "min n (length (p w))"]) (simp add: bindS_def min_def)
  next
    case (Inr x)
    with m have "m (w, l) = (Inr x, performed ops (p w) w, l @ p w)" by simp
    moreover obtain r' n' where "f x (performed ops (p w) w, l @ p w)
        = (r', performed ops (take n' ?q) (performed ops (p w) w), (l @ p w) @ take n' ?q)"
      "is_ok r' \<longrightarrow> length ?q \<le> n'" by (rule followsE [OF assms(2)])
    ultimately show ?thesis
      by (intro exI [of _ r'] exI [of _ "length (p w) + n'"]) (simp add: bindS_def)
  qed
qed

lemma follows_retS: "follows ops (retS x) (\<lambda>w. [])"
  by (rule followsI) simp

lemma traced_fields [simp]:
  "op_create_interface (traced ops) = traced_op Create_Interface (op_create_interface ops)"
  "op_remove_interface (traced ops) = traced_op Remove_Interface (op_remove_interface ops)"
  "op_configure_interface (traced ops) cfg = traced_op (Configure_Interface cfg) (op_configure_interface ops cfg)"
  "op_configure_peer_routing (traced ops) peers =
     traced_op (Configure_Peer_Routing peers) (op_configure_peer_routing ops peers)"
  "op_sync_split_routes (traced ops) ps = traced_op (Sync_Split_Routes ps) (op_sync_split_routes ops ps)"
  "op_apply_firewall (traced ops) as m = traced_op (Apply_Firewall as m) (op_apply_firewall ops as m)"
  "op_clear_firewall (traced ops) = traced_op Clear_Firewall (op_clear_firewall ops)"
  "op_configure_dns (traced ops) ds search =
     traced_op (Configure_Dns ds search) (op_configure_dns ops ds search)"
  "op_reset_dns (traced ops) = traced_op Reset_Dns (op_reset_dns ops)"
  "op_read_interface_data (traced ops) = traced_op Read_Interface_Data (op_read_interface_data ops)"
  by (simp_all add: traced_def)

subsection \<open>The plan of a switch\<close>

definition tunnel_config ::
  "server_config \<Rightarrow> 'k peer \<Rightarrow> ip_addr_mask list \<Rightarrow> u32 option \<Rightarrow> 'k interface_configuration" where
  "tunnel_config s peer as fwmark =
     \<lparr>ic_name = interface_name, ic_prvkey = trim (sc_private_key s), ic_addresses = as,
      ic_port = sc_listen_port s, ic_peers = [peer], ic_mtu = sc_mtu s, ic_fwmark = fwmark\<rparr>"

definition configure_plan ::
  "server_config \<Rightarrow> 'k peer \<Rightarrow> ip_addr_mask list \<Rightarrow> 'k host result \<Rightarrow> 'k kernel_call list" where
  "configure_plan s peer as live =
     Read_Interface_Data #
     (case live of
        Inr host \<Rightarrow> [Configure_Interface (tunnel_config s peer as (host_fwmark host))]
      | Inl e \<Rightarrow> [Create_Interface, Configure_Interface (tunnel_config s peer as None)])"

text \<open>The mark a device has: none if it cannot be read, and zero is no mark.\<close>

definition device_mark :: "('k, 'w) wg_ops \<Rightarrow> 'w \<Rightarrow> u32 option" where
  "device_mark ops w =
     (case fst (op_read_interface_data ops w) of
        Inl e \<Rightarrow> None
      | Inr host \<Rightarrow> (if host_fwmark host = Some 0 then None else host_fwmark host))"

text \<open>
  All calls of a switch: up to the split routes, and then the second reading, the packet filter
  with the mark the device has after the calls before, and the resolver.
\<close>

definition switch_plan ::
  "('k, 'w) wg_ops \<Rightarrow> server_config \<Rightarrow> 'k peer \<Rightarrow> ip_addr_mask list \<Rightarrow> ip_addr_mask list \<Rightarrow> ip_addr list
     \<Rightarrow> 'w \<Rightarrow> 'k kernel_call list" where
  "switch_plan ops s peer as routes dns w =
     (let before = configure_plan s peer as (fst (op_read_interface_data ops w))
            @ [Configure_Peer_Routing [peer], Sync_Split_Routes routes]
      in before
         @ [Read_Interface_Data, Apply_Firewall as (device_mark ops (performed ops before w)),
            (if dns = [] then Reset_Dns else Configure_Dns dns [])])"

lemma build_interface_config_eq:
  "parse_addresses dg s = Inr as \<Longrightarrow>
   build_interface_config dg s [peer] fwmark =
     (case check_private_key dg s of Inl e \<Rightarrow> Inl e | Inr k \<Rightarrow> Inr (tunnel_config s peer as fwmark))"
  by (simp add: build_interface_config_def tunnel_config_def split: sum.split)

lemma reconfigure_follows:
  assumes as: "parse_addresses dg s = Inr as" and "is_ok (check_private_key dg s)"
  shows "follows ops (reconfigure dg (traced ops) s peer)
    (\<lambda>w. configure_plan s peer as (fst (op_read_interface_data ops w)))"
proof (rule followsI)
  fix w l
  obtain k where k: "check_private_key dg s = Inr k" using assms(2) by (auto elim: is_okE)
  obtain live w1 where read: "op_read_interface_data ops w = (live, w1)"
    by (cases "op_read_interface_data ops w")
  show "\<exists>r n. reconfigure dg (traced ops) s peer (w, l) =
      (r, performed ops (take n (configure_plan s peer as (fst (op_read_interface_data ops w)))) w,
       l @ take n (configure_plan s peer as (fst (op_read_interface_data ops w))))
    \<and> (is_ok r \<longrightarrow> length (configure_plan s peer as (fst (op_read_interface_data ops w))) \<le> n)"
  proof (cases live)
    case (Inr host)
    then show ?thesis
      by (intro exI [of _ "fst (op_configure_interface ops (tunnel_config s peer as (host_fwmark host)) w1)"] exI [of _ 2])
        (simp add: reconfigure_def traced_op_apply read configure_plan_def k build_interface_config_eq [OF as])
  next
    case (Inl e)
    let ?w = "snd (op_create_interface ops w1)"
    from Inl show ?thesis
      by (intro exI [of _ "fst (op_configure_interface ops (tunnel_config s peer as None) ?w)"] exI [of _ 3])
        (simp add: reconfigure_def traced_op_apply read configure_plan_def bring_up_with_def k
          build_interface_config_eq [OF as])
  qed
qed

lemma reconfigure_keyless:
  assumes "parse_addresses dg s = Inr as" "\<not> is_ok (check_private_key dg s)"
  shows "\<exists>e w'. reconfigure dg (traced ops) s peer (w, l) = (Inl e, w', l @ [Read_Interface_Data])"
  using assms(2)
  by (cases "op_read_interface_data ops w"; cases "fst (op_read_interface_data ops w)"; cases "check_private_key dg s")
    (simp_all add: reconfigure_def traced_op_apply build_interface_config_eq [OF assms(1)])

lemma guard_follows:
  "follows ops (guard_tunnel (traced ops) as) (\<lambda>w. [Read_Interface_Data, Apply_Firewall as (device_mark ops w)])"
proof (rule followsI)
  fix w l
  obtain r w1 where read: "op_read_interface_data ops w = (r, w1)"
    by (cases "op_read_interface_data ops w")
  have "device_mark ops w = nonzero (Option.bind (ok r) host_fwmark)"
    by (cases r) (auto simp: device_mark_def read nonzero_def split: option.split)
  then show "\<exists>r n. guard_tunnel (traced ops) as (w, l) =
      (r, performed ops (take n [Read_Interface_Data, Apply_Firewall as (device_mark ops w)]) w,
       l @ take n [Read_Interface_Data, Apply_Firewall as (device_mark ops w)])
    \<and> (is_ok r \<longrightarrow> length [Read_Interface_Data, Apply_Firewall as (device_mark ops w)] \<le> n)"
    by (intro exI [of _ "fst (op_apply_firewall ops as (device_mark ops w) w1)"] exI [of _ 2])
      (simp add: guard_tunnel_def traced_op_apply read)
qed

lemma apply_dns_follows:
  "follows ops (apply_dns (traced ops) ds) (\<lambda>w. [if ds = [] then Reset_Dns else Configure_Dns ds []])"
proof (cases "ds = []")
  case True
  then show ?thesis
    using follows_ignored [of ops Reset_Dns "op_reset_dns ops"] by (simp add: apply_dns_def)
next
  case False
  then show ?thesis
    using follows_traced_op [of ops "Configure_Dns ds []" "op_configure_dns ops ds []"] by (simp add: apply_dns_def)
qed

lemma switch_follows:
  assumes p: "build_peer dg r s = Inr peer" and d: "parse_dns s = Inr dns"
    and a: "parse_addresses dg s = Inr as" and k: "is_ok (check_private_key dg s)"
  shows "follows ops (kernel_switch dg (traced ops) r s)
    (switch_plan ops s peer as (split_route_prefixes dg peer) dns)"
proof -
  from build_peer_endpoint [OF p] obtain ep where ep: "peer_endpoint peer = Some ep" by blast
  have sw: "kernel_switch dg (traced ops) r s =
      bindS (reconfigure dg (traced ops) s peer) (\<lambda>_.
      bindS (op_configure_peer_routing (traced ops) [peer]) (\<lambda>_.
      bindS (op_sync_split_routes (traced ops) (split_route_prefixes dg peer)) (\<lambda>_.
      bindS (guard_tunnel (traced ops) as) (\<lambda>_.
      bindS (apply_dns (traced ops) dns) (\<lambda>_. retS ep)))))"
    by (simp add: kernel_switch_def p d a ep fun_eq_iff)
  have "follows ops (op_configure_peer_routing (traced ops) [peer]) (\<lambda>w. [Configure_Peer_Routing [peer]])"
    "follows ops (op_sync_split_routes (traced ops) (split_route_prefixes dg peer))
       (\<lambda>w. [Sync_Split_Routes (split_route_prefixes dg peer)])"
    by (simp_all add: follows_traced_op)
  note calls = reconfigure_follows [OF a k, of ops peer] this guard_follows [of ops as] apply_dns_follows [of ops dns]
  have "follows ops (kernel_switch dg (traced ops) r s) (\<lambda>w.
      configure_plan s peer as (fst (op_read_interface_data ops w)) @
      (\<lambda>w. (\<lambda>w. [Configure_Peer_Routing [peer]]) w @
        (\<lambda>w. (\<lambda>w. [Sync_Split_Routes (split_route_prefixes dg peer)]) w @
          (\<lambda>w. (\<lambda>w. [Read_Interface_Data, Apply_Firewall as (device_mark ops w)]) w @
            (\<lambda>w. (\<lambda>w. [if dns = [] then Reset_Dns else Configure_Dns dns []]) w @ (\<lambda>w. [])
              (performed ops [if dns = [] then Reset_Dns else Configure_Dns dns []] w))
            (performed ops [Read_Interface_Data, Apply_Firewall as (device_mark ops w)] w))
          (performed ops [Sync_Split_Routes (split_route_prefixes dg peer)] w))
        (performed ops [Configure_Peer_Routing [peer]] w))
      (performed ops (configure_plan s peer as (fst (op_read_interface_data ops w))) w))"
    unfolding sw by (intro follows_bindS calls follows_retS)
  then show ?thesis by (simp add: switch_plan_def [abs_def] Let_def)
qed

lemma switch_keyless:
  assumes "build_peer dg r s = Inr peer" "parse_dns s = Inr dns" "parse_addresses dg s = Inr as"
    and "\<not> is_ok (check_private_key dg s)"
  shows "\<exists>e w'. kernel_switch dg (traced ops) r s (w, l) = (Inl e, w', l @ [Read_Interface_Data])"
proof -
  from build_peer_endpoint [OF assms(1)] obtain ep where "peer_endpoint peer = Some ep" by blast
  moreover obtain e w' where "reconfigure dg (traced ops) s peer (w, l) = (Inl e, w', l @ [Read_Interface_Data])"
    using reconfigure_keyless [OF assms(3,4), of ops peer w l] by blast
  ultimately show ?thesis by (simp add: kernel_switch_def assms(1-3) bindS_def)
qed

subsection \<open>The recording backend of the tests\<close>

text \<open>
  \<open>RecordingWg\<close>, on which the repository tests the order of the calls: it records the fields
  that matter as text and replays scripted reads, the last of them forever.
\<close>

datatype rec_call =
    RecCreateInterface
  | RecRemoveInterface
  | RecConfigureInterface string "string list" u16 "u32 option" "string list" "u32 option"
  | RecConfigurePeerRouting "string list"
  | RecSyncSplitRoutes "string list"
  | RecApplyFirewall "string list" "u32 option"
  | RecClearFirewall
  | RecConfigureDns "string list"
  | RecResetDns
  | RecReadInterfaceData

record 'k recording =
  rec_calls :: "rec_call list"
  rec_reads :: "'k host result list"
  rec_reset_dns_err :: bool

definition push_call :: "rec_call \<Rightarrow> 'k recording \<Rightarrow> 'k recording" where
  "push_call c w = w\<lparr>rec_calls := rec_calls w @ [c]\<rparr>"

definition scripted_read :: "('k recording, 'k host) action" where
  "scripted_read w =
     (let w1 = push_call RecReadInterfaceData w
      in case rec_reads w1 of
           [] \<Rightarrow> (Inl ''no scripted read'', w1)
         | [r] \<Rightarrow> (r, w1)
         | r # rs \<Rightarrow> (r, w1\<lparr>rec_reads := rs\<rparr>))"

definition recording_wg :: "'k defguard \<Rightarrow> ('k, 'k recording) wg_ops" where
  "recording_wg dg =
     \<lparr>op_create_interface = (\<lambda>w. (Inr (), push_call RecCreateInterface w)),
      op_remove_interface = (\<lambda>w. (Inr (), push_call RecRemoveInterface w)),
      op_configure_interface = (\<lambda>cfg w. (Inr (), push_call (RecConfigureInterface (ic_prvkey cfg)
        (map (mask_to_string dg) (ic_addresses cfg)) (ic_port cfg) (ic_mtu cfg)
        (map (key_to_string dg \<circ> peer_public_key) (ic_peers cfg)) (ic_fwmark cfg)) w)),
      op_configure_peer_routing = (\<lambda>peers w.
        (Inr (), push_call (RecConfigurePeerRouting (map (key_to_string dg \<circ> peer_public_key) peers)) w)),
      op_sync_split_routes = (\<lambda>ps w. (Inr (), push_call (RecSyncSplitRoutes (map (mask_to_string dg) ps)) w)),
      op_apply_firewall = (\<lambda>as m w. (Inr (), push_call (RecApplyFirewall (map (mask_to_string dg) as) m) w)),
      op_clear_firewall = (\<lambda>w. (Inr (), push_call RecClearFirewall w)),
      op_configure_dns = (\<lambda>ds search w. (Inr (), push_call (RecConfigureDns (map show_ip ds)) w)),
      op_reset_dns = (\<lambda>w. (if rec_reset_dns_err w then Inl ''resolvconf -d failed'' else Inr (),
        push_call RecResetDns w)),
      op_read_interface_data = scripted_read\<rparr>"

definition recorded_teardown :: "'k recording \<Rightarrow> rec_call list" where
  "recorded_teardown w = filter (\<lambda>c. c = RecRemoveInterface \<or> c = RecClearFirewall) (rec_calls w)"

lemma recorded_teardown_push:
  "recorded_teardown (push_call c w) =
   recorded_teardown w @ (if c = RecRemoveInterface \<or> c = RecClearFirewall then [c] else [])"
  by (simp add: recorded_teardown_def push_call_def)

interpretation recording: tunnel_ops "recording_wg dg" "\<lambda>w. recorded_teardown w = ts"
  for dg :: "'k defguard" and ts :: "rec_call list"
proof (unfold_locales, goal_cases)
  case 8
  have "recorded_teardown (snd (scripted_read w)) = recorded_teardown w" for w :: "'k recording"
    by (auto simp: scripted_read_def Let_def recorded_teardown_def push_call_def split: list.split)
  then show ?case by (simp add: keeps_def recording_wg_def)
qed (simp_all add: keeps_def recording_wg_def recorded_teardown_push)

text \<open>The filters a switch records are its own server's.\<close>

definition recorded_filters :: "'k recording \<Rightarrow> string list set" where
  "recorded_filters w = {as. \<exists>m. RecApplyFirewall as m \<in> set (rec_calls w)}"

lemma recorded_filters_push:
  "recorded_filters (push_call c w)
   = (case c of RecApplyFirewall as m \<Rightarrow> insert as (recorded_filters w) | _ \<Rightarrow> recorded_filters w)"
  by (auto simp: recorded_filters_def push_call_def split: rec_call.split)

interpretation recorded: filter_ops "recording_wg dg" "\<lambda>w. recorded_filters w \<subseteq> X"
  "\<lambda>as. map (mask_to_string dg) as \<in> X"
  for dg :: "'k defguard" and X :: "string list set"
proof (unfold_locales, goal_cases)
  case 8
  have "recorded_filters (snd (scripted_read w)) = recorded_filters w" for w :: "'k recording"
    by (auto simp: scripted_read_def Let_def recorded_filters_def push_call_def split: list.split)
  then show ?case by (simp add: keeps_def recording_wg_def)
qed (simp_all add: keeps_def recording_wg_def recorded_filters_push)

lemma recorded_switch_filters:
  assumes "parse_addresses dg s = Inr as"
  shows "recorded_filters (snd (kernel_switch dg (recording_wg dg) r s w))
    \<subseteq> insert (map (mask_to_string dg) as) (recorded_filters w)"
  using keepsD [OF recorded.keeps_allowed_switch
      [where X = "insert (map (mask_to_string dg) as) (recorded_filters w)" and r = r and s = s and dg = dg]] assms
  by auto

subsection \<open>When a switch succeeds\<close>

text \<open>
  The operations whose failure ends a switch; creating the interface, resetting the resolver
  and reading the interface may fail.
\<close>

definition ops_succeed :: "('k, 'w) wg_ops \<Rightarrow> bool" where
  "ops_succeed ops \<longleftrightarrow>
     (\<forall>w cfg. is_ok (fst (op_configure_interface ops cfg w)))
     \<and> (\<forall>w ps. is_ok (fst (op_configure_peer_routing ops ps w)))
     \<and> (\<forall>w ps. is_ok (fst (op_sync_split_routes ops ps w)))
     \<and> (\<forall>w as m. is_ok (fst (op_apply_firewall ops as m w)))
     \<and> (\<forall>w ds search. is_ok (fst (op_configure_dns ops ds search w)))"

lemma bindS_ok:
  assumes "is_ok (fst (m w))" "\<And>x w1. is_ok (fst (f x w1))"
  shows "is_ok (fst (bindS m f w))"
  using assms by (cases "m w"; cases "fst (m w)") (simp_all add: bindS_def)

lemma reconfigure_ok:
  assumes "ops_succeed ops" "is_ok (check_private_key dg s)" "parse_addresses dg s = Inr as"
  shows "is_ok (fst (reconfigure dg ops s peer w))"
  using assms
  by (auto simp: reconfigure_def build_interface_config_eq ops_succeed_def bring_up_with_def
      is_ok_iff [of "check_private_key dg s"] split: prod.split sum.split)

lemma guard_ok: "ops_succeed ops \<Longrightarrow> is_ok (fst (guard_tunnel ops as w))"
  by (simp add: guard_tunnel_def ops_succeed_def split: prod.split)

lemma apply_dns_ok: "ops_succeed ops \<Longrightarrow> is_ok (fst (apply_dns ops ds w))"
  by (simp add: apply_dns_def ops_succeed_def)

lemma kernel_switch_ok:
  assumes "ops_succeed ops" "well_formed dg s" "endpoint_addr r s = Inr a"
  shows "\<exists>w'. kernel_switch dg ops r s w = (Inr a, w')"
proof -
  have ok: "is_ok (check_private_key dg s)" "is_ok (parse_dns s)" "is_ok (parse_addresses dg s)"
    "is_ok (build_peer dg r s)"
    using assms(2,3)
    by (simp_all add: well_formed_def build_peer_ok parse_dns_ok parse_addresses_ok check_private_key_ok)
  then obtain d as p where p: "parse_dns s = Inr d" "parse_addresses dg s = Inr as"
    "build_peer dg r s = Inr p" by (auto elim!: is_okE)
  have e: "peer_endpoint p = Some a" using build_peer_endpoint [OF p(3)] assms(3) by auto
  let ?rest = "bindS (reconfigure dg ops s p) (\<lambda>_. bindS (op_configure_peer_routing ops [p]) (\<lambda>_.
     bindS (op_sync_split_routes ops (split_route_prefixes dg p)) (\<lambda>_.
     bindS (guard_tunnel ops as) (\<lambda>_. bindS (apply_dns ops d) (\<lambda>_. retS a))))) w"
  have "kernel_switch dg ops r s w = ?rest" by (simp add: kernel_switch_def p e)
  moreover have "is_ok (fst ?rest)"
    using assms(1) ok(1) p(2)
    by (intro bindS_ok reconfigure_ok guard_ok apply_dns_ok) (simp_all add: ops_succeed_def)
  moreover have "fst ?rest = Inr x \<Longrightarrow> x = a" for x
    by (cases ?rest) (auto simp: bindS_eq_Inr)
  ultimately show ?thesis by (cases ?rest) (auto elim: is_okE)
qed

lemma kernel_switch_Inr:
  assumes "kernel_switch dg ops r s w = (Inr a, w')"
  shows "well_formed dg s \<and> endpoint_addr r s = Inr a"
proof -
  from assms obtain p d as w1 where p: "build_peer dg r s = Inr p" "parse_dns s = Inr d"
    "parse_addresses dg s = Inr as" and rest: "peer_endpoint p = Some a"
    and re: "reconfigure dg ops s p w = (Inr (), w1)"
    by (auto simp: kernel_switch_def bindS_eq_Inr)
  from re p(3) have "is_ok (check_private_key dg s)"
    by (auto simp: reconfigure_def build_interface_config_eq bindS_eq_Inr
        split: prod.splits sum.splits)
  moreover have "is_ok (build_peer dg r s)" "is_ok (parse_dns s)" "is_ok (parse_addresses dg s)"
    by (simp_all add: p)
  ultimately have "well_formed dg s"
    unfolding well_formed_def build_peer_ok parse_dns_ok parse_addresses_ok check_private_key_ok
    by blast
  then show ?thesis using build_peer_endpoint [OF p(1)] rest by auto
qed

section \<open>Properties of validation and switching\<close>

text \<open>The fixture of the repository's tests, with keys of the sample crate.\<close>

definition edge_server :: server_config where
  "edge_server =
     \<lparr>sc_name = ''edge'', sc_private_key = ''7'', sc_public_key = ''42'',
      sc_endpoint = ''198.51.100.10:51820'', sc_resolved_endpoint = None,
      sc_addresses = [''10.0.0.2/24''], sc_allowed_ips = [''0.0.0.0/0''],
      sc_listen_port = 51820, sc_mtu = None, sc_keepalive = Some 25,
      sc_preshared_key = None, sc_dns = []\<rparr>"

definition no_resolver :: resolver where
  "no_resolver e = Timed_Out"

lemma edge_trims:
  "trim ''7'' = ''7''" "trim ''42'' = ''42''" "trim ''10.0.0.2/24'' = ''10.0.0.2/24''"
  "trim ''0.0.0.0/0'' = ''0.0.0.0/0''" "trim ''198.51.100.10:51820'' = ''198.51.100.10:51820''"
  "trim ''garbage'' = ''garbage''"
  by (rule trim_graphic, simp add: graphic_def)+

lemma edge_well_formed: "well_formed sample_dg edge_server"
  by (simp add: well_formed_def edge_server_def edge_trims sample_dg_def sample_key_parse_def
      sample_mask_from_str_def parse_unsigned_def parser_evals)

lemma edge_endpoint:
  "endpoint_addr r edge_server = Inr (SockV4 0xC633640A 51820)"
  by (rule endpoint_addr_literal) (simp add: edge_server_def edge_trims parser_evals)

definition edge_recording :: "sample_key recording" where
  "edge_recording = \<lparr>rec_calls = [], rec_reads = [Inl ''interface down''], rec_reset_dns_err = False\<rparr>"

lemma recording_succeeds: "ops_succeed (recording_wg dg)"
  by (simp add: ops_succeed_def recording_wg_def)

text \<open>
  C21: validation accepts a server exactly if both keys and the preshared key parse, every
  address, allowed IP and DNS server is well-formed, there is at least one address, and the
  endpoint has an address; it then returns that address. The message about an endpoint
  without addresses at its end can never come from there.
\<close>

theorem validate_server_exact:
  "(validate_server dg r s = Inr a \<longleftrightarrow> well_formed dg s \<and> endpoint_addr r s = Inr a)
   \<and> (is_ok (build_peer dg r s) \<longleftrightarrow>
      (\<exists>p. build_peer dg r s = Inr p \<and> peer_endpoint p \<noteq> None))"
  using validate_server_Inr build_peer_endpoint [of dg r s] by (fastforce simp: is_ok_iff)

text \<open>
  C1: leak-safety. On any backend, from any state of the kernel and for any server, valid or
  not, a switch calls neither \<open>remove_interface\<close> nor \<open>clear_firewall\<close>, even when it fails
  half-way: the kill switch and the packet filter are never taken down by it.
\<close>

theorem switch_never_tears_down:
  "teardown_calls (snd (snd (kernel_switch dg (traced ops) r s (w, l)))) = teardown_calls l"
  using keepsD [OF log.keeps_switch [where ts = "teardown_calls l" and ops = ops], of "(w, l)" dg r s]
  by (simp add: split_beta)

text \<open>
  The split routes of prefixes: of each the one that covers the same addresses, with the same
  length and no host bits, which there is exactly one of.
\<close>

definition routes_of :: "ip_addr_mask list \<Rightarrow> ip_addr_mask list \<Rightarrow> bool" where
  "routes_of = list_all2 (\<lambda>p q. im_cidr q = im_cidr p \<and> (\<forall>x. covers q x \<longleftrightarrow> covers p x)
     \<and> (case (im_address q, netmask q) of
          (V4 n, V4 m) \<Rightarrow> n AND m = n | (V6 n, V6 m) \<Rightarrow> n AND m = n | _ \<Rightarrow> False))"

lemma split_routes_of:
  assumes "mask_ok dg"
  shows "routes_of (filter (\<lambda>p. \<not> is_unspecified (im_address p)) (peer_allowed_ips peer)) (split_route_prefixes dg peer)"
proof -
  have "case (im_address (network_prefix dg p), netmask (network_prefix dg p)) of
      (V4 n, V4 m) \<Rightarrow> n AND m = n | (V6 n, V6 m) \<Rightarrow> n AND m = n | _ \<Rightarrow> False" for p
    using assms
    by (cases "im_address p") (simp_all add: network_prefix_def mask_ok_def netmask_def Let_def mask_idem)
  then show ?thesis
    by (simp add: routes_of_def split_route_prefixes_def list.rel_map network_prefix_covers [OF assms] list.rel_refl)
qed

text \<open>
  C10: the calls of a switch with valid input, in their order, and with their arguments. The
  interface is read; if that succeeds it is reconfigured in place with the mark it has,
  otherwise it is created and configured without a mark. Then come routing, the split routes of
  the allowed IPs that are no default routes, a second reading, the packet filter with the mark the device has at
  that moment, where zero is none, and the resolver. A switch that succeeds made all of these
  calls and returns the endpoint; one that fails made the first few of them. Neither did anything
  else to the world.
\<close>

theorem switch_calls:
  assumes "well_formed dg s" and "endpoint_addr r s = Inr a" and "mask_ok dg"
  shows "\<exists>key ms psk peer as routes dns res n.
     key_from_str dg (trim (sc_public_key s)) = Inr key
     \<and> map Inr ms = map (\<lambda>t. mask_from_str dg (trim t)) (sc_allowed_ips s)
     \<and> map_option Inr psk = map_option (\<lambda>t. key_from_str dg (trim t)) (sc_preshared_key s)
     \<and> peer = (peer_new dg key)\<lparr>peer_endpoint := Some a, peer_allowed_ips := peer_allowed_ips (peer_new dg key) @ ms,
         peer_keepalive := sc_keepalive s, peer_preshared_key := psk\<rparr>
     \<and> map Inr as = map (\<lambda>t. mask_from_str dg (trim t)) (sc_addresses s)
     \<and> map Some dns = map (\<lambda>t. parse_ip (trim t)) (sc_dns s)
     \<and> routes_of (filter (\<lambda>p. \<not> is_unspecified (im_address p)) (peer_allowed_ips peer)) routes
     \<and> kernel_switch dg (traced ops) r s (w, l) =
         (res, performed ops (take n (switch_plan ops s peer as routes dns w)) w,
          l @ take n (switch_plan ops s peer as routes dns w))
     \<and> (res = Inr a \<and> length (switch_plan ops s peer as routes dns w) \<le> n \<or> \<not> is_ok res)"
proof -
  have k: "is_ok (check_private_key dg s)" and "is_ok (parse_dns s)" "is_ok (parse_addresses dg s)" "is_ok (build_peer dg r s)"
    using assms by (simp_all add: well_formed_def build_peer_ok parse_dns_ok parse_addresses_ok check_private_key_ok)
  then obtain dns as peer where p: "parse_dns s = Inr dns" "parse_addresses dg s = Inr as"
    "build_peer dg r s = Inr peer" by (auto elim!: is_okE)
  obtain res n where run: "kernel_switch dg (traced ops) r s (w, l) =
      (res, performed ops (take n (switch_plan ops s peer as (split_route_prefixes dg peer) dns w)) w,
       l @ take n (switch_plan ops s peer as (split_route_prefixes dg peer) dns w))"
    "is_ok res \<longrightarrow> length (switch_plan ops s peer as (split_route_prefixes dg peer) dns w) \<le> n"
    by (rule followsE [OF switch_follows [OF p(3,1,2) k]])
  have res: "res = Inr a \<or> \<not> is_ok res"
  proof (cases res)
    case (Inr b)
    from kernel_switch_Inr [OF run(1) [unfolded Inr]] assms(2) Inr show ?thesis by simp
  qed simp
  from p(3) assms(2) obtain key ms psk where peer: "key_from_str dg (trim (sc_public_key s)) = Inr key"
    "map (\<lambda>t. mask_from_str dg (trim t)) (sc_allowed_ips s) = map Inr ms" "check_preshared_key dg s = Inr psk"
    "peer = (peer_new dg key)\<lparr>peer_endpoint := Some a, peer_allowed_ips := peer_allowed_ips (peer_new dg key) @ ms,
       peer_keepalive := sc_keepalive s, peer_preshared_key := psk\<rparr>"
    by (auto simp: build_peer_Inr)
  note args = peer(1) peer(2) [symmetric] check_preshared_key_Inr [OF peer(3)] peer(4)
    parse_addresses_Inr(2) [OF p(2), symmetric] parse_dns_Inr [OF p(1)] split_routes_of [OF assms(3), of peer] run(1)
  have "res = Inr a \<and> length (switch_plan ops s peer as (split_route_prefixes dg peer) dns w) \<le> n \<or> \<not> is_ok res"
    using res run(2) by auto
  with args show ?thesis by blast
qed

text \<open>A backend whose device is down at first and then up with the mark the daemon gave it.\<close>

definition marked_recording :: "sample_key recording" where
  "marked_recording =
     \<lparr>rec_calls = [],
      rec_reads = [Inl ''interface down'',
        Inr \<lparr>host_private_key = None, host_listen_port = 51820, host_fwmark = Some 51820, host_peers = []\<rparr>],
      rec_reset_dns_err = False\<rparr>"

lemma traced_succeeds: "ops_succeed ops \<Longrightarrow> ops_succeed (traced ops)"
  by (auto simp: ops_succeed_def traced_op_apply)

lemma marked_plan:
  "switch_plan (recording_wg sample_dg) s peer as routes [] marked_recording =
     [Read_Interface_Data, Create_Interface, Configure_Interface (tunnel_config s peer as None),
      Configure_Peer_Routing [peer], Sync_Split_Routes routes, Read_Interface_Data,
      Apply_Firewall as (Some 51820), Reset_Dns]"
  by (simp add: switch_plan_def configure_plan_def device_mark_def recording_wg_def scripted_read_def push_call_def
      marked_recording_def)

theorem switch_calls_witness:
  "\<exists>peer as routes w'. kernel_switch sample_dg (traced (recording_wg sample_dg)) no_resolver edge_server
       (marked_recording, [])
     = (Inr (SockV4 0xC633640A 51820), w',
        [Read_Interface_Data, Create_Interface, Configure_Interface (tunnel_config edge_server peer as None),
         Configure_Peer_Routing [peer], Sync_Split_Routes routes, Read_Interface_Data,
         Apply_Firewall as (Some 51820), Reset_Dns])"
proof -
  obtain w' where run: "kernel_switch sample_dg (traced (recording_wg sample_dg)) no_resolver edge_server
      (marked_recording, []) = (Inr (SockV4 0xC633640A 51820), w')"
    using kernel_switch_ok [OF traced_succeeds [OF recording_succeeds] edge_well_formed edge_endpoint] by blast
  obtain peer as routes dns res n where calls: "map Some dns = map (\<lambda>t. parse_ip (trim t)) (sc_dns edge_server)"
    "kernel_switch sample_dg (traced (recording_wg sample_dg)) no_resolver edge_server (marked_recording, []) =
       (res, performed (recording_wg sample_dg) (take n (switch_plan (recording_wg sample_dg) edge_server peer as routes
          dns marked_recording)) marked_recording,
        [] @ take n (switch_plan (recording_wg sample_dg) edge_server peer as routes dns marked_recording))"
    "res = Inr (SockV4 0xC633640A 51820)
       \<and> length (switch_plan (recording_wg sample_dg) edge_server peer as routes dns marked_recording) \<le> n
     \<or> \<not> is_ok res"
    using switch_calls [OF edge_well_formed edge_endpoint sample_mask_ok, of "recording_wg sample_dg" no_resolver
        marked_recording "[]"] by blast
  have dns: "dns = []" using calls(1) by (simp add: edge_server_def)
  from calls(2) run have "is_ok res" by auto
  with calls(3) have "take n (switch_plan (recording_wg sample_dg) edge_server peer as routes dns marked_recording)
      = switch_plan (recording_wg sample_dg) edge_server peer as routes dns marked_recording"
    and "res = Inr (SockV4 0xC633640A 51820)" by simp_all
  with calls(2) show ?thesis unfolding dns marked_plan by auto
qed

text \<open>
  C17: a switch with invalid input is an error and changes nothing: if a key, an address, an
  allowed IP or a DNS server is malformed, there is no address or the endpoint has none, it
  makes no call at all, or, when only the private key is malformed, reads the interface once.
\<close>

theorem switch_bad_input:
  assumes "\<not> (well_formed dg s \<and> is_ok (endpoint_addr r s))"
  shows "\<exists>e w' l'. kernel_switch dg (traced ops) r s (w, l) = (Inl e, w', l @ l')
    \<and> (l' = [] \<or> l' = [Read_Interface_Data] \<and> \<not> is_ok (check_private_key dg s))"
proof (cases "is_ok (build_peer dg r s) \<and> is_ok (parse_dns s) \<and> is_ok (parse_addresses dg s)")
  case False
  then show ?thesis
    by (cases "build_peer dg r s"; cases "parse_dns s"; cases "parse_addresses dg s")
      (simp_all add: kernel_switch_def)
next
  case True
  then obtain dns as peer where p: "parse_dns s = Inr dns" "parse_addresses dg s = Inr as"
    "build_peer dg r s = Inr peer" by (auto elim!: is_okE)
  have "\<not> is_ok (check_private_key dg s)"
    using True assms
    unfolding well_formed_def build_peer_ok parse_dns_ok parse_addresses_ok check_private_key_ok
    by blast
  from switch_keyless [OF p(3,1,2) this, of ops w l] \<open>\<not> is_ok (check_private_key dg s)\<close> show ?thesis by blast
qed

definition keyless_server :: server_config where
  "keyless_server = edge_server\<lparr>sc_private_key := ''garbage''\<rparr>"

theorem switch_bad_input_witness:
  "\<exists>e w' l'. kernel_switch sample_dg (traced (recording_wg sample_dg)) no_resolver keyless_server
      (edge_recording, []) = (Inl e, w', [] @ l')"
proof -
  have "\<not> well_formed sample_dg keyless_server"
    by (simp add: well_formed_def keyless_server_def edge_server_def edge_trims sample_dg_def
        sample_key_parse_def parse_unsigned_def parser_evals)
  then show ?thesis
    using switch_bad_input [of sample_dg keyless_server no_resolver "recording_wg sample_dg"
        edge_recording "[]"] by blast
qed

text \<open>
  C16: a server that was accepted can be switched to. If the address that validation returned
  was cached, then whatever the resolver says later, even nothing at all behind a dead
  tunnel's kill switch, the switch succeeds as soon as the operations of the kernel do.
\<close>

theorem switch_after_validation:
  assumes "validate_server dg r s = Inr a" and "ops_succeed ops"
  shows "\<exists>b w'. kernel_switch dg ops r' (s\<lparr>sc_resolved_endpoint := Some (show_sock a)\<rparr>) w = (Inr b, w')"
proof -
  let ?s = "s\<lparr>sc_resolved_endpoint := Some (show_sock a)\<rparr>"
  have "well_formed dg ?s"
    using assms(1) by (simp add: validate_server_Inr well_formed_def)
  moreover obtain b where "endpoint_addr r' ?s = Inr b"
    using endpoint_addr_shown [of ?s a r'] by (auto simp: is_ok_iff)
  ultimately show ?thesis using kernel_switch_ok [OF assms(2)] by blast
qed

theorem switch_after_validation_witness:
  "\<exists>b w'. kernel_switch sample_dg (recording_wg sample_dg) no_resolver
     (edge_server\<lparr>sc_resolved_endpoint := Some (show_sock (SockV4 0xC633640A 51820))\<rparr>) edge_recording
   = (Inr b, w')"
proof (rule switch_after_validation)
  show "validate_server sample_dg no_resolver edge_server = Inr (SockV4 0xC633640A 51820)"
    by (simp add: validate_server_Inr edge_well_formed edge_endpoint)
qed (rule recording_succeeds)

text \<open>
  A disconnect makes exactly two calls: it removes the interface and then the packet
  filter, the second one also when the first failed, and returns the result of the first.
\<close>

lemma disconnect_calls:
  "kernel_disconnect (traced ops) (w, l)
   = (fst (op_remove_interface ops w),
      snd (op_clear_firewall ops (snd (op_remove_interface ops w))),
      l @ [Remove_Interface, Clear_Firewall])"
  by (simp add: kernel_disconnect_def traced_op_apply)

end
