(* ===== verification/Rust_Path.thy ===== *)
theory Rust_Path
  imports Rust_Str
begin

section \<open>Paths of the Rust standard library\<close>

text \<open>
  \<open>Path::file_name\<close>, \<open>file_stem\<close>, \<open>parent\<close> and \<open>with_extension\<close> on Unix, on the text of
  the path. A trailing slash or a trailing \<open>/.\<close> is not a component of its own.
\<close>

text \<open>The argument is the reversed path: drop what \<open>components()\<close> ignores at the end.\<close>

fun strip_tail :: "string \<Rightarrow> string" where
  "strip_tail [] = []"
| "strip_tail (c # cs) =
     (if c = CHR ''/'' then strip_tail cs
      else if c = CHR ''.'' \<and> (case cs of [] \<Rightarrow> False | d # _ \<Rightarrow> d = CHR ''/'') then strip_tail cs
      else c # cs)"

definition last_component :: "string \<Rightarrow> string" where
  "last_component p = rev (takeWhile (\<lambda>c. c \<noteq> CHR ''/'') (strip_tail (rev p)))"

definition before_last :: "string \<Rightarrow> string" where
  "before_last p = rev (dropWhile (\<lambda>c. c \<noteq> CHR ''/'') (strip_tail (rev p)))"

definition file_name :: "string \<Rightarrow> string option" where
  "file_name p =
     (let b = last_component p in if b = [] \<or> b = ''.'' \<or> b = ''..'' then None else Some b)"

text \<open>The part of a file name before its last dot; a leading dot alone does not count.\<close>

definition stem_of :: "string \<Rightarrow> string" where
  "stem_of name =
     (case split_once CHR ''.'' (rev name) of
        None \<Rightarrow> name
      | Some (ext, before) \<Rightarrow> if before = [] then name else rev before)"

definition path_file_stem :: "string \<Rightarrow> string option" where
  "path_file_stem p = map_option stem_of (file_name p)"

definition path_parent :: "string \<Rightarrow> string option" where
  "path_parent p =
     (if strip_tail (rev p) = [] then None
      else
        (let d = before_last p; t = rev (strip_tail (rev d))
         in Some (if t = [] \<and> d \<noteq> [] then ''/'' else t)))"

definition with_extension :: "string \<Rightarrow> string \<Rightarrow> string" where
  "with_extension p ext =
     (case path_file_stem p of
        None \<Rightarrow> p
      | Some st \<Rightarrow> before_last p @ st @ (if ext = [] then [] else CHR ''.'' # ext))"

lemma strip_tail_suffix: "suffix (strip_tail s) s"
  by (induction s rule: strip_tail.induct) (auto intro: suffix_ConsI)

lemma strip_tail_plain:
  assumes "c \<noteq> CHR ''/''" and "c = CHR ''.'' \<Longrightarrow> cs \<noteq> [] \<and> hd cs \<noteq> CHR ''/''"
  shows "strip_tail (c # cs) = c # cs"
  using assms by (cases cs) auto

text \<open>A file name that is not \<open>.\<close> or \<open>..\<close> below any directory is found again.\<close>

lemma last_component_append:
  assumes "f \<noteq> []" "CHR ''/'' \<notin> set f" "f \<noteq> ''.''"
  shows "last_component (d @ CHR ''/'' # f) = f" and "before_last (d @ CHR ''/'' # f) = d @ ''/''"
proof -
  obtain c cs where r: "rev f = c # cs" using assms(1) by (cases "rev f") auto
  then have c: "c \<in> set f" "set cs \<subseteq> set f"
    by (metis list.set_intros(1) set_rev, metis set_rev set_subset_Cons)
  have s: "strip_tail (rev f @ CHR ''/'' # rev d) = rev f @ CHR ''/'' # rev d"
  proof -
    have "c = CHR ''.'' \<Longrightarrow> cs \<noteq> []" using assms(3) r by (metis rev_rev_ident rev_singleton_conv)
    then have "c = CHR ''.'' \<Longrightarrow> cs @ CHR ''/'' # rev d \<noteq> [] \<and> hd (cs @ CHR ''/'' # rev d) \<noteq> CHR ''/''"
      using c assms(2) by (cases cs) auto
    moreover have "c \<noteq> CHR ''/''" using c assms(2) by auto
    ultimately have "strip_tail (c # cs @ CHR ''/'' # rev d) = c # cs @ CHR ''/'' # rev d"
      by (intro strip_tail_plain) auto
    then show ?thesis using r by simp
  qed
  have n: "\<forall>x \<in> set (rev f). x \<noteq> CHR ''/''" using assms(2) by auto
  show "last_component (d @ CHR ''/'' # f) = f"
    using n by (simp add: last_component_def s takeWhile_append)
  show "before_last (d @ CHR ''/'' # f) = d @ ''/''"
    using n by (simp add: before_last_def s dropWhile_append)
qed

lemma stem_of_ext:
  assumes "b \<noteq> []" "CHR ''.'' \<notin> set e"
  shows "stem_of (b @ CHR ''.'' # e) = b"
proof -
  have "split_once CHR ''.'' (rev e @ CHR ''.'' # rev b) = Some (rev e, rev b)"
    using assms(2) by (intro split_once_append) simp
  with assms(1) show ?thesis by (simp add: stem_of_def)
qed

lemma stem_of_no_dot: "CHR ''.'' \<notin> set b \<Longrightarrow> stem_of b = b"
  using split_once_None [of "CHR ''.''" "rev b"] by (simp add: stem_of_def)

end
