(* ===== verification/Store.thy ===== *)
theory Store
  imports Config Rust_Path
begin

section \<open>The state file (\<open>daemon/src/config.rs\<close>, \<open>Store\<close>)\<close>

text \<open>
  \<open>Store::save\<close> and \<open>load\<close> over a file system that can lose what was not synced.
  A directory maps paths to inodes. Changes of the directory wait in a journal until the
  directory is synced; the contents of an inode are stable once it is synced. A crash keeps
  a prefix of the journal and may leave anything in an inode that was not synced.
  Every operation may fail; \<open>faults\<close> says which of them do and with which message, and
  how much of a failed write reached the file. Since \<open>save\<close> returns at its first error, a
  failure at an operation is also what a crash at that point leaves behind. Creating the
  directory of the file may fail but changes nothing here: that a crash can lose a directory
  that is itself new, whose entry nobody syncs, is left out.
\<close>

datatype dir_op = Link string nat | Rename string string

record file_system =
  fs_dir :: "string \<Rightarrow> nat option"
  fs_journal :: "dir_op list"
  fs_data :: "nat \<Rightarrow> string"
  fs_synced :: "nat \<Rightarrow> bool"
  fs_mode :: "nat \<Rightarrow> nat"
  fs_next :: nat

record faults =
  f_read :: "string option"
  f_create_dir :: "string option"
  f_open :: "string option"
  f_write :: "(string \<times> string) option"
  f_sync :: "string option"
  f_rename :: "string option"
  f_sync_dir :: "string option"

definition no_faults :: faults where
  "no_faults = \<lparr>f_read = None, f_create_dir = None, f_open = None, f_write = None,
     f_sync = None, f_rename = None, f_sync_dir = None\<rparr>"

fun apply_dir :: "dir_op \<Rightarrow> (string \<Rightarrow> nat option) \<Rightarrow> (string \<Rightarrow> nat option)" where
  "apply_dir (Link p i) d = d(p := Some i)"
| "apply_dir (Rename a b) d = d(b := d a, a := None)"

definition fs_live :: "file_system \<Rightarrow> string \<Rightarrow> nat option" where
  "fs_live fs = fold apply_dir (fs_journal fs) (fs_dir fs)"

definition file_text :: "file_system \<Rightarrow> string \<Rightarrow> string option" where
  "file_text fs p = map_option (fs_data fs) (fs_live fs p)"

definition empty_fs :: file_system where
  "empty_fs = \<lparr>fs_dir = (\<lambda>_. None), fs_journal = [], fs_data = (\<lambda>_. []),
     fs_synced = (\<lambda>_. True), fs_mode = (\<lambda>_. 0), fs_next = 0\<rparr>"

subsection \<open>The operations\<close>

definition failing :: "string option \<Rightarrow> (file_system, unit) action \<Rightarrow> (file_system, unit) action" where
  "failing e m = (case e of None \<Rightarrow> m | Some msg \<Rightarrow> liftR (Inl msg))"

text \<open>Open for writing, creating with mode 0600 (octal) or truncating what is there.\<close>

definition fs_open_private :: "string \<Rightarrow> file_system \<Rightarrow> nat \<times> file_system" where
  "fs_open_private p fs =
     (case fs_live fs p of
        Some i \<Rightarrow> (i, fs\<lparr>fs_data := (fs_data fs)(i := []), fs_synced := (fs_synced fs)(i := False)\<rparr>)
      | None \<Rightarrow>
          (let i = fs_next fs
           in (i, fs\<lparr>fs_journal := fs_journal fs @ [Link p i], fs_data := (fs_data fs)(i := []),
                 fs_synced := (fs_synced fs)(i := False), fs_mode := (fs_mode fs)(i := 384),
                 fs_next := Suc i\<rparr>)))"

definition fs_write :: "nat \<Rightarrow> string \<Rightarrow> file_system \<Rightarrow> file_system" where
  "fs_write i t fs = fs\<lparr>fs_data := (fs_data fs)(i := t), fs_synced := (fs_synced fs)(i := False)\<rparr>"

definition fs_sync :: "nat \<Rightarrow> file_system \<Rightarrow> file_system" where
  "fs_sync i fs = fs\<lparr>fs_synced := (fs_synced fs)(i := True)\<rparr>"

definition fs_rename :: "string \<Rightarrow> string \<Rightarrow> (file_system, unit) action" where
  "fs_rename a b fs =
     (if fs_live fs a = None then (Inl ''No such file or directory (os error 2)'', fs)
      else (Inr (), fs\<lparr>fs_journal := fs_journal fs @ [Rename a b]\<rparr>))"

definition fs_sync_dir :: "file_system \<Rightarrow> file_system" where
  "fs_sync_dir fs = fs\<lparr>fs_dir := fs_live fs, fs_journal := []\<rparr>"

text \<open>\<open>write_private\<close>: open, write all, sync.\<close>

definition write_private :: "faults \<Rightarrow> string \<Rightarrow> string \<Rightarrow> (file_system, unit) action" where
  "write_private f p bytes fs =
     (case f_open f of
        Some e \<Rightarrow> (Inl e, fs)
      | None \<Rightarrow>
          (case fs_open_private p fs of (i, fs1) \<Rightarrow>
             (case f_write f of
                Some (e, part) \<Rightarrow> (Inl e, fs_write i part fs1)
              | None \<Rightarrow>
                  (case f_sync f of
                     Some e \<Rightarrow> (Inl e, fs_write i bytes fs1)
                   | None \<Rightarrow> (Inr (), fs_sync i (fs_write i bytes fs1))))))"

definition nonempty_parent :: "string \<Rightarrow> string option" where
  "nonempty_parent p =
     (case path_parent p of None \<Rightarrow> None | Some d \<Rightarrow> if d = [] then None else Some d)"

definition tmp_path :: "string \<Rightarrow> string" where
  "tmp_path p = with_extension p ''json.tmp''"

definition save ::
  "(config \<Rightarrow> string result) \<Rightarrow> faults \<Rightarrow> string \<Rightarrow> config \<Rightarrow> (file_system, unit) action" where
  "save enc f path c =
     bindS (case nonempty_parent path of
              None \<Rightarrow> retS ()
            | Some dir \<Rightarrow> map_errS (\<lambda>e. dir @ '': '' @ e) (failing (f_create_dir f) (retS ())))
     (\<lambda>_. bindS (liftR (enc c))
     (\<lambda>json. bindS (map_errS (\<lambda>e. tmp_path path @ '': '' @ e) (write_private f (tmp_path path) json))
     (\<lambda>_. bindS (map_errS (\<lambda>e. tmp_path path @ '' -> '' @ path @ '': '' @ e)
                  (failing (f_rename f) (fs_rename (tmp_path path) path)))
     (\<lambda>_. case nonempty_parent path of
              None \<Rightarrow> retS ()
            | Some dir \<Rightarrow> map_errS (\<lambda>e. dir @ '': fsync: '' @ e)
                (failing (f_sync_dir f) (\<lambda>fs. (Inr (), fs_sync_dir fs)))))))"

datatype read_result = Text string | NotFound | OtherError string

definition read_to_string :: "faults \<Rightarrow> file_system \<Rightarrow> string \<Rightarrow> read_result" where
  "read_to_string f fs p =
     (case f_read f of
        Some e \<Rightarrow> OtherError e
      | None \<Rightarrow>
          (case file_text fs p of
             None \<Rightarrow> NotFound
           | Some t \<Rightarrow> if utf8_valid t then Text t
                       else OtherError ''stream did not contain valid UTF-8''))"

definition load ::
  "(string \<Rightarrow> config result) \<Rightarrow> faults \<Rightarrow> string \<Rightarrow> file_system \<Rightarrow> config result" where
  "load dec f path fs =
     (case read_to_string f fs path of
        Text text \<Rightarrow> map_err (\<lambda>e. path @ '': '' @ e) (dec text)
      | NotFound \<Rightarrow> Inr config_default
      | OtherError e \<Rightarrow> Inl (path @ '': '' @ e))"

subsection \<open>Crashes\<close>

inductive crash :: "file_system \<Rightarrow> file_system \<Rightarrow> bool" where
  crash: "(\<And>i. fs_synced fs i \<Longrightarrow> data' i = fs_data fs i) \<Longrightarrow>
    crash fs (fs\<lparr>fs_dir := fold apply_dir (take k (fs_journal fs)) (fs_dir fs),
      fs_journal := [], fs_data := data', fs_synced := (\<lambda>_. True)\<rparr>)"

inductive_cases crashE [elim]: "crash fs fs'"

definition crash_dirs :: "file_system \<Rightarrow> (string \<Rightarrow> nat option) set" where
  "crash_dirs fs = {fold apply_dir (take k (fs_journal fs)) (fs_dir fs) | k. True}"

text \<open>What a reader can find at a path after a crash.\<close>

definition possible :: "file_system \<Rightarrow> string \<Rightarrow> string option set" where
  "possible fs p = {file_text fs' p | fs'. crash fs fs'}"

lemma possible_iff:
  "x \<in> possible fs p \<longleftrightarrow>
   (\<exists>d \<in> crash_dirs fs. case d p of None \<Rightarrow> x = None
      | Some i \<Rightarrow> \<exists>t. x = Some t \<and> (fs_synced fs i \<longrightarrow> t = fs_data fs i))"
proof
  assume "x \<in> possible fs p"
  then obtain fs' where c: "crash fs fs'" and x: "x = file_text fs' p"
    by (auto simp: possible_def)
  from c obtain data' k where "\<And>i. fs_synced fs i \<Longrightarrow> data' i = fs_data fs i"
    and "fs' = fs\<lparr>fs_dir := fold apply_dir (take k (fs_journal fs)) (fs_dir fs),
      fs_journal := [], fs_data := data', fs_synced := (\<lambda>_. True)\<rparr>"
    by (rule crashE) blast
  with x show "\<exists>d \<in> crash_dirs fs. case d p of None \<Rightarrow> x = None
      | Some i \<Rightarrow> \<exists>t. x = Some t \<and> (fs_synced fs i \<longrightarrow> t = fs_data fs i)"
    by (auto simp: crash_dirs_def file_text_def fs_live_def split: option.splits)
next
  assume "\<exists>d \<in> crash_dirs fs. case d p of None \<Rightarrow> x = None
      | Some i \<Rightarrow> \<exists>t. x = Some t \<and> (fs_synced fs i \<longrightarrow> t = fs_data fs i)"
  then obtain k where k: "case fold apply_dir (take k (fs_journal fs)) (fs_dir fs) p of
      None \<Rightarrow> x = None
    | Some i \<Rightarrow> \<exists>t. x = Some t \<and> (fs_synced fs i \<longrightarrow> t = fs_data fs i)"
    by (auto simp: crash_dirs_def)
  define data' where "data' = (\<lambda>i. if fs_synced fs i then fs_data fs i
    else case x of None \<Rightarrow> [] | Some t \<Rightarrow> t)"
  have "crash fs (fs\<lparr>fs_dir := fold apply_dir (take k (fs_journal fs)) (fs_dir fs),
      fs_journal := [], fs_data := data', fs_synced := (\<lambda>_. True)\<rparr>)"
    by (rule crash.crash) (simp add: data'_def)
  moreover have "file_text (fs\<lparr>fs_dir := fold apply_dir (take k (fs_journal fs)) (fs_dir fs),
      fs_journal := [], fs_data := data', fs_synced := (\<lambda>_. True)\<rparr>) p = x"
    using k by (auto simp: file_text_def fs_live_def data'_def split: option.splits)
  ultimately show "x \<in> possible fs p" by (auto simp: possible_def)
qed

lemma crash_dirs_live: "fs_live fs \<in> crash_dirs fs"
  unfolding crash_dirs_def fs_live_def by (rule CollectI, rule exI [of _ "length (fs_journal fs)"]) simp

lemma ex_take_snoc: "(\<exists>k. P (take k (xs @ [a]))) \<longleftrightarrow> P (xs @ [a]) \<or> (\<exists>k. P (take k xs))"
proof
  assume "\<exists>k. P (take k (xs @ [a]))"
  then obtain k where k: "P (take k (xs @ [a]))" by blast
  show "P (xs @ [a]) \<or> (\<exists>k. P (take k xs))"
  proof (cases "k \<le> length xs")
    case True
    with k have "P (take k xs)" by simp
    then show ?thesis by blast
  next
    case False
    with k show ?thesis by simp
  qed
next
  assume "P (xs @ [a]) \<or> (\<exists>k. P (take k xs))"
  then show "\<exists>k. P (take k (xs @ [a]))"
  proof
    assume "P (xs @ [a])"
    then have "P (take (Suc (length xs)) (xs @ [a]))" by simp
    then show ?thesis by blast
  next
    assume "\<exists>k. P (take k xs)"
    then obtain k where "P (take k xs)" by blast
    then have "P (take (min k (length xs)) (xs @ [a]))"
      by (cases "k \<le> length xs") (auto simp: min_def)
    then show ?thesis by blast
  qed
qed

lemma crash_dirs_snoc:
  "crash_dirs (fs\<lparr>fs_journal := fs_journal fs @ [a]\<rparr>) = insert (apply_dir a (fs_live fs)) (crash_dirs fs)"
proof (rule set_eqI)
  fix x
  show "x \<in> crash_dirs (fs\<lparr>fs_journal := fs_journal fs @ [a]\<rparr>)
      \<longleftrightarrow> x \<in> insert (apply_dir a (fs_live fs)) (crash_dirs fs)"
    using ex_take_snoc [of "\<lambda>j. x = fold apply_dir j (fs_dir fs)" "fs_journal fs" a]
    by (simp add: crash_dirs_def fs_live_def)
qed

lemma crash_dirs_journal [simp]:
  "crash_dirs (fs\<lparr>fs_data := a\<rparr>) = crash_dirs fs" "crash_dirs (fs\<lparr>fs_synced := b\<rparr>) = crash_dirs fs"
  "crash_dirs (fs\<lparr>fs_mode := m\<rparr>) = crash_dirs fs" "crash_dirs (fs\<lparr>fs_next := n\<rparr>) = crash_dirs fs"
  "fs_live (fs\<lparr>fs_data := a\<rparr>) = fs_live fs" "fs_live (fs\<lparr>fs_synced := b\<rparr>) = fs_live fs"
  "fs_live (fs\<lparr>fs_mode := m\<rparr>) = fs_live fs" "fs_live (fs\<lparr>fs_next := n\<rparr>) = fs_live fs"
  by (simp_all add: crash_dirs_def fs_live_def)

lemma fs_live_snoc [simp]:
  "fs_live (fs\<lparr>fs_journal := fs_journal fs @ [a]\<rparr>) = apply_dir a (fs_live fs)"
  by (simp add: fs_live_def)

lemma fs_live_sync_dir [simp]: "fs_live (fs_sync_dir fs) = fs_live fs"
  by (simp add: fs_live_def fs_sync_dir_def)

lemma crash_dirs_sync_dir [simp]: "crash_dirs (fs_sync_dir fs) = {fs_live fs}"
  by (auto simp: crash_dirs_def fs_sync_dir_def)

end
