(* ===== verification/Crash_Safety.thy ===== *)
theory Crash_Safety
  imports Store
begin

section \<open>Saving is atomic and durable\<close>

text \<open>
  What a crash can leave at the state path during and after \<open>save\<close>: the old contents or
  the new ones, never a mixture; and the new ones only, once \<open>save\<close> returned without an
  error and the directory was synced.
\<close>

definition entries :: "file_system \<Rightarrow> string \<Rightarrow> nat option set" where
  "entries fs p = (\<lambda>d. d p) ` crash_dirs fs"

lemma possible_entries:
  "x \<in> possible fs p \<longleftrightarrow>
   (\<exists>e \<in> entries fs p. case e of None \<Rightarrow> x = None
      | Some i \<Rightarrow> \<exists>t. x = Some t \<and> (fs_synced fs i \<longrightarrow> t = fs_data fs i))"
  by (simp add: possible_iff entries_def)

lemma possible_cong:
  assumes "entries fs' p = entries fs p"
    and "\<And>i. Some i \<in> entries fs p \<Longrightarrow> fs_data fs' i = fs_data fs i \<and> fs_synced fs' i = fs_synced fs i"
  shows "possible fs' p = possible fs p"
proof (rule set_eqI)
  fix x
  show "x \<in> possible fs' p \<longleftrightarrow> x \<in> possible fs p"
    unfolding possible_entries assms(1) using assms(2)
    by (intro bex_cong) (auto split: option.splits)
qed

lemma possible_live: "file_text fs p \<in> possible fs p"
  unfolding possible_iff
  by (rule bexI [OF _ crash_dirs_live]) (auto simp: file_text_def split: option.splits)

text \<open>
  The inode behind the state path is never the one behind its temporary path, in the
  present directory and in every directory a crash may bring back.
\<close>

definition store_wf :: "string \<Rightarrow> file_system \<Rightarrow> bool" where
  "store_wf path fs \<longleftrightarrow> tmp_path path \<noteq> path
     \<and> (\<forall>d \<in> crash_dirs fs. \<forall>i.
          (d path = Some i \<longrightarrow> i < fs_next fs \<and> d (tmp_path path) \<noteq> Some i
             \<and> fs_live fs (tmp_path path) \<noteq> Some i)
        \<and> (d (tmp_path path) = Some i \<longrightarrow> i < fs_next fs))"

lemma store_wf_entry:
  assumes "store_wf path fs" and "Some i \<in> entries fs path"
  shows "i < fs_next fs" and "fs_live fs (tmp_path path) \<noteq> Some i"
proof -
  from assms(2) obtain d where "d \<in> crash_dirs fs" "d path = Some i"
    by (auto simp: entries_def)
  with assms(1) show "i < fs_next fs" and "fs_live fs (tmp_path path) \<noteq> Some i"
    unfolding store_wf_def by blast+
qed

lemma store_wf_empty: "tmp_path path \<noteq> path \<Longrightarrow> store_wf path empty_fs"
  by (auto simp: store_wf_def crash_dirs_def empty_fs_def)

lemma store_wf_crash:
  assumes wf: "store_wf path fs" and c: "crash fs fs'"
  shows "store_wf path fs'"
proof -
  from c obtain k where d: "fs_dir fs' = fold apply_dir (take k (fs_journal fs)) (fs_dir fs)"
    and j: "fs_journal fs' = []" and n: "fs_next fs' = fs_next fs"
    by (rule crashE) auto
  from d have "fs_dir fs' \<in> crash_dirs fs" by (auto simp: crash_dirs_def)
  moreover have "crash_dirs fs' = {fs_dir fs'}" "fs_live fs' = fs_dir fs'"
    by (simp_all add: crash_dirs_def fs_live_def j)
  ultimately show ?thesis
    using wf by (auto simp: store_wf_def n)
qed

lemma open_private_spec:
  assumes wf: "store_wf path fs" and o: "fs_open_private (tmp_path path) fs = (i, fs1)"
  shows "store_wf path fs1" "possible fs1 path = possible fs path"
    "fs_live fs1 (tmp_path path) = Some i" "Some i \<notin> entries fs1 path"
    "fs_live fs1 path = fs_live fs path"
    "fs_mode fs1 i = (if fs_live fs (tmp_path path) = None then 384 else fs_mode fs i)"
proof -
  have ne: "tmp_path path \<noteq> path" using wf by (simp add: store_wf_def)
  have "store_wf path fs1 \<and> possible fs1 path = possible fs path
    \<and> fs_live fs1 (tmp_path path) = Some i \<and> Some i \<notin> entries fs1 path
    \<and> fs_live fs1 path = fs_live fs path
    \<and> fs_mode fs1 i = (if fs_live fs (tmp_path path) = None then 384 else fs_mode fs i)"
  proof (cases "fs_live fs (tmp_path path)")
    case (Some j)
    then have f: "i = j" "fs1 = fs\<lparr>fs_data := (fs_data fs)(i := []), fs_synced := (fs_synced fs)(i := False)\<rparr>"
      using o by (auto simp: fs_open_private_def)
    have d: "crash_dirs fs1 = crash_dirs fs" "fs_live fs1 = fs_live fs" "fs_next fs1 = fs_next fs"
      by (simp_all add: f)
    have e: "entries fs1 path = entries fs path" by (simp add: entries_def d)
    have n: "Some i \<notin> entries fs path" using store_wf_entry(2) [OF wf] Some f(1) by blast
    have "possible fs1 path = possible fs path"
      by (rule possible_cong [OF e]) (use n f(2) in auto)
    with wf n e d Some f show ?thesis by (auto simp: store_wf_def)
  next
    case None
    then have f: "i = fs_next fs"
      "fs1 = fs\<lparr>fs_journal := fs_journal fs @ [Link (tmp_path path) i], fs_data := (fs_data fs)(i := []),
                 fs_synced := (fs_synced fs)(i := False), fs_mode := (fs_mode fs)(i := 384),
                 fs_next := Suc i\<rparr>"
      using o by (auto simp: fs_open_private_def Let_def)
    have d: "crash_dirs fs1 = insert ((fs_live fs)(tmp_path path \<mapsto> i)) (crash_dirs fs)"
      "fs_live fs1 = (fs_live fs)(tmp_path path \<mapsto> i)" "fs_next fs1 = Suc i"
      by (simp_all add: f crash_dirs_snoc)
    have e: "entries fs1 path = entries fs path"
      using ne crash_dirs_live [of fs] by (auto simp: entries_def d)
    have n: "Some i \<notin> entries fs path" using store_wf_entry(1) [OF wf] f(1) by blast
    have p: "possible fs1 path = possible fs path"
      by (rule possible_cong [OF e]) (use n f(2) in auto)
    have old: "j < i" if "x \<in> crash_dirs fs" "x path = Some j \<or> x (tmp_path path) = Some j" for x j
      using wf that f(1) by (auto simp: store_wf_def)
    have "store_wf path fs1"
      using ne old wf crash_dirs_live [of fs]
      by (fastforce simp: store_wf_def d less_Suc_eq)
    with p n e d ne None f show ?thesis by auto
  qed
  then show "store_wf path fs1" "possible fs1 path = possible fs path"
    "fs_live fs1 (tmp_path path) = Some i" "Some i \<notin> entries fs1 path"
    "fs_live fs1 path = fs_live fs path"
    "fs_mode fs1 i = (if fs_live fs (tmp_path path) = None then 384 else fs_mode fs i)"
    by blast+
qed

text \<open>Writing and syncing an inode that is not behind the state path changes nothing there.\<close>

lemma inode_update_spec:
  assumes "Some i \<notin> entries fs path"
    and "fs' = fs\<lparr>fs_data := (fs_data fs)(i := t), fs_synced := (fs_synced fs)(i := b)\<rparr>"
  shows "possible fs' path = possible fs path" "store_wf path fs' \<longleftrightarrow> store_wf path fs"
proof -
  have e: "entries fs' path = entries fs path" by (simp add: entries_def assms(2))
  show "possible fs' path = possible fs path"
    by (rule possible_cong [OF e]) (use assms in auto)
  show "store_wf path fs' \<longleftrightarrow> store_wf path fs" by (simp add: store_wf_def assms(2))
qed

lemma write_private_spec:
  assumes wf: "store_wf path fs" and w: "write_private f (tmp_path path) json fs = (r, fs')"
  shows "store_wf path fs'" "possible fs' path = possible fs path"
    "fs_live fs' path = fs_live fs path"
    "r = Inr () \<Longrightarrow> \<exists>i. fs_live fs' (tmp_path path) = Some i \<and> fs_synced fs' i \<and> fs_data fs' i = json
       \<and> (fs_live fs (tmp_path path) = None \<longrightarrow> fs_mode fs' i = 384)"
proof -
  obtain i fs1 where o: "fs_open_private (tmp_path path) fs = (i, fs1)" by (cases "fs_open_private (tmp_path path) fs")
  note os = open_private_spec [OF wf o]
  have "fs' = fs \<and> r \<noteq> Inr () \<or>
      (\<exists>t b. fs' = fs1\<lparr>fs_data := (fs_data fs1)(i := t), fs_synced := (fs_synced fs1)(i := b)\<rparr>
         \<and> (r = Inr () \<longrightarrow> t = json \<and> b))"
    using w o by (auto simp: write_private_def fs_write_def fs_sync_def split: option.splits)
  then consider (stay) "fs' = fs" "r \<noteq> Inr ()"
    | (upd) t b where "fs' = fs1\<lparr>fs_data := (fs_data fs1)(i := t), fs_synced := (fs_synced fs1)(i := b)\<rparr>"
        "r = Inr () \<longrightarrow> t = json \<and> b" by blast
  then have "store_wf path fs' \<and> possible fs' path = possible fs path
      \<and> fs_live fs' path = fs_live fs path
      \<and> (r = Inr () \<longrightarrow> (\<exists>i. fs_live fs' (tmp_path path) = Some i \<and> fs_synced fs' i \<and> fs_data fs' i = json
        \<and> (fs_live fs (tmp_path path) = None \<longrightarrow> fs_mode fs' i = 384)))"
  proof cases
    case stay
    with wf show ?thesis by simp
  next
    case upd
    then show ?thesis
      using inode_update_spec [OF os(4) upd(1)] os by (auto simp: upd(1))
  qed
  then show "store_wf path fs'" "possible fs' path = possible fs path"
    "fs_live fs' path = fs_live fs path"
    "r = Inr () \<Longrightarrow> \<exists>i. fs_live fs' (tmp_path path) = Some i \<and> fs_synced fs' i \<and> fs_data fs' i = json
       \<and> (fs_live fs (tmp_path path) = None \<longrightarrow> fs_mode fs' i = 384)"
    by blast+
qed

text \<open>The rename adds the new contents to what a crash can leave, and nothing else.\<close>

lemma rename_spec:
  assumes wf: "store_wf path fs" and i: "fs_live fs (tmp_path path) = Some i" "fs_synced fs i"
    and fs': "fs' = fs\<lparr>fs_journal := fs_journal fs @ [Rename (tmp_path path) path]\<rparr>"
  shows "store_wf path fs'"
    "possible fs' path = insert (Some (fs_data fs i)) (possible fs path)"
    "fs_live fs' path = Some i"
proof -
  have ne: "tmp_path path \<noteq> path" using wf by (simp add: store_wf_def)
  let ?d = "(fs_live fs)(path := Some i, tmp_path path := None)"
  have d: "crash_dirs fs' = insert ?d (crash_dirs fs)" "fs_live fs' = ?d"
    by (simp_all add: fs' crash_dirs_snoc i)
  have "i < fs_next fs"
    using wf i(1) crash_dirs_live [of fs] by (auto simp: store_wf_def)
  moreover have n: "fs_next fs' = fs_next fs" by (simp add: fs')
  ultimately show "store_wf path fs'"
    using wf ne unfolding store_wf_def d n by auto
  have data: "fs_data fs' = fs_data fs" "fs_synced fs' = fs_synced fs" by (simp_all add: fs')
  show "possible fs' path = insert (Some (fs_data fs i)) (possible fs path)"
  proof (rule set_eqI)
    fix x
    show "x \<in> possible fs' path \<longleftrightarrow> x \<in> insert (Some (fs_data fs i)) (possible fs path)"
      unfolding insert_iff possible_iff d data bex_simps(5) using ne i(2) by auto
  qed
  show "fs_live fs' path = Some i" using ne by (simp add: d)
qed

lemma sync_dir_spec:
  assumes wf: "store_wf path fs"
  shows "store_wf path (fs_sync_dir fs)" "possible (fs_sync_dir fs) path \<subseteq> possible fs path"
proof -
  have data: "fs_data (fs_sync_dir fs) = fs_data fs" "fs_synced (fs_sync_dir fs) = fs_synced fs"
    "fs_next (fs_sync_dir fs) = fs_next fs"
    by (simp_all add: fs_sync_dir_def)
  show "store_wf path (fs_sync_dir fs)"
    using wf crash_dirs_live [of fs] by (auto simp: store_wf_def data)
  show "possible (fs_sync_dir fs) path \<subseteq> possible fs path"
  proof
    fix x
    assume "x \<in> possible (fs_sync_dir fs) path"
    then show "x \<in> possible fs path"
      unfolding possible_iff crash_dirs_sync_dir data using crash_dirs_live [of fs] by blast
  qed
qed

text \<open>The stages of \<open>save\<close>: where it can stop, and what holds there.\<close>

lemma save_stages:
  assumes "save enc f path c fs = (r, fs')"
  obtains (early) e where "r = Inl e" "fs' = fs"
  | (no_write) json e e' where "enc c = Inr json" "r = Inl e"
      "write_private f (tmp_path path) json fs = (Inl e', fs')"
  | (no_rename) json e where "enc c = Inr json" "r = Inl e"
      "write_private f (tmp_path path) json fs = (Inr (), fs')"
  | (renamed) json fs1 where "enc c = Inr json"
      "write_private f (tmp_path path) json fs = (Inr (), fs1)"
      "fs_live fs1 (tmp_path path) \<noteq> None"
      "fs' = fs1\<lparr>fs_journal := fs_journal fs1 @ [Rename (tmp_path path) path]\<rparr>"
      "r \<noteq> Inr () \<or> nonempty_parent path = None"
  | (all_done) json fs1 where "enc c = Inr json"
      "write_private f (tmp_path path) json fs = (Inr (), fs1)"
      "fs_live fs1 (tmp_path path) \<noteq> None" "r = Inr ()"
      "fs' = fs_sync_dir (fs1\<lparr>fs_journal := fs_journal fs1 @ [Rename (tmp_path path) path]\<rparr>)"
proof -
  define mk where "mk = (case nonempty_parent path of
              None \<Rightarrow> retS ()
            | Some dir \<Rightarrow> map_errS (\<lambda>e. dir @ '': '' @ e)
                (failing (f_create_dir f) (retS () :: (file_system, unit) action)))"
  define ren where "ren = map_errS (\<lambda>e. tmp_path path @ '' -> '' @ path @ '': '' @ e)
                  (failing (f_rename f) (fs_rename (tmp_path path) path))"
  define sy where "sy = (case nonempty_parent path of
              None \<Rightarrow> retS ()
            | Some dir \<Rightarrow> map_errS (\<lambda>e. dir @ '': fsync: '' @ e)
                (failing (f_sync_dir f) (\<lambda>fs. (Inr (), fs_sync_dir fs))))"
  have mk: "snd (mk w) = w" for w
    by (simp add: mk_def failing_def split: option.split)
  have sv: "bindS mk (\<lambda>_. bindS (liftR (enc c)) (\<lambda>json.
      bindS (map_errS (\<lambda>e. tmp_path path @ '': '' @ e) (write_private f (tmp_path path) json))
      (\<lambda>_. bindS ren (\<lambda>_. sy)))) fs = (r, fs')"
    using assms by (simp add: save_def mk_def ren_def sy_def)
  from sv show thesis
  proof (cases rule: bindS_cases)
    case (fail e)
    with mk [of fs] show thesis by (intro early) auto
  next
    case (next_op x w)
    then have "w = fs" using mk [of fs] by simp
    with next_op(2) consider (1) json where "enc c = Inr json"
      "bindS (map_errS (\<lambda>e. tmp_path path @ '': '' @ e) (write_private f (tmp_path path) json))
        (\<lambda>_. bindS ren (\<lambda>_. sy)) fs = (r, fs')" | (2) e where "r = Inl e" "fs' = fs"
      by (cases "enc c") auto
    then show thesis
    proof cases
      case 2
      then show thesis by (rule early)
    next
      case 1
      from 1(2) show thesis
      proof (cases rule: bindS_cases)
        case (fail e)
        with 1(1) show thesis by (auto simp: map_errS_eq_Inl intro: no_write)
      next
        case (next_op y fs1)
        then have w1: "write_private f (tmp_path path) json fs = (Inr (), fs1)"
          by (simp add: map_errS_eq_Inr)
        from next_op(2) show thesis
        proof (cases rule: bindS_cases)
          case (fail e)
          then have "fs' = fs1"
            by (auto simp: ren_def map_errS_eq_Inl failing_def fs_rename_def liftR_def
                split: option.splits if_splits)
          with w1 1(1) fail(2) show thesis by (intro no_rename) auto
        next
          case (next_op z fs2)
          then have l: "fs_live fs1 (tmp_path path) \<noteq> None"
            and fs2: "fs2 = fs1\<lparr>fs_journal := fs_journal fs1 @ [Rename (tmp_path path) path]\<rparr>"
            by (auto simp: ren_def map_errS_eq_Inr failing_def fs_rename_def liftR_def
                split: option.splits if_splits)
          have "fs' = fs2 \<and> (r \<noteq> Inr () \<or> nonempty_parent path = None) \<or> r = Inr () \<and> fs' = fs_sync_dir fs2"
            using next_op(2)
            by (auto simp: sy_def map_errS_def failing_def split: option.splits)
          then show thesis using renamed [OF 1(1) w1 l] all_done [OF 1(1) w1 l] fs2 by blast
        qed
      qed
    qed
  qed
qed

lemma save_spec:
  assumes wf: "store_wf path fs" and s: "save enc f path c fs = (r, fs')"
  shows "store_wf path fs'
    \<and> possible fs' path \<subseteq> possible fs path \<union> {Some json | json. enc c = Inr json}"
  using s
proof (cases rule: save_stages)
  case early
  with wf show ?thesis by simp
next
  case (no_write json e e')
  from write_private_spec(1,2) [OF wf no_write(3)] show ?thesis by simp
next
  case (no_rename json e)
  from write_private_spec(1,2) [OF wf no_rename(3)] show ?thesis by simp
next
  case (renamed json fs1)
  note w = write_private_spec [OF wf renamed(2)]
  from w(4) [OF refl] obtain i where i: "fs_live fs1 (tmp_path path) = Some i" "fs_synced fs1 i"
    "fs_data fs1 i = json" by blast
  from rename_spec(1,2) [OF w(1) i(1,2) renamed(4)] show ?thesis
    using w(2) i(3) renamed(1) by simp
next
  case (all_done json fs1)
  note w = write_private_spec [OF wf all_done(2)]
  from w(4) [OF refl] obtain i where i: "fs_live fs1 (tmp_path path) = Some i" "fs_synced fs1 i"
    "fs_data fs1 i = json" by blast
  note q = rename_spec [OF w(1) i(1,2) refl]
  from sync_dir_spec [OF q(1)] show ?thesis
    using q(2) w(2) i(3) all_done(1,5) by auto
qed

lemma possible_sync_dir:
  assumes "fs_live fs p = Some i" "fs_synced fs i"
  shows "possible (fs_sync_dir fs) p = {Some (fs_data fs i)}"
proof -
  have "fs_data (fs_sync_dir fs) = fs_data fs" "fs_synced (fs_sync_dir fs) = fs_synced fs"
    by (simp_all add: fs_sync_dir_def)
  with assms show ?thesis by (auto simp: possible_iff)
qed

lemma save_Inr:
  assumes wf: "store_wf path fs" and s: "save enc f path c fs = (Inr (), fs')"
  shows "\<exists>json i. enc c = Inr json \<and> fs_live fs' path = Some i \<and> fs_synced fs' i
    \<and> fs_data fs' i = json \<and> (fs_live fs (tmp_path path) = None \<longrightarrow> fs_mode fs' i = 384)
    \<and> (nonempty_parent path \<noteq> None \<longrightarrow> possible fs' path = {Some json})"
  using s
proof (cases rule: save_stages)
  case (renamed json fs1)
  note w = write_private_spec [OF wf renamed(2)]
  obtain i where i: "fs_live fs1 (tmp_path path) = Some i" "fs_synced fs1 i"
    "fs_data fs1 i = json" "fs_live fs (tmp_path path) = None \<longrightarrow> fs_mode fs1 i = 384"
    using w(4) [OF refl] by (elim exE conjE) (rule that)
  note q = rename_spec [OF w(1) i(1,2) renamed(4)]
  have "fs_data fs' i = json" "fs_synced fs' i" "fs_mode fs' i = fs_mode fs1 i"
    unfolding renamed(4) using i by simp_all
  moreover have "nonempty_parent path = None" using renamed(5) by simp
  ultimately show ?thesis
    using i(4) renamed(1) by (intro exI [of _ json] exI [of _ i] conjI q(3)) simp_all
next
  case (all_done json fs1)
  let ?fs2 = "fs1\<lparr>fs_journal := fs_journal fs1 @ [Rename (tmp_path path) path]\<rparr>"
  note w = write_private_spec [OF wf all_done(2)]
  obtain i where i: "fs_live fs1 (tmp_path path) = Some i" "fs_synced fs1 i"
    "fs_data fs1 i = json" "fs_live fs (tmp_path path) = None \<longrightarrow> fs_mode fs1 i = 384"
    using w(4) [OF refl] by (elim exE conjE) (rule that)
  note q = rename_spec [OF w(1) i(1,2) refl]
  have "possible fs' path = {Some json}"
    unfolding all_done(5) using possible_sync_dir [of ?fs2 path i, OF q(3)] i by simp
  moreover have "fs_live fs' path = Some i" unfolding all_done(5) fs_live_sync_dir by (rule q(3))
  moreover have "fs_data fs' i = json" "fs_synced fs' i" "fs_mode fs' i = fs_mode fs1 i"
    unfolding all_done(5) using i by (simp_all add: fs_sync_dir_def)
  ultimately show ?thesis
    using i(4) all_done(1) by (intro exI [of _ json] exI [of _ i] conjI) simp_all
next
  case early
  then show ?thesis by simp
next
  case no_write
  then show ?thesis by simp
next
  case no_rename
  then show ?thesis by simp
qed

subsection \<open>A reader, while the machine is up\<close>

lemma write_private_text:
  assumes wf: "store_wf path fs" and w: "write_private f (tmp_path path) json fs = (r, fs')"
  shows "file_text fs' path = file_text fs path"
proof -
  obtain i fs1 where o: "fs_open_private (tmp_path path) fs = (i, fs1)" by (cases "fs_open_private (tmp_path path) fs")
  note os = open_private_spec [OF wf o]
  have "fs_live fs1 path \<in> entries fs1 path" unfolding entries_def by (rule imageI [OF crash_dirs_live])
  with os(4,5) have i: "fs_live fs path \<noteq> Some i" by auto
  then have "file_text fs1 path = file_text fs path"
    using o os(5) by (cases "fs_live fs path")
      (auto simp: file_text_def fs_open_private_def Let_def split: option.splits)
  moreover have "fs' = fs \<or> (\<exists>t b. fs' = fs1\<lparr>fs_data := (fs_data fs1)(i := t), fs_synced := (fs_synced fs1)(i := b)\<rparr>)"
    using w o by (auto simp: write_private_def fs_write_def fs_sync_def split: option.splits)
  ultimately show ?thesis using i os(5) by (cases "fs_live fs path") (auto simp: file_text_def)
qed

lemma save_text:
  assumes wf: "store_wf path fs" and s: "save enc f path c fs = (r, fs')"
  shows "file_text fs' path = file_text fs path \<or> (\<exists>json. enc c = Inr json \<and> file_text fs' path = Some json)"
  using s
proof (cases rule: save_stages)
  case early
  then show ?thesis by simp
next
  case (no_write json e e')
  from write_private_text [OF wf no_write(3)] show ?thesis by simp
next
  case (no_rename json e)
  from write_private_text [OF wf no_rename(3)] show ?thesis by simp
next
  case (renamed json fs1)
  note w = write_private_spec [OF wf renamed(2)]
  obtain i where i: "fs_live fs1 (tmp_path path) = Some i" "fs_synced fs1 i" "fs_data fs1 i = json"
    using w(4) [OF refl] by blast
  with rename_spec(3) [OF w(1) i(1,2) renamed(4)] renamed(1,4) show ?thesis by (simp add: file_text_def)
next
  case (all_done json fs1)
  let ?fs2 = "fs1\<lparr>fs_journal := fs_journal fs1 @ [Rename (tmp_path path) path]\<rparr>"
  note w = write_private_spec [OF wf all_done(2)]
  obtain i where i: "fs_live fs1 (tmp_path path) = Some i" "fs_synced fs1 i" "fs_data fs1 i = json"
    using w(4) [OF refl] by blast
  have "fs_live fs' path = Some i" unfolding all_done(5) fs_live_sync_dir by (rule rename_spec(3) [OF w(1) i(1,2) refl])
  moreover have "fs_data fs' i = json" unfolding all_done(5) using i by (simp add: fs_sync_dir_def)
  ultimately show ?thesis using all_done(1) by (simp add: file_text_def)
qed

section \<open>Property of saving\<close>

text \<open>
  C4: saving is atomic. Wherever it stops, with an error, because the process was killed or the
  machine lost power at any operation, a reader finds the old contents of the state file or the
  new ones, never a part of either; and a save that succeeded leaves the new ones even after a
  crash, in a file only its owner can read if the temporary file was new. That the new ones
  survive a crash is for a path with a parent directory that is not the empty one.
\<close>

theorem save_atomic:
  assumes "store_wf path fs" and "save enc f path c fs = (r, fs')"
  shows "(file_text fs' path = file_text fs path \<or> (\<exists>json. enc c = Inr json \<and> file_text fs' path = Some json))
    \<and> possible fs' path \<subseteq> possible fs path \<union> {Some json | json. enc c = Inr json}
    \<and> (r = Inr () \<and> nonempty_parent path \<noteq> None \<longrightarrow> (\<exists>json. enc c = Inr json \<and> possible fs' path = {Some json}))
    \<and> (r = Inr () \<and> fs_live fs (tmp_path path) = None \<longrightarrow>
        (\<exists>i. fs_live fs' path = Some i \<and> fs_mode fs' i = 384))"
proof (intro conjI impI)
  show "file_text fs' path = file_text fs path \<or> (\<exists>json. enc c = Inr json \<and> file_text fs' path = Some json)"
    by (rule save_text [OF assms])
  show "possible fs' path \<subseteq> possible fs path \<union> {Some json | json. enc c = Inr json}"
    using save_spec [OF assms] by blast
  show "\<exists>json. enc c = Inr json \<and> possible fs' path = {Some json}"
    if "r = Inr () \<and> nonempty_parent path \<noteq> None"
    using that assms(2) save_Inr [OF assms(1)] by blast
  show "\<exists>i. fs_live fs' path = Some i \<and> fs_mode fs' i = 384"
    if "r = Inr () \<and> fs_live fs (tmp_path path) = None"
    using that assms(2) save_Inr [OF assms(1)] by blast
qed

text \<open>A state file under \<open>/var\<close>, on an empty disk.\<close>

definition state_path :: string where
  "state_path = ''/var/state.json''"

lemma state_path_paths: "tmp_path state_path = ''/var/state.json.tmp''" "nonempty_parent state_path = Some ''/var''"
  by code_simp+

lemma empty_store_wf: "store_wf state_path empty_fs"
  by (rule store_wf_empty) (simp add: state_path_paths, simp add: state_path_def)

lemma empty_possible: "possible empty_fs p = {None}"
proof -
  have "crash_dirs empty_fs = {fs_dir empty_fs}" by (simp add: crash_dirs_def empty_fs_def)
  then show ?thesis by (auto simp: possible_iff empty_fs_def)
qed

text \<open>A full disk: half of the text is in the temporary file, and the state file is as it was.\<close>

definition half_written :: faults where
  "half_written = no_faults\<lparr>f_write := Some (''No space left on device (os error 28)'', ''{'')\<rparr>"

theorem save_atomic_witness:
  "\<exists>fs'. save (\<lambda>c. Inr ''{}'') half_written state_path config_default empty_fs
      = (Inl ''/var/state.json.tmp: No space left on device (os error 28)'', fs')
    \<and> possible fs' state_path \<subseteq> {None, Some ''{}''} \<and> file_text fs' (tmp_path state_path) = Some ''{''"
proof -
  obtain r fs' where s: "save (\<lambda>c. Inr ''{}'') half_written state_path config_default empty_fs = (r, fs')"
    by fastforce
  then have "r = Inl ''/var/state.json.tmp: No space left on device (os error 28)''
      \<and> file_text fs' (tmp_path state_path) = Some ''{''"
    by (auto simp: save_def state_path_paths half_written_def no_faults_def failing_def map_errS_def bindS_def
        write_private_def fs_open_private_def fs_live_def empty_fs_def fs_write_def file_text_def Let_def)
  moreover have "possible fs' state_path \<subseteq> {None, Some ''{}''}"
    using save_atomic [OF empty_store_wf s] by (auto simp: empty_possible)
  ultimately show ?thesis using s by auto
qed

end
