(* ===== verification/Wgconf.thy ===== *)
theory Wgconf
  imports Rust_Str
begin

section \<open>The wg-quick parser (\<open>daemon/src/wgconf.rs\<close>)\<close>

text \<open>
  \<open>parse\<close> walks over the numbered lines with the open section, the \<open>[Interface]\<close> seen so
  far and the \<open>[Peer]\<close> sections seen so far, and then demands what a configuration needs.
  The two \<open>expect\<close> calls of the code are branches that end in \<open>Panic\<close>, so that the
  absence of a panic is a theorem; every other failure is \<open>Err\<close> with its message.
\<close>

datatype fail = Err string | Panic string

record parsed_config =
  pc_private_key :: string
  pc_addresses :: "string list"
  pc_dns :: "string list"
  pc_listen_port :: "u16 option"
  pc_mtu :: "u32 option"
  pc_public_key :: string
  pc_endpoint :: string
  pc_allowed_ips :: "string list"
  pc_preshared_key :: "string option"
  pc_keepalive :: "u16 option"

datatype conf_section = SecInterface | SecPeer

record iface =
  if_private_key :: "string option"
  if_addresses :: "string list"
  if_dns :: "string list"
  if_listen_port :: "u16 option"
  if_mtu :: "u32 option"

record peer_acc =
  pa_public_key :: "string option"
  pa_endpoint :: "string option"
  pa_allowed_ips :: "string list"
  pa_preshared_key :: "string option"
  pa_keepalive :: "u16 option"

definition iface_default :: iface where
  "iface_default = \<lparr>if_private_key = None, if_addresses = [], if_dns = [],
     if_listen_port = None, if_mtu = None\<rparr>"

definition peer_acc_default :: peer_acc where
  "peer_acc_default = \<lparr>pa_public_key = None, pa_endpoint = None, pa_allowed_ips = [],
     pa_preshared_key = None, pa_keepalive = None\<rparr>"

text \<open>The local variables of the loop.\<close>

record parse_state =
  st_iface :: "iface option"
  st_peers :: "peer_acc list"
  st_section :: "conf_section option"

definition csv :: "string \<Rightarrow> string list" where
  "csv value = filter (\<lambda>s. s \<noteq> []) (map trim (split_on CHR '','' value))"

definition at_line :: "nat \<Rightarrow> string" where
  "at_line line = ''line '' @ show_nat line @ '': ''"

definition set_scalar ::
  "string option \<Rightarrow> string \<Rightarrow> string \<Rightarrow> nat \<Rightarrow> fail + string option" where
  "set_scalar slot key value line =
     (if slot \<noteq> None then Inl (Err (at_line line @ ''duplicate '' @ quoted key))
      else Inr (Some value))"

definition parse_num ::
  "(string \<Rightarrow> 'a option) \<Rightarrow> string \<Rightarrow> string \<Rightarrow> nat \<Rightarrow> fail + 'a" where
  "parse_num from_str key value line =
     ok_or (from_str value)
       (Err (at_line line @ quoted key @ '' must be a number, got '' @ quoted value))"

definition line_content :: "string \<Rightarrow> string" where
  "line_content raw =
     (let no_cr = or_self (strip_suffix_char CHR 0x0D raw) raw
      in trim (before_char CHR ''#'' no_cr))"

definition section_header :: "string \<Rightarrow> string option" where
  "section_header content =
     (case strip_prefix_char CHR ''['' content of
        None \<Rightarrow> None
      | Some s \<Rightarrow> strip_suffix_char CHR '']'' s)"

definition open_section :: "string \<Rightarrow> parse_state \<Rightarrow> fail + parse_state" where
  "open_section inner st =
     (if eq_ignore_ascii_case inner ''interface''
      then (if st_iface st \<noteq> None then Inl (Err ''multiple [Interface] sections'')
            else Inr (st\<lparr>st_iface := Some iface_default, st_section := Some SecInterface\<rparr>))
      else if eq_ignore_ascii_case inner ''peer''
      then Inr (st\<lparr>st_peers := st_peers st @ [peer_acc_default], st_section := Some SecPeer\<rparr>)
      else Inl (Err (''unknown section '' @ quoted (''['' @ inner @ '']''))))"

definition interface_key :: "string \<Rightarrow> string \<Rightarrow> nat \<Rightarrow> iface \<Rightarrow> fail + iface" where
  "interface_key key value line f =
     (let key_lc = to_ascii_lowercase key
      in if key_lc = ''privatekey'' then
           bindR (set_scalar (if_private_key f) key value line)
             (\<lambda>v. Inr (f\<lparr>if_private_key := v\<rparr>))
         else if key_lc = ''address'' then Inr (f\<lparr>if_addresses := if_addresses f @ csv value\<rparr>)
         else if key_lc = ''dns'' then Inr (f\<lparr>if_dns := if_dns f @ csv value\<rparr>)
         else if key_lc = ''listenport'' then
           bindR (parse_num parse_u16 key value line) (\<lambda>v. Inr (f\<lparr>if_listen_port := Some v\<rparr>))
         else if key_lc = ''mtu'' then
           bindR (parse_num parse_u32 key value line) (\<lambda>v. Inr (f\<lparr>if_mtu := Some v\<rparr>))
         else Inr f)"

definition peer_key :: "string \<Rightarrow> string \<Rightarrow> nat \<Rightarrow> peer_acc \<Rightarrow> fail + peer_acc" where
  "peer_key key value line p =
     (let key_lc = to_ascii_lowercase key
      in if key_lc = ''publickey'' then
           bindR (set_scalar (pa_public_key p) key value line)
             (\<lambda>v. Inr (p\<lparr>pa_public_key := v\<rparr>))
         else if key_lc = ''endpoint'' then
           bindR (set_scalar (pa_endpoint p) key value line) (\<lambda>v. Inr (p\<lparr>pa_endpoint := v\<rparr>))
         else if key_lc = ''allowedips'' then
           Inr (p\<lparr>pa_allowed_ips := pa_allowed_ips p @ csv value\<rparr>)
         else if key_lc = ''presharedkey'' then
           bindR (set_scalar (pa_preshared_key p) key value line)
             (\<lambda>v. Inr (p\<lparr>pa_preshared_key := v\<rparr>))
         else if key_lc = ''persistentkeepalive'' then
           bindR (parse_num parse_u16 key value line) (\<lambda>v. Inr (p\<lparr>pa_keepalive := Some v\<rparr>))
         else Inr p)"

definition key_value :: "nat \<Rightarrow> string \<Rightarrow> parse_state \<Rightarrow> fail + parse_state" where
  "key_value line content st =
     (case split_once CHR ''='' content of
        None \<Rightarrow> Inl (Err (at_line line @ ''expected '' @ quoted ''key = value'' @ '', got ''
                   @ quoted content))
      | Some (k, v) \<Rightarrow>
          (let key = trim k; value = trim v
           in case st_section st of
                None \<Rightarrow> Inl (Err (at_line line @ quoted key @ '' appears before any section''))
              | Some SecInterface \<Rightarrow>
                  (case st_iface st of
                     None \<Rightarrow> Inl (Panic ''interface section started'')
                   | Some f \<Rightarrow> bindR (interface_key key value line f)
                       (\<lambda>f'. Inr (st\<lparr>st_iface := Some f'\<rparr>)))
              | Some SecPeer \<Rightarrow>
                  (if st_peers st = [] then Inl (Panic ''peer section started'')
                   else bindR (peer_key key value line (last (st_peers st)))
                     (\<lambda>p'. Inr (st\<lparr>st_peers := butlast (st_peers st) @ [p']\<rparr>)))))"

definition parse_line :: "nat \<Rightarrow> string \<Rightarrow> parse_state \<Rightarrow> fail + parse_state" where
  "parse_line line raw st =
     (let content = line_content raw
      in if content = [] then Inr st
         else (case section_header content of
                 Some inner \<Rightarrow> open_section (trim inner) st
               | None \<Rightarrow> key_value line content st))"

fun parse_lines :: "nat \<Rightarrow> string list \<Rightarrow> parse_state \<Rightarrow> fail + parse_state" where
  "parse_lines i [] st = Inr st"
| "parse_lines i (raw # raws) st = bindR (parse_line (i + 1) raw st) (parse_lines (i + 1) raws)"

definition finish :: "parse_state \<Rightarrow> fail + parsed_config" where
  "finish st =
     bindR (ok_or (st_iface st) (Err ''missing [Interface] section'')) (\<lambda>f.
       (case st_peers st of
          [] \<Rightarrow> Inl (Err ''missing [Peer] section'')
        | p # others \<Rightarrow>
            (if length (st_peers st) > 1
             then Inl (Err (''wirefinder supports one peer per config, found ''
                        @ show_nat (length (st_peers st))))
             else
               bindR (ok_or (if_private_key f) (Err ''[Interface]: missing PrivateKey'')) (\<lambda>private_key.
               if if_addresses f = [] then Inl (Err ''[Interface]: missing Address'')
               else
                 bindR (ok_or (pa_public_key p) (Err ''[Peer]: missing PublicKey'')) (\<lambda>public_key.
                 bindR (ok_or (pa_endpoint p) (Err ''[Peer]: missing Endpoint'')) (\<lambda>endpoint.
                 let allowed_ips =
                   (if pa_allowed_ips p = [] then [''0.0.0.0/0''] else pa_allowed_ips p)
                 in Inr \<lparr>pc_private_key = private_key, pc_addresses = if_addresses f,
                      pc_dns = if_dns f, pc_listen_port = if_listen_port f, pc_mtu = if_mtu f,
                      pc_public_key = public_key, pc_endpoint = endpoint,
                      pc_allowed_ips = allowed_ips, pc_preshared_key = pa_preshared_key p,
                      pc_keepalive = pa_keepalive p\<rparr>))))))"

definition parse_start :: parse_state where
  "parse_start = \<lparr>st_iface = None, st_peers = [], st_section = None\<rparr>"

definition parse :: "string \<Rightarrow> fail + parsed_config" where
  "parse text = bindR (parse_lines 0 (str_lines text) parse_start) finish"

subsection \<open>One line at a time\<close>

lemma parse_line_cases:
  assumes "parse_line i raw st = Inr st'"
  obtains (blank) "line_content raw = []" "st' = st"
  | (interface_header) inner where "section_header (line_content raw) = Some inner"
      "eq_ignore_ascii_case (trim inner) ''interface''" "st_iface st = None"
      "st' = st\<lparr>st_iface := Some iface_default, st_section := Some SecInterface\<rparr>"
  | (peer_header) inner where "section_header (line_content raw) = Some inner"
      "eq_ignore_ascii_case (trim inner) ''peer''"
      "st' = st\<lparr>st_peers := st_peers st @ [peer_acc_default], st_section := Some SecPeer\<rparr>"
  | (interface_value) k v f f' where "section_header (line_content raw) = None"
      "split_once CHR ''='' (line_content raw) = Some (k, v)" "st_iface st = Some f"
      "interface_key (trim k) (trim v) i f = Inr f'" "st' = st\<lparr>st_iface := Some f'\<rparr>"
  | (peer_value) k v p' where "section_header (line_content raw) = None"
      "split_once CHR ''='' (line_content raw) = Some (k, v)" "st_peers st \<noteq> []"
      "peer_key (trim k) (trim v) i (last (st_peers st)) = Inr p'"
      "st' = st\<lparr>st_peers := butlast (st_peers st) @ [p']\<rparr>"
proof (cases "line_content raw = []")
  case True
  with assms show thesis by (intro blank) (simp_all add: parse_line_def)
next
  case False
  note line = assms [unfolded parse_line_def Let_def, simplified False if_False]
  show thesis
  proof (cases "section_header (line_content raw)")
    case (Some inner)
    with line have "open_section (trim inner) st = Inr st'" by simp
    then consider "eq_ignore_ascii_case (trim inner) ''interface''" "st_iface st = None"
        "st\<lparr>st_iface := Some iface_default, st_section := Some SecInterface\<rparr> = st'"
      | "eq_ignore_ascii_case (trim inner) ''peer''"
        "st\<lparr>st_peers := st_peers st @ [peer_acc_default], st_section := Some SecPeer\<rparr> = st'"
      unfolding open_section_def by (simp split: if_splits)
    then show thesis using interface_header peer_header Some by cases blast+
  next
    case None
    with line have kv: "key_value i (line_content raw) st = Inr st'" by simp
    then obtain k v where s: "split_once CHR ''='' (line_content raw) = Some (k, v)"
      by (auto simp: key_value_def split: option.splits)
    from kv s obtain sec where sec: "st_section st = Some sec"
      by (cases "st_section st") (simp_all add: key_value_def)
    show thesis
    proof (cases sec)
      case SecInterface
      with kv s sec obtain f f' where "st_iface st = Some f"
        "interface_key (trim k) (trim v) i f = Inr f'" "st\<lparr>st_iface := Some f'\<rparr> = st'"
        by (cases "st_iface st") (auto simp: key_value_def)
      then show thesis using interface_value None s by blast
    next
      case SecPeer
      with kv s sec obtain p' where "st_peers st \<noteq> []"
        "peer_key (trim k) (trim v) i (last (st_peers st)) = Inr p'"
        "st\<lparr>st_peers := butlast (st_peers st) @ [p']\<rparr> = st'"
        by (auto simp: key_value_def split: if_splits)
      then show thesis using peer_value None s by blast
    qed
  qed
qed

lemma parse_lines_inv:
  assumes step: "\<And>i raw st st'. raw \<in> R \<Longrightarrow> P st \<Longrightarrow> parse_line i raw st = Inr st' \<Longrightarrow> P st'"
  shows "set raws \<subseteq> R \<Longrightarrow> P st \<Longrightarrow> parse_lines i raws st = Inr st' \<Longrightarrow> P st'"
proof (induction i raws st rule: parse_lines.induct)
  case 1
  then show ?case by simp
next
  case (2 i raw raws st)
  then show ?case using step by fastforce
qed

lemma parse_lines_append:
  "parse_lines i (xs @ ys) st = bindR (parse_lines i xs st) (parse_lines (i + length xs) ys)"
proof (induction i xs st rule: parse_lines.induct)
  case 1
  then show ?case by simp
next
  case (2 i raw raws st)
  then show ?case by (cases "parse_line (i + 1) raw st") simp_all
qed

subsection \<open>The parser never panics\<close>

definition section_open :: "parse_state \<Rightarrow> bool" where
  "section_open st \<longleftrightarrow> (st_section st = Some SecInterface \<longrightarrow> st_iface st \<noteq> None)
     \<and> (st_section st = Some SecPeer \<longrightarrow> st_peers st \<noteq> [])"

definition no_panic :: "fail + 'a \<Rightarrow> bool" where
  "no_panic r \<longleftrightarrow> (\<forall>m. r \<noteq> Inl (Panic m))"

lemma no_panic_simps [simp]:
  "no_panic (Inr x)" "no_panic (Inl (Err e))" "\<not> no_panic (Inl (Panic m))"
  by (simp_all add: no_panic_def)

lemma no_panic_bindR:
  "no_panic r \<Longrightarrow> (\<And>x. r = Inr x \<Longrightarrow> no_panic (f x)) \<Longrightarrow> no_panic (bindR r f)"
  by (cases r) (auto simp: no_panic_def)

lemma no_panic_ok_or: "no_panic (ok_or x (Err e))"
  by (cases x) simp_all

lemma section_open_step:
  "section_open st \<Longrightarrow> parse_line i raw st = Inr st' \<Longrightarrow> section_open st'"
  by (erule parse_line_cases) (auto simp: section_open_def)

lemma interface_key_no_panic: "no_panic (interface_key k v i f)"
  by (auto simp: interface_key_def set_scalar_def parse_num_def Let_def
      intro!: no_panic_bindR no_panic_ok_or)

lemma peer_key_no_panic: "no_panic (peer_key k v i p)"
  by (auto simp: peer_key_def set_scalar_def parse_num_def Let_def
      intro!: no_panic_bindR no_panic_ok_or)

lemma parse_line_no_panic: "section_open st \<Longrightarrow> no_panic (parse_line i raw st)"
  by (auto simp: parse_line_def open_section_def key_value_def Let_def section_open_def
      interface_key_no_panic peer_key_no_panic
      split: option.splits conf_section.splits intro!: no_panic_bindR)

lemma parse_lines_no_panic: "section_open st \<Longrightarrow> no_panic (parse_lines i raws st)"
proof (induction i raws st rule: parse_lines.induct)
  case 1
  then show ?case by simp
next
  case (2 i raw raws st)
  show ?case
    unfolding parse_lines.simps
    by (rule no_panic_bindR [OF parse_line_no_panic [OF 2(2)]])
      (rule 2(1), use 2(2) section_open_step in blast)
qed

lemma finish_no_panic: "no_panic (finish st)"
  by (auto simp: finish_def Let_def intro!: no_panic_bindR no_panic_ok_or split: list.splits)

lemma parse_no_panic_aux: "no_panic (parse text)"
  unfolding parse_def
  by (intro no_panic_bindR finish_no_panic parse_lines_no_panic)
    (simp add: section_open_def parse_start_def)

subsection \<open>What a parsed configuration contains\<close>

text \<open>A value that fits on a line of a configuration, and an element of a list of values.\<close>

definition conf_value :: "string \<Rightarrow> bool" where
  "conf_value v \<longleftrightarrow> trimmed v \<and> CHR ''#'' \<notin> set v \<and> CHR 0x0A \<notin> set v"

definition conf_item :: "string \<Rightarrow> bool" where
  "conf_item v \<longleftrightarrow> conf_value v \<and> v \<noteq> [] \<and> CHR '','' \<notin> set v"

definition conf_ok :: "parsed_config \<Rightarrow> bool" where
  "conf_ok c \<longleftrightarrow> conf_value (pc_private_key c) \<and> conf_value (pc_public_key c)
     \<and> conf_value (pc_endpoint c) \<and> pred_option conf_value (pc_preshared_key c)
     \<and> list_all conf_item (pc_addresses c) \<and> pc_addresses c \<noteq> []
     \<and> list_all conf_item (pc_dns c)
     \<and> list_all conf_item (pc_allowed_ips c) \<and> pc_allowed_ips c \<noteq> []"

definition iface_values :: "iface \<Rightarrow> bool" where
  "iface_values f \<longleftrightarrow> pred_option conf_value (if_private_key f)
     \<and> list_all conf_item (if_addresses f) \<and> list_all conf_item (if_dns f)"

definition peer_values :: "peer_acc \<Rightarrow> bool" where
  "peer_values p \<longleftrightarrow> pred_option conf_value (pa_public_key p)
     \<and> pred_option conf_value (pa_endpoint p) \<and> pred_option conf_value (pa_preshared_key p)
     \<and> list_all conf_item (pa_allowed_ips p)"

definition state_values :: "parse_state \<Rightarrow> bool" where
  "state_values st \<longleftrightarrow> pred_option iface_values (st_iface st) \<and> list_all peer_values (st_peers st)"

lemma csv_items: "conf_value v \<Longrightarrow> list_all conf_item (csv v)"
  using set_trim_subset split_on_subset [of _ "CHR '',''" v] split_on_pieces [of _ "CHR '',''" v]
  by (fastforce simp: csv_def list_all_iff conf_item_def conf_value_def)

lemma interface_key_values:
  "conf_value v \<Longrightarrow> iface_values f \<Longrightarrow> interface_key k v i f = Inr f' \<Longrightarrow> iface_values f'"
  using csv_items [of v]
  by (auto simp: interface_key_def set_scalar_def parse_num_def Let_def iface_values_def
      split: if_splits)

lemma peer_key_values:
  "conf_value v \<Longrightarrow> peer_values p \<Longrightarrow> peer_key k v i p = Inr p' \<Longrightarrow> peer_values p'"
  using csv_items [of v]
  by (auto simp: peer_key_def set_scalar_def parse_num_def Let_def peer_values_def
      split: if_splits)

lemma line_content_chars:
  "CHR ''#'' \<notin> set (line_content raw)" "set (line_content raw) \<subseteq> set raw"
proof -
  let ?n = "or_self (strip_suffix_char CHR 0x0D raw) raw"
  have n: "set ?n \<subseteq> set raw"
    by (auto simp: or_self_def strip_suffix_char_def dest: in_set_butlastD)
  have t: "set (line_content raw) \<subseteq> set (takeWhile (\<lambda>x. x \<noteq> CHR ''#'') ?n)"
    unfolding line_content_def before_char_def Let_def by (rule set_trim_subset)
  from t show "CHR ''#'' \<notin> set (line_content raw)" by (auto dest: set_takeWhileD)
  from t n show "set (line_content raw) \<subseteq> set raw" by (auto dest!: set_takeWhileD)
qed

lemma split_value:
  assumes "split_once CHR ''='' (line_content raw) = Some (k, v)" "CHR 0x0A \<notin> set raw"
  shows "conf_value (trim v)"
proof -
  have "set v \<subseteq> set (line_content raw)" using split_once_SomeD [OF assms(1)] by auto
  with assms(2) line_content_chars [of raw] set_trim_subset [of v] show ?thesis
    by (auto simp: conf_value_def)
qed

lemma state_values_step:
  assumes "CHR 0x0A \<notin> set raw" "state_values st" "parse_line i raw st = Inr st'"
  shows "state_values st'"
  using assms(3)
proof (cases rule: parse_line_cases)
  case (interface_value k v f f')
  with assms(1,2) show ?thesis
    using interface_key_values [of "trim v" f "trim k" i f'] split_value [of raw k v]
    by (simp add: state_values_def)
next
  case (peer_value k v p')
  have "list_all peer_values (butlast (st_peers st)) \<and> peer_values (last (st_peers st))"
    using assms(2) peer_value(3) by (auto simp: state_values_def list_all_iff dest: in_set_butlastD)
  with assms(1,2) peer_value show ?thesis
    using peer_key_values [of "trim v" "last (st_peers st)" "trim k" i p'] split_value [of raw k v]
    by (simp add: state_values_def)
qed (use assms(2) in \<open>simp_all add: state_values_def iface_values_def iface_default_def
    peer_values_def peer_acc_default_def\<close>)

lemma finish_cases:
  assumes "finish st = Inr c"
  obtains f p priv pub ep where "st_iface st = Some f" "st_peers st = [p]"
    "if_private_key f = Some priv" "if_addresses f \<noteq> []"
    "pa_public_key p = Some pub" "pa_endpoint p = Some ep"
    "c = \<lparr>pc_private_key = priv, pc_addresses = if_addresses f,
       pc_dns = if_dns f, pc_listen_port = if_listen_port f, pc_mtu = if_mtu f,
       pc_public_key = pub, pc_endpoint = ep,
       pc_allowed_ips = (if pa_allowed_ips p = [] then [''0.0.0.0/0''] else pa_allowed_ips p),
       pc_preshared_key = pa_preshared_key p, pc_keepalive = pa_keepalive p\<rparr>"
proof -
  from assms obtain f where f: "st_iface st = Some f"
    by (cases "st_iface st") (simp_all add: finish_def)
  from assms f obtain p ps where "st_peers st = p # ps"
    by (cases "st_peers st") (simp_all add: finish_def)
  with assms f have p: "st_peers st = [p]"
    by (cases ps) (simp_all add: finish_def)
  from assms f p obtain priv where k: "if_private_key f = Some priv"
    by (auto simp: finish_def)
  from assms f p k have a: "if_addresses f \<noteq> []"
    by (auto simp: finish_def)
  from assms f p k a obtain pub ep where "pa_public_key p = Some pub" "pa_endpoint p = Some ep"
    by (auto simp: finish_def)
  with assms f p k a show thesis
    by (intro that [of f p priv pub ep]) (simp_all add: finish_def Let_def)
qed

lemma default_route_item: "conf_item ''0.0.0.0/0''"
  by (simp add: conf_item_def conf_value_def trimmed_graphic graphic_def)

lemma parse_values:
  assumes "parse text = Inr c"
  shows "conf_ok c"
proof -
  from assms obtain st where st: "parse_lines 0 (str_lines text) parse_start = Inr st"
    and fin: "finish st = Inr c"
    by (auto simp: parse_def)
  have "state_values parse_start" by (simp add: state_values_def parse_start_def)
  with st have "state_values st"
    using parse_lines_inv [where P = state_values and R = "{l. CHR 0x0A \<notin> set l}"]
      state_values_step str_lines_no_lf by (metis (no_types, lifting) mem_Collect_eq subsetI)
  from fin show ?thesis
  proof (cases rule: finish_cases)
    case (1 f p priv pub ep)
    then have "iface_values f" "peer_values p" using \<open>state_values st\<close>
      by (simp_all add: state_values_def)
    then show ?thesis
      using 1(3-6) default_route_item by (simp add: 1(7) conf_ok_def iface_values_def peer_values_def)
  qed
qed

subsection \<open>Printing a configuration, and parsing it back\<close>

text \<open>
  The wg-quick text of a parsed configuration. The repository only reads such files; the
  printer is the specification against which the parser is lossless.
\<close>

definition conf_line :: "string \<Rightarrow> string \<Rightarrow> string" where
  "conf_line k v = k @ CHR ''='' # v"

definition list_line :: "string \<Rightarrow> string list \<Rightarrow> string list" where
  "list_line k vs = (if vs = [] then [] else [conf_line k (join '','' vs)])"

definition option_line :: "string \<Rightarrow> string option \<Rightarrow> string list" where
  "option_line k v = (case v of None \<Rightarrow> [] | Some x \<Rightarrow> [conf_line k x])"

definition render_lines :: "parsed_config \<Rightarrow> string list" where
  "render_lines c =
     [''[Interface]'', conf_line ''PrivateKey'' (pc_private_key c)]
     @ list_line ''Address'' (pc_addresses c) @ list_line ''DNS'' (pc_dns c)
     @ option_line ''ListenPort'' (map_option (\<lambda>p. show_nat (unat p)) (pc_listen_port c))
     @ option_line ''MTU'' (map_option (\<lambda>m. show_nat (unat m)) (pc_mtu c))
     @ [''[Peer]'', conf_line ''PublicKey'' (pc_public_key c),
        conf_line ''Endpoint'' (pc_endpoint c)]
     @ list_line ''AllowedIPs'' (pc_allowed_ips c)
     @ option_line ''PresharedKey'' (pc_preshared_key c)
     @ option_line ''PersistentKeepalive'' (map_option (\<lambda>k. show_nat (unat k)) (pc_keepalive c))"

definition render_conf :: "parsed_config \<Rightarrow> string" where
  "render_conf c = concat (map (\<lambda>l. l @ [CHR 0x0A]) (render_lines c))"

text \<open>A key as the printer writes it: graphic, and free of the syntax of the file.\<close>

definition plain_key :: "string \<Rightarrow> bool" where
  "plain_key k \<longleftrightarrow> k \<noteq> [] \<and> list_all (\<lambda>c. graphic c \<and> c \<notin> {CHR ''['', CHR ''='', CHR ''#''}) k"

lemma plain_keyD:
  assumes "plain_key k"
  shows "k \<noteq> []" "graphic (hd k)" "graphic (last k)" "CHR ''='' \<notin> set k" "CHR ''#'' \<notin> set k"
    "CHR 0x0A \<notin> set k" "hd k \<noteq> CHR ''[''"
proof -
  show "k \<noteq> []" using assms by (simp add: plain_key_def)
  then have "hd k \<in> set k" "last k \<in> set k" by simp_all
  moreover have all: "\<And>c. c \<in> set k \<Longrightarrow> graphic c" "\<And>c. c \<in> set k \<Longrightarrow> c \<notin> {CHR ''['', CHR ''='', CHR ''#''}"
    using assms by (simp_all add: plain_key_def list_all_iff)
  ultimately show "graphic (hd k)" "graphic (last k)" "hd k \<noteq> CHR ''[''" by blast+
  show "CHR ''='' \<notin> set k" "CHR ''#'' \<notin> set k" using all(2) by blast+
  have "\<not> graphic CHR 0x0A" by (simp add: graphic_def)
  then show "CHR 0x0A \<notin> set k" using all(1) by blast
qed

lemma conf_line_value:
  assumes "plain_key k" "conf_value v"
  shows "conf_value (conf_line k v)"
  using plain_keyD [OF assms(1)] assms(2) trimmed_append [of k "CHR ''=''" v]
  by (auto simp: conf_value_def conf_line_def graphic_def)

lemma line_content_value: "conf_value l \<Longrightarrow> line_content l = l"
  by (simp add: conf_value_def line_content_def strip_cr_trimmed before_char_id trim_trimmed)

lemma parse_conf_line:
  assumes "plain_key k" "conf_value v"
  shows "parse_line i (conf_line k v) st =
    (case st_section st of
       None \<Rightarrow> Inl (Err (at_line i @ quoted k @ '' appears before any section''))
     | Some SecInterface \<Rightarrow>
         (case st_iface st of
            None \<Rightarrow> Inl (Panic ''interface section started'')
          | Some f \<Rightarrow> bindR (interface_key k v i f) (\<lambda>f'. Inr (st\<lparr>st_iface := Some f'\<rparr>)))
     | Some SecPeer \<Rightarrow>
         (if st_peers st = [] then Inl (Panic ''peer section started'')
          else bindR (peer_key k v i (last (st_peers st)))
            (\<lambda>p'. Inr (st\<lparr>st_peers := butlast (st_peers st) @ [p']\<rparr>))))"
proof -
  note k = plain_keyD [OF assms(1)]
  have "line_content (conf_line k v) = conf_line k v"
    using conf_line_value [OF assms] by (rule line_content_value)
  moreover have "section_header (conf_line k v) = None"
    using k(1,7) by (cases k) (simp_all add: section_header_def strip_prefix_char_def conf_line_def)
  moreover have "split_once CHR ''='' (conf_line k v) = Some (k, v)"
    using k(4) by (simp add: conf_line_def split_once_append)
  moreover have "trim k = k" "trim v = v"
    using k assms(2) by (simp_all add: trim_graphic conf_value_def trim_trimmed)
  ultimately show ?thesis
    using k(1) by (simp add: parse_line_def key_value_def conf_line_def)
qed

lemma csv_join:
  assumes "list_all conf_item vs" "vs \<noteq> []"
  shows "csv (join '','' vs) = vs"
proof -
  have "split_on CHR '','' (join '','' vs) = vs"
    using assms by (intro split_on_join) (auto simp: list_all_iff conf_item_def)
  moreover have "map trim vs = vs" "filter (\<lambda>s. s \<noteq> []) vs = vs"
    using assms(1) by (auto simp: list_all_iff conf_item_def conf_value_def trim_trimmed
        intro: map_idI filter_True)
  ultimately show ?thesis by (simp add: csv_def)
qed

lemma join_value:
  assumes "list_all conf_item vs"
  shows "conf_value (join '','' vs)"
  using assms
proof (induction vs)
  case Nil
  then show ?case by (simp add: join_def conf_value_def trimmed_iff)
next
  case (Cons v vs)
  show ?case
  proof (cases vs)
    case Nil
    with Cons.prems show ?thesis by (simp add: join_def conf_item_def)
  next
    case (Cons w ws)
    have j: "join '','' (v # vs) = v @ CHR '','' # join '','' vs"
      by (simp add: join_def Cons)
    have v: "conf_value v" "v \<noteq> []" using Cons.prems by (simp_all add: conf_item_def)
    have t: "conf_value (join '','' vs)" using Cons.IH Cons.prems by simp
    have "trimmed (v @ CHR '','' # join '','' vs)"
      using v t by (intro trimmed_around) (simp_all add: conf_value_def graphic_def)
    with v t show ?thesis unfolding j by (simp add: conf_value_def)
  qed
qed

lemma show_nat_value: "conf_value (show_nat n)"
  using show_nat_graphic [of n] show_nat_digits [of n] trim_show_nat [of n]
  by (auto simp: conf_value_def trimmed_iff graphic_def list_all_iff is_digit_def digit_value_def
      Let_def)

lemma render_lines_values:
  assumes "conf_ok c"
  shows "\<forall>l \<in> set (render_lines c). conf_value l"
proof -
  have h: "conf_value ''[Interface]''" "conf_value ''[Peer]''"
    by (simp_all add: conf_value_def trimmed_graphic graphic_def)
  have k: "plain_key ''PrivateKey''" "plain_key ''Address''" "plain_key ''DNS''"
    "plain_key ''ListenPort''" "plain_key ''MTU''" "plain_key ''PublicKey''"
    "plain_key ''Endpoint''" "plain_key ''AllowedIPs''" "plain_key ''PresharedKey''"
    "plain_key ''PersistentKeepalive''"
    by (simp_all add: plain_key_def graphic_def)
  show ?thesis
    using assms h
    by (cases "pc_preshared_key c") (auto simp: render_lines_def list_line_def option_line_def conf_ok_def
        intro!: conf_line_value k join_value show_nat_value split: option.splits if_splits)
qed

lemma str_lines_render: "conf_ok c \<Longrightarrow> str_lines (render_conf c) = render_lines c"
  unfolding render_conf_def
  using render_lines_values [of c] by (intro str_lines_concat) (auto simp: conf_value_def)

text \<open>The lines take one state to another, whatever their numbers.\<close>

definition runs :: "string list \<Rightarrow> parse_state \<Rightarrow> parse_state \<Rightarrow> bool" where
  "runs ls st st' \<longleftrightarrow> (\<forall>i. parse_lines i ls st = Inr st')"

lemma runs_append: "runs xs st st' \<Longrightarrow> runs ys st' st'' \<Longrightarrow> runs (xs @ ys) st st''"
  by (simp add: runs_def parse_lines_append)

lemma runs_Nil: "runs [] st st"
  by (simp add: runs_def)

definition in_interface :: "iface \<Rightarrow> peer_acc list \<Rightarrow> parse_state" where
  "in_interface f ps = \<lparr>st_iface = Some f, st_peers = ps, st_section = Some SecInterface\<rparr>"

definition in_peer :: "iface \<Rightarrow> peer_acc \<Rightarrow> parse_state" where
  "in_peer f p = \<lparr>st_iface = Some f, st_peers = [p], st_section = Some SecPeer\<rparr>"

lemma header_content:
  "line_content ''[Interface]'' = ''[Interface]''" "line_content ''[Peer]'' = ''[Peer]''"
  by (rule line_content_value, simp add: conf_value_def trimmed_graphic graphic_def)+

lemma header_names:
  "eq_ignore_ascii_case ''Interface'' ''interface''" "eq_ignore_ascii_case ''Peer'' ''peer''"
  "\<not> eq_ignore_ascii_case ''Peer'' ''interface''"
  by code_simp+

lemma header_runs:
  "runs [''[Interface]''] parse_start (in_interface iface_default [])"
  "runs [''[Peer]''] (in_interface f []) (in_peer f peer_acc_default)"
  by (simp_all add: runs_def parse_line_def header_content section_header_def
      strip_prefix_char_def strip_suffix_char_def open_section_def trim_graphic graphic_def
      header_names parse_start_def in_interface_def in_peer_def)

lemma interface_runs:
  assumes "plain_key k" "conf_value v" "\<And>i. interface_key k v i f = Inr f'"
  shows "runs [conf_line k v] (in_interface f []) (in_interface f' [])"
  using assms by (simp add: runs_def parse_conf_line in_interface_def)

lemma peer_runs:
  assumes "plain_key k" "conf_value v" "\<And>i. peer_key k v i p = Inr p'"
  shows "runs [conf_line k v] (in_peer f p) (in_peer f p')"
  using assms by (simp add: runs_def parse_conf_line in_peer_def)

lemma key_lower:
  "to_ascii_lowercase ''PrivateKey'' = ''privatekey''" "to_ascii_lowercase ''Address'' = ''address''"
  "to_ascii_lowercase ''DNS'' = ''dns''" "to_ascii_lowercase ''ListenPort'' = ''listenport''"
  "to_ascii_lowercase ''MTU'' = ''mtu''" "to_ascii_lowercase ''PublicKey'' = ''publickey''"
  "to_ascii_lowercase ''Endpoint'' = ''endpoint''"
  "to_ascii_lowercase ''AllowedIPs'' = ''allowedips''"
  "to_ascii_lowercase ''PresharedKey'' = ''presharedkey''"
  "to_ascii_lowercase ''PersistentKeepalive'' = ''persistentkeepalive''"
  by code_simp+

lemma plain_keys:
  "plain_key ''PrivateKey''" "plain_key ''Address''" "plain_key ''DNS''"
  "plain_key ''ListenPort''" "plain_key ''MTU''" "plain_key ''PublicKey''"
  "plain_key ''Endpoint''" "plain_key ''AllowedIPs''" "plain_key ''PresharedKey''"
  "plain_key ''PersistentKeepalive''"
  by (simp_all add: plain_key_def graphic_def)

lemma interface_lines_run:
  assumes "conf_ok c"
  shows "runs ([conf_line ''PrivateKey'' (pc_private_key c)]
      @ list_line ''Address'' (pc_addresses c) @ list_line ''DNS'' (pc_dns c)
      @ option_line ''ListenPort'' (map_option (\<lambda>p. show_nat (unat p)) (pc_listen_port c))
      @ option_line ''MTU'' (map_option (\<lambda>m. show_nat (unat m)) (pc_mtu c)))
    (in_interface iface_default [])
    (in_interface \<lparr>if_private_key = Some (pc_private_key c), if_addresses = pc_addresses c,
       if_dns = pc_dns c, if_listen_port = pc_listen_port c, if_mtu = pc_mtu c\<rparr> [])"
proof (intro runs_append)
  note c = assms [unfolded conf_ok_def]
  show "runs [conf_line ''PrivateKey'' (pc_private_key c)] (in_interface iface_default [])
      (in_interface (iface_default\<lparr>if_private_key := Some (pc_private_key c)\<rparr>) [])"
    using c by (intro interface_runs plain_keys)
      (simp_all add: interface_key_def key_lower set_scalar_def iface_default_def)
  show "runs (list_line ''Address'' (pc_addresses c))
      (in_interface (iface_default\<lparr>if_private_key := Some (pc_private_key c)\<rparr>) [])
      (in_interface (iface_default\<lparr>if_private_key := Some (pc_private_key c),
         if_addresses := pc_addresses c\<rparr>) [])"
    using c by (auto simp: list_line_def interface_key_def key_lower csv_join iface_default_def
        intro!: interface_runs plain_keys join_value)
  show "runs (list_line ''DNS'' (pc_dns c))
      (in_interface (iface_default\<lparr>if_private_key := Some (pc_private_key c),
         if_addresses := pc_addresses c\<rparr>) [])
      (in_interface (iface_default\<lparr>if_private_key := Some (pc_private_key c),
         if_addresses := pc_addresses c, if_dns := pc_dns c\<rparr>) [])"
    using c by (auto simp: list_line_def interface_key_def key_lower csv_join iface_default_def
        intro!: interface_runs plain_keys join_value runs_Nil)
  show "runs (option_line ''ListenPort'' (map_option (\<lambda>p. show_nat (unat p)) (pc_listen_port c)))
      (in_interface (iface_default\<lparr>if_private_key := Some (pc_private_key c),
         if_addresses := pc_addresses c, if_dns := pc_dns c\<rparr>) [])
      (in_interface (iface_default\<lparr>if_private_key := Some (pc_private_key c),
         if_addresses := pc_addresses c, if_dns := pc_dns c,
         if_listen_port := pc_listen_port c\<rparr>) [])"
    by (cases "pc_listen_port c")
      (auto simp: option_line_def interface_key_def key_lower parse_num_def iface_default_def
        intro!: interface_runs plain_keys show_nat_value runs_Nil)
  show "runs (option_line ''MTU'' (map_option (\<lambda>m. show_nat (unat m)) (pc_mtu c)))
      (in_interface (iface_default\<lparr>if_private_key := Some (pc_private_key c),
         if_addresses := pc_addresses c, if_dns := pc_dns c,
         if_listen_port := pc_listen_port c\<rparr>) [])
      (in_interface \<lparr>if_private_key = Some (pc_private_key c), if_addresses = pc_addresses c,
       if_dns = pc_dns c, if_listen_port = pc_listen_port c, if_mtu = pc_mtu c\<rparr> [])"
    by (cases "pc_mtu c")
      (auto simp: option_line_def interface_key_def key_lower parse_num_def iface_default_def
        intro!: interface_runs plain_keys show_nat_value runs_Nil)
qed

lemma peer_lines_run:
  assumes "conf_ok c"
  shows "runs ([conf_line ''PublicKey'' (pc_public_key c), conf_line ''Endpoint'' (pc_endpoint c)]
      @ list_line ''AllowedIPs'' (pc_allowed_ips c)
      @ option_line ''PresharedKey'' (pc_preshared_key c)
      @ option_line ''PersistentKeepalive'' (map_option (\<lambda>k. show_nat (unat k)) (pc_keepalive c)))
    (in_peer f peer_acc_default)
    (in_peer f \<lparr>pa_public_key = Some (pc_public_key c), pa_endpoint = Some (pc_endpoint c),
       pa_allowed_ips = pc_allowed_ips c, pa_preshared_key = pc_preshared_key c,
       pa_keepalive = pc_keepalive c\<rparr>)"
proof -
  note c = assms [unfolded conf_ok_def]
  let ?p1 = "peer_acc_default\<lparr>pa_public_key := Some (pc_public_key c)\<rparr>"
  let ?p2 = "?p1\<lparr>pa_endpoint := Some (pc_endpoint c)\<rparr>"
  let ?p3 = "?p2\<lparr>pa_allowed_ips := pc_allowed_ips c\<rparr>"
  let ?p4 = "?p3\<lparr>pa_preshared_key := pc_preshared_key c\<rparr>"
  have 1: "runs [conf_line ''PublicKey'' (pc_public_key c)] (in_peer f peer_acc_default) (in_peer f ?p1)"
    using c by (intro peer_runs plain_keys)
      (simp_all add: peer_key_def key_lower set_scalar_def peer_acc_default_def)
  have 2: "runs [conf_line ''Endpoint'' (pc_endpoint c)] (in_peer f ?p1) (in_peer f ?p2)"
    using c by (intro peer_runs plain_keys)
      (simp_all add: peer_key_def key_lower set_scalar_def peer_acc_default_def)
  have 3: "runs (list_line ''AllowedIPs'' (pc_allowed_ips c)) (in_peer f ?p2) (in_peer f ?p3)"
    using c by (auto simp: list_line_def peer_key_def key_lower csv_join peer_acc_default_def
        intro!: peer_runs plain_keys join_value)
  have 4: "runs (option_line ''PresharedKey'' (pc_preshared_key c)) (in_peer f ?p3) (in_peer f ?p4)"
    using c by (cases "pc_preshared_key c")
      (auto simp: option_line_def peer_key_def key_lower set_scalar_def peer_acc_default_def
        intro!: peer_runs plain_keys runs_Nil)
  have 5: "runs (option_line ''PersistentKeepalive'' (map_option (\<lambda>k. show_nat (unat k)) (pc_keepalive c)))
     (in_peer f ?p4)
     (in_peer f \<lparr>pa_public_key = Some (pc_public_key c), pa_endpoint = Some (pc_endpoint c),
       pa_allowed_ips = pc_allowed_ips c, pa_preshared_key = pc_preshared_key c,
       pa_keepalive = pc_keepalive c\<rparr>)"
    by (cases "pc_keepalive c")
      (auto simp: option_line_def peer_key_def key_lower parse_num_def peer_acc_default_def
        intro!: peer_runs plain_keys show_nat_value runs_Nil)
  from runs_append [OF 1 runs_append [OF 2 runs_append [OF 3 runs_append [OF 4 5]]]]
  show ?thesis by simp
qed

lemma parse_render:
  assumes "conf_ok c"
  shows "parse (render_conf c) = Inr c"
proof -
  note r = runs_append [OF header_runs(1) runs_append [OF interface_lines_run [OF assms]
        runs_append [OF header_runs(2) peer_lines_run [OF assms]]]]
  let ?f = "\<lparr>if_private_key = Some (pc_private_key c), if_addresses = pc_addresses c,
       if_dns = pc_dns c, if_listen_port = pc_listen_port c, if_mtu = pc_mtu c\<rparr>"
  let ?p = "\<lparr>pa_public_key = Some (pc_public_key c), pa_endpoint = Some (pc_endpoint c),
       pa_allowed_ips = pc_allowed_ips c, pa_preshared_key = pc_preshared_key c,
       pa_keepalive = pc_keepalive c\<rparr>"
  have "parse_lines 0 (render_lines c) parse_start = Inr (in_peer ?f ?p)"
    using r by (simp add: runs_def render_lines_def)
  moreover have "finish (in_peer ?f ?p) = Inr c"
    using assms by (simp add: finish_def in_peer_def conf_ok_def)
  ultimately show ?thesis by (simp add: parse_def str_lines_render [OF assms])
qed

subsection \<open>Only the contents of the lines matter\<close>

text \<open>
  The step after comment and blanks are gone; errors mention the line number, which is the
  same on both sides.
\<close>

lemma parse_line_content: "line_content a = line_content b \<Longrightarrow> parse_line i a st = parse_line i b st"
  by (simp add: parse_line_def)

lemma parse_lines_content:
  "map line_content as = map line_content bs \<Longrightarrow> parse_lines i as st = parse_lines i bs st"
proof (induction as arbitrary: bs i st)
  case Nil
  then show ?case by simp
next
  case (Cons a as)
  then obtain b bs' where b: "bs = b # bs'" "line_content a = line_content b"
    "map line_content as = map line_content bs'" by auto
  have "parse_lines (i + 1) as = parse_lines (i + 1) bs'"
    using Cons.IH [OF b(3)] by (simp add: fun_eq_iff)
  with b show ?case by (simp add: parse_line_content [OF b(2)])
qed

lemma parse_content:
  "map line_content (str_lines s) = map line_content (str_lines t) \<Longrightarrow> parse s = parse t"
  using parse_lines_content [of "str_lines s" "str_lines t" 0 parse_start] by (simp add: parse_def)

lemma before_char_cr:
  "before_char c (s @ [CHR 0x0D]) = (if c \<in> set s \<or> c = CHR 0x0D then before_char c s
    else s @ [CHR 0x0D])"
  by (induction s) (auto simp: before_char_def)

lemma line_content_cr [simp]: "line_content (s @ [CHR 0x0D]) = line_content s"
proof -
  have "trim (before_char CHR ''#'' s) = trim (before_char CHR ''#'' (or_self (strip_suffix_char CHR 0x0D s) s))"
  proof (cases s rule: rev_cases)
    case (snoc t c)
    then show ?thesis
      by (auto simp: or_self_def strip_suffix_char_def before_char_cr before_char_id)
  qed (simp add: or_self_def strip_suffix_char_def)
  then show ?thesis by (simp add: line_content_def strip_cr_snoc)
qed

lemma line_content_stripped: "line_content (or_self (strip_suffix_char CHR 0x0D s) s) = line_content s"
  by (cases s rule: rev_cases) (auto simp: or_self_def strip_suffix_char_def)

text \<open>The text with CRLF line ends.\<close>

definition to_crlf :: "string \<Rightarrow> string" where
  "to_crlf s = concat (map (\<lambda>c. if c = CHR 0x0A then [CHR 0x0D, CHR 0x0A] else [c]) s)"

lemma raw_lines_crlf:
  "map line_content (raw_lines acc (to_crlf s)) = map line_content (raw_lines acc s)"
  by (induction s arbitrary: acc)
    (auto simp: to_crlf_def strip_cr_snoc line_content_stripped)

lemma parse_crlf_aux: "parse (to_crlf s) = parse s"
  by (rule parse_content) (simp add: str_lines_def raw_lines_crlf)

subsection \<open>The sections of a file\<close>

definition opens :: "string \<Rightarrow> string \<Rightarrow> bool" where
  "opens name raw \<longleftrightarrow>
     (case section_header (line_content raw) of
        None \<Rightarrow> False
      | Some inner \<Rightarrow> eq_ignore_ascii_case (trim inner) name)"

definition opened :: "parse_state \<Rightarrow> nat \<times> nat" where
  "opened st = (if st_iface st = None then 0 else 1, length (st_peers st))"

lemma section_header_Nil: "section_header [] = None"
  by (simp add: section_header_def strip_prefix_char_def)

lemma one_header_name:
  "eq_ignore_ascii_case s ''interface'' \<Longrightarrow> eq_ignore_ascii_case s ''peer'' \<Longrightarrow> False"
proof -
  have "to_ascii_lowercase ''interface'' \<noteq> to_ascii_lowercase ''peer''" by code_simp
  then show "eq_ignore_ascii_case s ''interface'' \<Longrightarrow> eq_ignore_ascii_case s ''peer'' \<Longrightarrow> False"
    by (simp add: eq_ignore_ascii_case_def)
qed

lemma opened_line:
  assumes "parse_line i raw st = Inr st'"
  shows "opened st' = (fst (opened st) + (if opens ''interface'' raw then 1 else 0),
    snd (opened st) + (if opens ''peer'' raw then 1 else 0))"
  using assms
proof (cases rule: parse_line_cases)
  case blank
  then show ?thesis by (simp add: opens_def section_header_Nil)
next
  case (interface_header inner)
  then show ?thesis using one_header_name by (auto simp: opens_def opened_def)
next
  case (peer_header inner)
  then show ?thesis using one_header_name by (auto simp: opens_def opened_def)
qed (simp_all add: opens_def opened_def)

lemma opened_lines:
  "parse_lines i raws st = Inr st' \<Longrightarrow>
   opened st' = (fst (opened st) + length (filter (opens ''interface'') raws),
     snd (opened st) + length (filter (opens ''peer'') raws))"
proof (induction i raws st rule: parse_lines.induct)
  case (1 i st)
  then show ?case by simp
next
  case (2 i raw raws st)
  then obtain st1 where s: "parse_line (i + 1) raw st = Inr st1" "parse_lines (i + 1) raws st1 = Inr st'"
    by auto
  show ?case using "2.IH" [OF s(2)] opened_line [OF s(1)] by simp
qed

lemma parse_sections_aux:
  assumes "parse s = Inr c"
  shows "length (filter (opens ''interface'') (str_lines s)) = 1
    \<and> length (filter (opens ''peer'') (str_lines s)) = 1"
proof -
  from assms obtain st where st: "parse_lines 0 (str_lines s) parse_start = Inr st"
    and fin: "finish st = Inr c"
    by (auto simp: parse_def)
  from fin have "opened st = (1, 1)"
    by (cases rule: finish_cases) (simp add: opened_def)
  with opened_lines [OF st] show ?thesis
    by (simp add: opened_def parse_start_def)
qed

section \<open>Properties of the parser\<close>

definition sample_conf :: parsed_config where
  "sample_conf =
     \<lparr>pc_private_key = ''aGVsbG8='', pc_addresses = [''10.64.0.2/32'', ''fc00:bbbb::2/128''],
      pc_dns = [''10.64.0.1'', ''1.1.1.1''], pc_listen_port = Some 51820, pc_mtu = Some 1380,
      pc_public_key = ''c2VydmVy'', pc_endpoint = ''1.2.3.4:51820'',
      pc_allowed_ips = [''0.0.0.0/0'', ''::/0''], pc_preshared_key = Some ''cHNr'',
      pc_keepalive = Some 25\<rparr>"

lemma sample_conf_ok: "conf_ok sample_conf"
  by (simp add: sample_conf_def conf_ok_def conf_value_def conf_item_def trimmed_graphic graphic_def)

text \<open>
  Whatever bytes a client sends as a configuration, the parser returns a value or an
  error message: neither of its two \<open>expect\<close> calls can be reached with nothing there, so an
  import cannot take the daemon down.
\<close>

lemma wg_parse_never_panics: "parse s \<noteq> Inl (Panic m)"
  using parse_no_panic_aux [of s] by (simp add: no_panic_def)

text \<open>
  C11: the parser is lossless. Printed as a wg-quick file, any configuration whose scalar
  values are trimmed and free of line feeds and of the comment character, whose list items
  are besides not empty and free of commas, and which has an address and an allowed IP,
  parses back to itself, every optional field included.
\<close>

theorem wg_parse_render: "conf_ok c \<Longrightarrow> parse (render_conf c) = Inr c"
  by (rule parse_render)

theorem wg_parse_render_witness:
  "conf_ok sample_conf \<and> parse (render_conf sample_conf) = Inr sample_conf"
  using sample_conf_ok wg_parse_render [OF sample_conf_ok] by blast

text \<open>
  C18: these are exactly the configurations the parser can produce. Nothing it accepts holds
  a blank at an end, a comment, a line break or an empty list element, and addresses and
  allowed IPs are never empty; the daemon's later stages and its state file rely on it.
\<close>

theorem wg_parse_range: "(\<exists>s. parse s = Inr c) \<longleftrightarrow> conf_ok c"
  using parse_values parse_render by blast

text \<open>
  A file with CRLF line ends parses to the same result as with LF line ends, down to
  the error message and the line number in it.
\<close>

theorem wg_parse_crlf: "parse (to_crlf s) = parse s"
  by (rule parse_crlf_aux)

text \<open>
  An accepted file has exactly one [Interface] header and exactly one [Peer] header,
  in any letter case: a configuration with two peers is never cut down silently.
\<close>

theorem wg_parse_sections:
  assumes "parse s = Inr c"
  shows "length (filter (opens ''interface'') (str_lines s)) = 1
    \<and> length (filter (opens ''peer'') (str_lines s)) = 1"
  using assms by (rule parse_sections_aux)

theorem wg_parse_sections_witness:
  "length (filter (opens ''peer'') (str_lines (render_conf sample_conf))) = 1"
  using wg_parse_sections [OF parse_render [OF sample_conf_ok]] by blast

end
