(* ===== verification/Daemon.thy ===== *)
theory Daemon
  imports Kernel Crash_Safety Wgconf
begin

section \<open>The daemon (\<open>daemon/src/daemon.rs\<close>)\<close>

text \<open>
  The state of the daemon and its request handlers, over any \<open>wireguard\<close> backend. A handler
  is an action on the state: the effects made before an error stay, as in the code. The state
  file is part of the state, because \<open>persist\<close> writes it.
  What a request meets from outside is the record \<open>env\<close>: the key the crate generates, one
  reading of each clock (the monotonic one is read at most once per request; the wall clock is
  taken to show one time throughout a request), the resolver, and which file operations fail.
  Times are nanoseconds.
\<close>

record 'w daemon =
  d_cfg :: config
  d_wg :: 'w
  d_last_connect :: "nat option"
  d_disk :: file_system

record ('k, 'w) deps =
  dep_dg :: "'k defguard"
  dep_wg :: "'w wireguard"
  dep_store :: string
  dep_enc :: "config \<Rightarrow> string result"
  dep_dec :: "string \<Rightarrow> config result"
  dep_lower :: "string \<Rightarrow> string"

record 'k env =
  env_fresh :: 'k
  env_instant :: nat
  env_now :: int
  env_resolve :: resolver
  env_faults :: faults

definition second :: nat where
  "second = 1000000000"

definition connecting_window :: nat where
  "connecting_window = 15 * second"

definition stale_after_secs :: nat where
  "stale_after_secs = 180"

definition derive_state :: "u64 option \<Rightarrow> bool \<Rightarrow> conn_state" where
  "derive_state handshake_age_secs connecting =
     (case handshake_age_secs of
        Some age \<Rightarrow> if unat age < stale_after_secs then Alive else Stale
      | None \<Rightarrow> if connecting then Connecting else Never)"

text \<open>A handshake in the future has age zero; one at the epoch is none at all.\<close>

definition handshake_age :: "int \<Rightarrow> live_peer \<Rightarrow> u64 option" where
  "handshake_age now p =
     (case lp_last_handshake p of
        None \<Rightarrow> None
      | Some t \<Rightarrow>
          if t = 0 then None
          else Some (if t \<le> now then of_int ((now - t) div int second) else 0))"

subsection \<open>Loading, the connection window, persisting\<close>

definition daemon_load ::
  "('k, 'w) deps \<Rightarrow> faults \<Rightarrow> file_system \<Rightarrow> 'w \<Rightarrow> 'w daemon result" where
  "daemon_load dp f disk w =
     bindR (load (dep_dec dp) f (dep_store dp) disk) (\<lambda>c.
       Inr \<lparr>d_cfg = c, d_wg = w, d_last_connect = None, d_disk = disk\<rparr>)"

definition server_count :: "'w daemon \<Rightarrow> nat" where
  "server_count d = length (servers (d_cfg d))"

definition mark_connecting :: "'k env \<Rightarrow> 'w daemon \<Rightarrow> 'w daemon" where
  "mark_connecting ev d = d\<lparr>d_last_connect := Some (env_instant ev)\<rparr>"

definition clear_connecting :: "'w daemon \<Rightarrow> 'w daemon" where
  "clear_connecting d = d\<lparr>d_last_connect := None\<rparr>"

definition is_connecting :: "'k env \<Rightarrow> 'w daemon \<Rightarrow> bool" where
  "is_connecting ev d =
     (case d_last_connect d of None \<Rightarrow> False | Some t \<Rightarrow> env_instant ev - t < connecting_window)"

definition persist :: "('k, 'w) deps \<Rightarrow> 'k env \<Rightarrow> ('w daemon, unit) action" where
  "persist dp ev d =
     (case save (dep_enc dp) (env_faults ev) (dep_store dp) (d_cfg d) (d_disk d) of
        (r, disk') \<Rightarrow> (r, d\<lparr>d_disk := disk'\<rparr>))"

definition on_wg :: "('w, 'a) action \<Rightarrow> ('w daemon, 'a) action" where
  "on_wg m d = (case m (d_wg d) of (r, w') \<Rightarrow> (r, d\<lparr>d_wg := w'\<rparr>))"

definition upsert_into :: "server_config \<Rightarrow> ('w daemon, unit) action" where
  "upsert_into server d = (Inr (), d\<lparr>d_cfg := snd (upsert_server server (d_cfg d))\<rparr>)"

subsection \<open>The handlers that change the configuration\<close>

text \<open>A secret that was supplied and is not blank.\<close>

definition supplied :: "string option \<Rightarrow> string option" where
  "supplied x =
     (case x of None \<Rightarrow> None | Some k \<Rightarrow> if trim k = [] then None else Some (trim k))"

definition server_of_spec ::
  "server_spec \<Rightarrow> string \<Rightarrow> string \<Rightarrow> string option \<Rightarrow> server_config" where
  "server_of_spec spec name private_key preshared_key =
     \<lparr>sc_name = name, sc_private_key = private_key, sc_public_key = spec_public_key spec,
      sc_endpoint = spec_endpoint spec, sc_resolved_endpoint = None,
      sc_addresses = spec_addresses spec, sc_allowed_ips = spec_allowed_ips spec,
      sc_listen_port = (case spec_listen_port spec of None \<Rightarrow> 0 | Some p \<Rightarrow> p),
      sc_mtu = spec_mtu spec, sc_keepalive = spec_keepalive spec,
      sc_preshared_key = preshared_key, sc_dns = spec_dns spec\<rparr>"

text \<open>The common end of adding and editing: validate, cache the endpoint, upsert, persist.\<close>

definition store_server ::
  "('k, 'w) deps \<Rightarrow> 'k env \<Rightarrow> server_config \<Rightarrow> ('w daemon, unit) action" where
  "store_server dp ev server =
     bindS (liftR (validate_server (dep_dg dp) (env_resolve ev) server)) (\<lambda>addr.
     bindS (upsert_into (server\<lparr>sc_resolved_endpoint := Some (show_sock addr)\<rparr>)) (\<lambda>_.
       persist dp ev))"

definition add_server :: "('k, 'w) deps \<Rightarrow> 'k env \<Rightarrow> server_spec \<Rightarrow> ('w daemon, unit) action" where
  "add_server dp ev spec =
     (if trim (spec_name spec) = [] then liftR (Inl ''server name must not be empty'')
      else
        (let private_key =
           (case supplied (spec_private_key spec) of
              Some k \<Rightarrow> k | None \<Rightarrow> generate_private_key (dep_dg dp) (env_fresh ev))
         in store_server dp ev
              (server_of_spec spec (trim (spec_name spec)) private_key (spec_preshared_key spec))))"

definition spec_of_conf :: "string \<Rightarrow> parsed_config \<Rightarrow> server_spec" where
  "spec_of_conf name c =
     \<lparr>spec_name = name, spec_private_key = Some (pc_private_key c),
      spec_public_key = pc_public_key c, spec_endpoint = pc_endpoint c,
      spec_addresses = pc_addresses c, spec_allowed_ips = pc_allowed_ips c,
      spec_listen_port = pc_listen_port c, spec_mtu = pc_mtu c,
      spec_keepalive = pc_keepalive c, spec_preshared_key = pc_preshared_key c,
      spec_dns = pc_dns c\<rparr>"

text \<open>The parser's panic, if it had one, would be the daemon's: it is kept apart from errors.\<close>

definition import_server ::
  "('k, 'w) deps \<Rightarrow> 'k env \<Rightarrow> string \<Rightarrow> string \<Rightarrow> 'w daemon \<Rightarrow> (fail + unit) \<times> 'w daemon" where
  "import_server dp ev name conf d =
     (case parse conf of
        Inl f \<Rightarrow> (Inl f, d)
      | Inr c \<Rightarrow>
          (case add_server dp ev (spec_of_conf name c) d of
             (r, d') \<Rightarrow> (map_err Err r, d')))"

definition remove_from :: "('k, 'w) deps \<Rightarrow> 'k env \<Rightarrow> string \<Rightarrow> ('w daemon, unit) action" where
  "remove_from dp ev name d =
     (let (found, c) = remove_server name (d_cfg d); d1 = d\<lparr>d_cfg := c\<rparr>
      in if \<not> found then (Inl (''unknown server '' @ quoted name), d1) else persist dp ev d1)"

definition get_server :: "string \<Rightarrow> 'w daemon \<Rightarrow> server_detail result" where
  "get_server name d =
     ok_or (map_option detail (find_server (d_cfg d) name)) (''unknown server '' @ quoted name)"

definition active_public_key ::
  "('k, 'w) deps \<Rightarrow> 'w daemon \<Rightarrow> string option \<times> 'w daemon" where
  "active_public_key dp d =
     (case on_wg (wg_status (dep_wg dp)) d of (r, d') \<Rightarrow> (Option.bind (ok r) li_public_key, d'))"

definition edit_server :: "('k, 'w) deps \<Rightarrow> 'k env \<Rightarrow> server_spec \<Rightarrow> ('w daemon, unit) action" where
  "edit_server dp ev spec =
     (let name = trim (spec_name spec)
      in if name = [] then liftR (Inl ''server name must not be empty'')
         else (\<lambda>d.
           bindS (liftR (ok_or (find_server (d_cfg d) name) (''unknown server '' @ quoted name))) (\<lambda>existing.
           bindS (liftR (public_key (dep_dg dp) (sc_private_key existing))) (\<lambda>derived d0.
             (case active_public_key dp d0 of (active, d1) \<Rightarrow>
                if active = Some derived
                then (Inl (''server '' @ quoted name
                        @ '' is the active tunnel; disconnect or switch away before editing''), d1)
                else
                  (let private_key = (case supplied (spec_private_key spec) of
                         Some k \<Rightarrow> k | None \<Rightarrow> sc_private_key existing);
                       preshared_key = (case supplied (spec_preshared_key spec) of
                         Some k \<Rightarrow> Some k | None \<Rightarrow> sc_preshared_key existing)
                   in store_server dp ev (server_of_spec spec name private_key preshared_key) d1)))) d))"

subsection \<open>The handlers that read\<close>

definition unavailable_info :: "server_config \<Rightarrow> string \<Rightarrow> server_info" where
  "unavailable_info s e =
     \<lparr>info_name = sc_name s, info_endpoint = sc_endpoint s, info_addresses = sc_addresses s,
      info_public_key = ''(unavailable: '' @ e @ '')'', info_active = False, info_state = None\<rparr>"

definition list_entry ::
  "'k defguard \<Rightarrow> int \<Rightarrow> bool \<Rightarrow> live_interface option \<Rightarrow> server_config \<Rightarrow> server_info" where
  "list_entry dg now connecting live s =
     (let i = (case info dg s False of Inr i \<Rightarrow> i | Inl e \<Rightarrow> unavailable_info s e);
          active = (Option.bind live li_public_key = Some (info_public_key i));
          i = i\<lparr>info_active := active\<rparr>
      in if active
         then (let age = Option.bind (Option.bind live (\<lambda>l.
                     find (\<lambda>p. lp_public_key p = sc_public_key s) (li_peers l))) (handshake_age now)
               in i\<lparr>info_state := Some (derive_state age connecting)\<rparr>)
         else i)"

definition list_servers ::
  "('k, 'w) deps \<Rightarrow> 'k env \<Rightarrow> 'w daemon \<Rightarrow> server_info list \<times> 'w daemon" where
  "list_servers dp ev d =
     (case on_wg (wg_status (dep_wg dp)) d of (r, d') \<Rightarrow>
        (map (list_entry (dep_dg dp) (env_now ev) (is_connecting ev d') (ok r)) (servers (d_cfg d')), d'))"

definition peer_status_of :: "int \<Rightarrow> bool \<Rightarrow> live_peer \<Rightarrow> peer_status" where
  "peer_status_of now connecting p =
     (let age = handshake_age now p
      in \<lparr>ps_public_key = lp_public_key p, ps_endpoint = lp_endpoint p,
          ps_allowed_ips = lp_allowed_ips p, ps_state = derive_state age connecting,
          ps_handshake_age_secs = age, ps_rx_bytes = lp_rx_bytes p, ps_tx_bytes = lp_tx_bytes p\<rparr>)"

definition read_status ::
  "('k, 'w) deps \<Rightarrow> 'k env \<Rightarrow> ('w daemon, interface_status) action" where
  "read_status dp ev =
     bindS (on_wg (wg_status (dep_wg dp))) (\<lambda>live d.
       (Inr \<lparr>is_name = li_name live, is_listen_port = li_listen_port live,
          is_peers = map (peer_status_of (env_now ev) (is_connecting ev d)) (li_peers live)\<rparr>, d))"

subsection \<open>\<open>handle\<close>\<close>

text \<open>The reply to a request that changed the configuration.\<close>

definition reply_servers ::
  "('k, 'w) deps \<Rightarrow> 'k env \<Rightarrow> unit result \<times> 'w daemon \<Rightarrow> response \<times> 'w daemon" where
  "reply_servers dp ev = (\<lambda>(r, d).
     case r of
       Inl e \<Rightarrow> (RespError e, d)
     | Inr u \<Rightarrow> (case list_servers dp ev d of (l, d') \<Rightarrow> (RespServers l, d')))"

text \<open>After a switch: the window opens, and a changed address is cached, best-effort.\<close>

definition switched ::
  "('k, 'w) deps \<Rightarrow> 'k env \<Rightarrow> string \<Rightarrow> socket_addr \<Rightarrow> 'w daemon \<Rightarrow> 'w daemon" where
  "switched dp ev name endpoint d =
     (let d1 = mark_connecting ev d; addr = show_sock endpoint
      in case find_server (d_cfg d1) name of
           None \<Rightarrow> d1
         | Some s \<Rightarrow>
             if sc_resolved_endpoint s = Some addr then d1
             else snd (persist dp ev (d1\<lparr>d_cfg := (d_cfg d1)\<lparr>servers :=
               replace_first (\<lambda>t. sc_name t = name) (s\<lparr>sc_resolved_endpoint := Some addr\<rparr>)
                 (servers (d_cfg d1))\<rparr>\<rparr>)))"

definition switch_server ::
  "('k, 'w) deps \<Rightarrow> 'k env \<Rightarrow> string \<Rightarrow> 'w daemon \<Rightarrow> response \<times> 'w daemon" where
  "switch_server dp ev name d =
     (case find_server (d_cfg d) name of
        None \<Rightarrow> (RespError (''unknown server '' @ quoted name), d)
      | Some server \<Rightarrow>
          (case on_wg (wg_switch (dep_wg dp) (env_resolve ev) server) d of
             (Inr endpoint, d1) \<Rightarrow> (RespSwitched name, switched dp ev name endpoint d1)
           | (Inl e, d1) \<Rightarrow> (RespError e, d1)))"

text \<open>\<open>Inl\<close> is a panic of the daemon.\<close>

fun handle ::
  "('k, 'w) deps \<Rightarrow> 'k env \<Rightarrow> request \<Rightarrow> 'w daemon \<Rightarrow> (string + response) \<times> 'w daemon" where
  "handle dp ev ReqStatus d =
     (case read_status dp ev d of
        (Inr status, d') \<Rightarrow> (Inr (RespStatus status), d')
      | (Inl e, d') \<Rightarrow> (Inr RespDisconnected, d'))"
| "handle dp ev (ReqListServers query) d =
     (case list_servers dp ev d of (l, d') \<Rightarrow>
        (Inr (RespServers (case query of
                None \<Rightarrow> l
              | Some q \<Rightarrow> filter (\<lambda>i. matches (dep_lower dp) i q) l)), d'))"
| "handle dp ev (ReqGetServer name) d =
     (case get_server name d of
        Inr x \<Rightarrow> (Inr (RespServerDetail x), d)
      | Inl e \<Rightarrow> (Inr (RespError e), d))"
| "handle dp ev (ReqAddServer spec) d =
     (case reply_servers dp ev (add_server dp ev spec d) of (r, d') \<Rightarrow> (Inr r, d'))"
| "handle dp ev (ReqEditServer spec) d =
     (case reply_servers dp ev (edit_server dp ev spec d) of (r, d') \<Rightarrow> (Inr r, d'))"
| "handle dp ev (ReqImportServer name conf) d =
     (case import_server dp ev name conf d of
        (Inl (Panic m), d') \<Rightarrow> (Inl m, d')
      | (Inl (Err e), d') \<Rightarrow> (Inr (RespError e), d')
      | (Inr u, d') \<Rightarrow> (case list_servers dp ev d' of (l, d'') \<Rightarrow> (Inr (RespServers l), d'')))"
| "handle dp ev (ReqRemoveServer name) d =
     (case reply_servers dp ev (remove_from dp ev name d) of (r, d') \<Rightarrow> (Inr r, d'))"
| "handle dp ev (ReqSwitchServer name) d =
     (case switch_server dp ev name d of (r, d') \<Rightarrow> (Inr r, d'))"
| "handle dp ev ReqDisconnect d =
     (case on_wg (wg_disconnect (dep_wg dp)) d of
        (Inr u, d') \<Rightarrow> (Inr RespDisconnected, clear_connecting d')
      | (Inl e, d') \<Rightarrow> (Inr (RespError e), d'))"

subsection \<open>What the parts of the handlers leave alone\<close>

lemma on_wg_keeps [simp]:
  "d_cfg (snd (on_wg m d)) = d_cfg d" "d_last_connect (snd (on_wg m d)) = d_last_connect d"
  "d_disk (snd (on_wg m d)) = d_disk d"
  by (simp_all add: on_wg_def split: prod.split)

lemma on_wgD:
  assumes "on_wg m d = (r, d')"
  shows "d_cfg d' = d_cfg d" "d_last_connect d' = d_last_connect d" "d_disk d' = d_disk d"
    "m (d_wg d) = (r, d_wg d')"
  using assms by (auto simp: on_wg_def split: prod.splits)

lemma persist_keeps [simp]:
  "d_cfg (snd (persist dp ev d)) = d_cfg d" "d_wg (snd (persist dp ev d)) = d_wg d"
  "d_last_connect (snd (persist dp ev d)) = d_last_connect d"
  by (simp_all add: persist_def split: prod.split)

lemma persistD:
  assumes "persist dp ev d = (r, d')"
  shows "d_cfg d' = d_cfg d" "d_wg d' = d_wg d" "d_last_connect d' = d_last_connect d"
    "save (dep_enc dp) (env_faults ev) (dep_store dp) (d_cfg d) (d_disk d) = (r, d_disk d')"
  using assms by (auto simp: persist_def split: prod.splits)

lemma list_servers_keeps [simp]:
  "d_cfg (snd (list_servers dp ev d)) = d_cfg d" "d_disk (snd (list_servers dp ev d)) = d_disk d"
  "d_last_connect (snd (list_servers dp ev d)) = d_last_connect d"
  by (simp_all add: list_servers_def split_beta)

lemma active_public_key_keeps [simp]:
  "d_cfg (snd (active_public_key dp d)) = d_cfg d" "d_disk (snd (active_public_key dp d)) = d_disk d"
  "d_last_connect (snd (active_public_key dp d)) = d_last_connect d"
  by (simp_all add: active_public_key_def split_beta)

lemma list_entry_name [simp]: "info_name (list_entry dg now c live s) = sc_name s"
  by (cases "public_key dg (sc_private_key s)")
    (simp_all add: list_entry_def Let_def info_def unavailable_info_def)

lemma list_servers_names: "map info_name (fst (list_servers dp ev d)) = map sc_name (servers (d_cfg d))"
  by (simp add: list_servers_def split_beta)

subsection \<open>Adding and editing, as transitions of the configuration\<close>

definition with_endpoint :: "server_config \<Rightarrow> socket_addr \<Rightarrow> server_config" where
  "with_endpoint s addr = s\<lparr>sc_resolved_endpoint := Some (show_sock addr)\<rparr>"

lemma with_endpoint_name [simp]: "sc_name (with_endpoint s a) = sc_name s"
  by (simp add: with_endpoint_def)

lemma store_server_cases:
  assumes "store_server dp ev s d = (r, d')"
  obtains (invalid) e where "validate_server (dep_dg dp) (env_resolve ev) s = Inl e" "r = Inl e" "d' = d"
  | (stored) a where "validate_server (dep_dg dp) (env_resolve ev) s = Inr a"
      "d_cfg d' = snd (upsert_server (with_endpoint s a) (d_cfg d))"
      "d_wg d' = d_wg d" "d_last_connect d' = d_last_connect d"
      "save (dep_enc dp) (env_faults ev) (dep_store dp) (d_cfg d') (d_disk d) = (r, d_disk d')"
proof (cases "validate_server (dep_dg dp) (env_resolve ev) s")
  case (Inl e)
  with assms show thesis by (intro invalid) (auto simp: store_server_def)
next
  case (Inr a)
  let ?d = "d\<lparr>d_cfg := snd (upsert_server (with_endpoint s a) (d_cfg d))\<rparr>"
  have "persist dp ev ?d = (r, d')"
    using assms Inr by (simp add: store_server_def bindS_def upsert_into_def with_endpoint_def)
  from persistD [OF this] Inr show thesis by (intro stored) simp_all
qed

definition added_server :: "('k, 'w) deps \<Rightarrow> 'k env \<Rightarrow> server_spec \<Rightarrow> server_config" where
  "added_server dp ev spec =
     server_of_spec spec (trim (spec_name spec))
       (case supplied (spec_private_key spec) of
          Some k \<Rightarrow> k | None \<Rightarrow> generate_private_key (dep_dg dp) (env_fresh ev))
       (spec_preshared_key spec)"

definition edited_server :: "server_spec \<Rightarrow> server_config \<Rightarrow> server_config" where
  "edited_server spec old =
     server_of_spec spec (trim (spec_name spec))
       (case supplied (spec_private_key spec) of Some k \<Rightarrow> k | None \<Rightarrow> sc_private_key old)
       (case supplied (spec_preshared_key spec) of Some k \<Rightarrow> Some k | None \<Rightarrow> sc_preshared_key old)"

lemma added_server_name [simp]: "sc_name (added_server dp ev spec) = trim (spec_name spec)"
  by (simp add: added_server_def server_of_spec_def)

lemma edited_server_name [simp]: "sc_name (edited_server spec old) = trim (spec_name spec)"
  by (simp add: edited_server_def server_of_spec_def)

lemma add_server_eq:
  "add_server dp ev spec =
   (if trim (spec_name spec) = [] then liftR (Inl ''server name must not be empty'')
    else store_server dp ev (added_server dp ev spec))"
  by (simp add: add_server_def added_server_def)

lemma edit_server_cases:
  assumes "edit_server dp ev spec d = (r, d')"
  obtains (refused) e where "r = Inl e" "d_cfg d' = d_cfg d" "d_disk d' = d_disk d"
      "d_last_connect d' = d_last_connect d"
  | (edited) old derived d1 where "trim (spec_name spec) \<noteq> []"
      "find_server (d_cfg d) (trim (spec_name spec)) = Some old"
      "public_key (dep_dg dp) (sc_private_key old) = Inr derived"
      "active_public_key dp d \<noteq> (Some derived, d1)"
      "d1 = snd (active_public_key dp d)"
      "store_server dp ev (edited_server spec old) d1 = (r, d')"
proof (cases "trim (spec_name spec) = []")
  case True
  with assms show thesis by (intro refused) (auto simp: edit_server_def)
next
  case ne: False
  show thesis
  proof (cases "find_server (d_cfg d) (trim (spec_name spec))")
    case None
    with assms ne show thesis by (intro refused) (auto simp: edit_server_def Let_def)
  next
    case (Some old)
    show thesis
    proof (cases "public_key (dep_dg dp) (sc_private_key old)")
      case (Inl e)
      with assms ne Some show thesis by (intro refused) (auto simp: edit_server_def Let_def bindS_def)
    next
      case (Inr derived)
      obtain active d1 where a: "active_public_key dp d = (active, d1)"
        by (cases "active_public_key dp d")
      then have d1: "d_cfg d1 = d_cfg d" "d_disk d1 = d_disk d" "d_last_connect d1 = d_last_connect d"
        using active_public_key_keeps [of dp d] by simp_all
      show thesis
      proof (cases "active = Some derived")
        case True
        with assms ne Some Inr a d1 show thesis
          by (intro refused) (auto simp: edit_server_def Let_def bindS_def)
      next
        case False
        with assms ne Some Inr a show thesis
          by (intro edited [of old derived d1]) (auto simp: edit_server_def Let_def bindS_def edited_server_def)
      qed
    qed
  qed
qed

subsection \<open>The well-formedness of the configuration\<close>

text \<open>
  Names are distinct, trimmed and not empty, and every server passes validation apart from
  its endpoint, whose cached address is there and can be read back.
\<close>

definition server_ok :: "'k defguard \<Rightarrow> server_config \<Rightarrow> bool" where
  "server_ok dg s \<longleftrightarrow> sc_name s \<noteq> [] \<and> trimmed (sc_name s) \<and> well_formed dg s
     \<and> Option.bind (sc_resolved_endpoint s) parse_sock \<noteq> None"

definition config_ok :: "'k defguard \<Rightarrow> config \<Rightarrow> bool" where
  "config_ok dg c \<longleftrightarrow> config_inv c \<and> (\<forall>s \<in> set (servers c). server_ok dg s)"

lemma config_ok_default [simp]: "config_ok dg config_default"
  by (simp add: config_ok_def) (simp add: config_default_def)

lemma config_ok_upsert:
  "config_ok dg c \<Longrightarrow> server_ok dg s \<Longrightarrow> config_ok dg (snd (upsert_server s c))"
  using upsert_servers [of s c] by (auto simp: config_ok_def cfg.invar_upsert)

lemma config_ok_remove: "config_ok dg c \<Longrightarrow> config_ok dg (snd (remove_server n c))"
  using remove_servers [of n c] by (auto simp: config_ok_def cfg.invar_remove)

lemma with_endpoint_ok:
  "validate_server dg r s = Inr a \<Longrightarrow> sc_name s \<noteq> [] \<Longrightarrow> trimmed (sc_name s) \<Longrightarrow>
   server_ok dg (with_endpoint s a)"
  by (simp add: server_ok_def with_endpoint_def validate_server_Inr well_formed_def parse_sock_show)

lemma store_server_ok:
  assumes "config_ok (dep_dg dp) (d_cfg d)" "sc_name s \<noteq> []" "trimmed (sc_name s)"
    "store_server dp ev s d = (r, d')"
  shows "config_ok (dep_dg dp) (d_cfg d')"
  using assms(4)
proof (cases rule: store_server_cases)
  case (stored a)
  with assms show ?thesis by (simp add: config_ok_upsert with_endpoint_ok)
qed (use assms in simp)

lemma add_server_ok:
  "config_ok (dep_dg dp) (d_cfg d) \<Longrightarrow> config_ok (dep_dg dp) (d_cfg (snd (add_server dp ev spec d)))"
  using store_server_ok [of dp d "added_server dp ev spec" ev]
  by (cases "store_server dp ev (added_server dp ev spec) d") (auto simp: add_server_eq)

lemma edit_server_ok:
  assumes "config_ok (dep_dg dp) (d_cfg d)"
  shows "config_ok (dep_dg dp) (d_cfg (snd (edit_server dp ev spec d)))"
proof -
  obtain r d' where e: "edit_server dp ev spec d = (r, d')" by (cases "edit_server dp ev spec d")
  from e show ?thesis
  proof (cases rule: edit_server_cases)
    case (edited old derived d1)
    with assms have "config_ok (dep_dg dp) (d_cfg d')"
      by (intro store_server_ok [OF _ _ _ edited(6)]) simp_all
    with e show ?thesis by simp
  qed (use e assms in simp)
qed

lemma import_server_ok:
  "config_ok (dep_dg dp) (d_cfg d) \<Longrightarrow> config_ok (dep_dg dp) (d_cfg (snd (import_server dp ev n conf d)))"
  using add_server_ok [of dp d ev]
  by (auto simp: import_server_def split: sum.split prod.split) (metis snd_conv)

lemma remove_from_ok:
  "config_ok (dep_dg dp) (d_cfg d) \<Longrightarrow> config_ok (dep_dg dp) (d_cfg (snd (remove_from dp ev n d)))"
  using config_ok_remove [of "dep_dg dp" "d_cfg d" n]
  by (cases "remove_server n (d_cfg d)") (simp add: remove_from_def Let_def)


subsection \<open>Switching, as a transition\<close>

lemma switched_keeps [simp]:
  "d_wg (switched dp ev n a d) = d_wg d"
  "d_last_connect (switched dp ev n a d) = Some (env_instant ev)"
  by (simp_all add: switched_def mark_connecting_def Let_def split: option.split)

text \<open>A switch changes nothing of the configuration but the cached address of its server.\<close>

lemma switched_cfg:
  "d_cfg (switched dp ev n a d) =
   (case find_server (d_cfg d) n of
      None \<Rightarrow> d_cfg d
    | Some s \<Rightarrow>
        if sc_resolved_endpoint s = Some (show_sock a) then d_cfg d
        else snd (upsert_server (with_endpoint s a) (d_cfg d)))"
proof -
  have "snd (upsert_server (with_endpoint s a) c) = c\<lparr>servers :=
      replace_first (\<lambda>t. sc_name t = n) (s\<lparr>sc_resolved_endpoint := Some (show_sock a)\<rparr>) (servers c)\<rparr>"
    if "find_server c n = Some s" for c s
    using that find_server_set [OF that]
    by (simp add: upsert_server_def with_endpoint_def find_server_def)
  then show ?thesis
    by (simp add: switched_def mark_connecting_def Let_def split: option.split)
qed

lemma switch_server_cases:
  assumes "switch_server dp ev n d = (r, d')"
  obtains (unknown) "find_server (d_cfg d) n = None" "r = RespError (''unknown server '' @ quoted n)"
      "d' = d"
  | (failed) s e w where "find_server (d_cfg d) n = Some s"
      "wg_switch (dep_wg dp) (env_resolve ev) s (d_wg d) = (Inl e, w)" "r = RespError e"
      "d' = d\<lparr>d_wg := w\<rparr>"
  | (success) s a w where "find_server (d_cfg d) n = Some s"
      "wg_switch (dep_wg dp) (env_resolve ev) s (d_wg d) = (Inr a, w)" "r = RespSwitched n"
      "d' = switched dp ev n a (d\<lparr>d_wg := w\<rparr>)"
proof (cases "find_server (d_cfg d) n")
  case None
  with assms show thesis by (intro unknown) (simp_all add: switch_server_def)
next
  case (Some s)
  obtain x w where x: "wg_switch (dep_wg dp) (env_resolve ev) s (d_wg d) = (x, w)"
    by (cases "wg_switch (dep_wg dp) (env_resolve ev) s (d_wg d)")
  with assms Some show thesis
    by (cases x) (auto simp: switch_server_def on_wg_def intro: failed success)
qed

lemma switch_server_ok:
  assumes "config_ok (dep_dg dp) (d_cfg d)"
  shows "config_ok (dep_dg dp) (d_cfg (snd (switch_server dp ev n d)))"
proof -
  obtain r d' where e: "switch_server dp ev n d = (r, d')" by (cases "switch_server dp ev n d")
  from e show ?thesis
  proof (cases rule: switch_server_cases)
    case (success s a w)
    then have "server_ok (dep_dg dp) s"
      using assms find_server_set by (auto simp: config_ok_def)
    then have "server_ok (dep_dg dp) (with_endpoint s a)"
      by (simp add: server_ok_def with_endpoint_def well_formed_def parse_sock_show)
    with success e assms show ?thesis by (simp add: switched_cfg config_ok_upsert)
  qed (use e assms in simp_all)
qed

subsection \<open>Every request keeps the configuration well-formed\<close>

lemma reply_servers_keeps [simp]:
  "d_cfg (snd (reply_servers dp ev x)) = d_cfg (snd x)"
  "d_disk (snd (reply_servers dp ev x)) = d_disk (snd x)"
  "d_last_connect (snd (reply_servers dp ev x)) = d_last_connect (snd x)"
  by (simp_all add: reply_servers_def split_beta split: sum.split)

lemma handle_cfg:
  "d_cfg (snd (handle dp ev req d)) =
   (case req of
      ReqAddServer spec \<Rightarrow> d_cfg (snd (add_server dp ev spec d))
    | ReqEditServer spec \<Rightarrow> d_cfg (snd (edit_server dp ev spec d))
    | ReqImportServer n conf \<Rightarrow> d_cfg (snd (import_server dp ev n conf d))
    | ReqRemoveServer n \<Rightarrow> d_cfg (snd (remove_from dp ev n d))
    | ReqSwitchServer n \<Rightarrow> d_cfg (snd (switch_server dp ev n d))
    | _ \<Rightarrow> d_cfg d)"
proof (cases req)
  case ReqStatus
  then show ?thesis
    by (auto simp: read_status_def bindS_def split: prod.split sum.split dest: on_wgD)
next
  case (ReqListServers q)
  then show ?thesis by (simp add: split_beta)
next
  case (ReqGetServer n)
  then show ?thesis by (simp split: sum.split)
next
  case (ReqImportServer n conf)
  then show ?thesis by (simp add: split_beta split: sum.split fail.split)
next
  case ReqDisconnect
  then show ?thesis
    by (auto simp: clear_connecting_def split: prod.split sum.split dest: on_wgD)
qed (simp_all add: split_beta)

lemma handle_config_ok:
  "config_ok (dep_dg dp) (d_cfg d) \<Longrightarrow> config_ok (dep_dg dp) (d_cfg (snd (handle dp ev req d)))"
  by (cases req) (simp_all only: handle_cfg request.simps add_server_ok edit_server_ok
      import_server_ok remove_from_ok switch_server_ok)

end
