(* ===== verification/Fake_Wireguard.thy ===== *)
theory Fake_Wireguard
  imports Kernel
begin

section \<open>The contract of the WireGuard backend\<close>

text \<open>
  What the daemon's policy relies on: reading the status changes nothing, a disconnect that
  succeeds leaves the interface down, and a switch that succeeds leaves it up with the public
  key of the server's private key. \<open>up\<close> is the live interface of a world, if there is one,
  and \<open>own_key\<close> the public key a server's private key derives.
  \<open>FakeWireguard\<close>, the backend of the daemon's tests, provides it.
\<close>

locale wireguard_contract =
  fixes wg :: "'w wireguard"
    and up :: "'w \<Rightarrow> live_interface option"
    and own_key :: "server_config \<Rightarrow> string result"
  assumes status_reads: "snd (wg_status wg w) = w"
    and status_up: "ok (fst (wg_status wg w)) = up w"
    and disconnect_down: "fst (wg_disconnect wg w) = Inr () \<Longrightarrow> up (snd (wg_disconnect wg w)) = None"
    and switch_up: "fst (wg_switch wg r s w) = Inr a \<Longrightarrow>
      \<exists>li k. up (snd (wg_switch wg r s w)) = Some li \<and> own_key s = Inr k \<and> li_public_key li = Some k"
begin

lemma status_down: "up w = None \<Longrightarrow> \<exists>e. wg_status wg w = (Inl e, w)"
  using status_reads [of w] status_up [of w]
  by (cases "wg_status wg w"; cases "fst (wg_status wg w)") auto

lemma status_live: "up w = Some li \<Longrightarrow> wg_status wg w = (Inr li, w)"
  using status_reads [of w] status_up [of w]
  by (cases "wg_status wg w"; cases "fst (wg_status wg w)") auto

lemma status_cases:
  obtains (down) e where "up w = None" "wg_status wg w = (Inl e, w)"
  | (live) li where "up w = Some li" "wg_status wg w = (Inr li, w)"
  using status_down status_live by (cases "up w") blast+

lemma switched_key:
  assumes "wg_switch wg r s w = (Inr a, w')"
  shows "\<exists>li k. wg_status wg w' = (Inr li, w') \<and> own_key s = Inr k \<and> li_public_key li = Some k"
  using switch_up [of r s w a] assms status_live by auto

lemma disconnected_status:
  assumes "wg_disconnect wg w = (Inr (), w')"
  shows "\<exists>e. wg_status wg w' = (Inl e, w')"
  using disconnect_down [of w] assms status_down by auto

end

subsection \<open>\<open>FakeWireguard\<close>\<close>

record fake_peer =
  fp_public_key :: string
  fp_last_handshake :: "int option"

record fake =
  fk_calls :: "string list"
  fk_live_peers :: "fake_peer list option"
  fk_last_switch_addresses :: "string list"
  fk_live_pubkey :: "string option"
  fk_fail_with :: "string option"

definition fake_default :: fake where
  "fake_default = \<lparr>fk_calls = [], fk_live_peers = None, fk_last_switch_addresses = [],
     fk_live_pubkey = None, fk_fail_with = None\<rparr>"

definition fake_record :: "string \<Rightarrow> fake \<Rightarrow> fake" where
  "fake_record what w = w\<lparr>fk_calls := fk_calls w @ [what]\<rparr>"

definition check_fail :: "(fake, unit) action" where
  "check_fail w =
     (case fk_fail_with w of
        Some e \<Rightarrow> (Inl e, w\<lparr>fk_fail_with := None\<rparr>)
      | None \<Rightarrow> (Inr (), w))"

definition fake_disconnect :: "(fake, unit) action" where
  "fake_disconnect w =
     bindS check_fail (\<lambda>_ w. (Inr (), w\<lparr>fk_live_peers := None, fk_live_pubkey := None\<rparr>))
       (fake_record ''disconnect'' w)"

text \<open>The \<open>unwrap\<close> of the key is an error here; the tests only switch to servers with a valid key.\<close>

definition fake_switch :: "'k defguard \<Rightarrow> resolver \<Rightarrow> server_config \<Rightarrow> (fake, socket_addr) action" where
  "fake_switch dg resolve server w =
     bindS check_fail (\<lambda>_.
       bindS (liftR (public_key dg (sc_private_key server))) (\<lambda>k w.
         (ok_or (parse_sock (sc_endpoint server)) sock_syntax_error,
          w\<lparr>fk_live_pubkey := Some k, fk_live_peers :=
            Some [\<lparr>fp_public_key = sc_public_key server, fp_last_handshake = None\<rparr>]\<rparr>)))
       ((fake_record (''switch:'' @ sc_name server) w)\<lparr>fk_last_switch_addresses := sc_addresses server\<rparr>)"

definition fake_live :: "fake \<Rightarrow> live_interface option" where
  "fake_live w = map_option (\<lambda>peers.
     \<lparr>li_name = ''wg0'', li_public_key = fk_live_pubkey w, li_listen_port = 51820,
      li_peers = map (\<lambda>p.
        \<lparr>lp_public_key = fp_public_key p, lp_endpoint = Some ''198.51.100.10:51820'',
         lp_allowed_ips = [''0.0.0.0/0''], lp_last_handshake = fp_last_handshake p,
         lp_rx_bytes = 100, lp_tx_bytes = 200\<rparr>) peers\<rparr>) (fk_live_peers w)"

definition fake_status :: "(fake, live_interface) action" where
  "fake_status w = (ok_or (fake_live w) ''interface down'', w)"

definition fake_wireguard :: "'k defguard \<Rightarrow> fake wireguard" where
  "fake_wireguard dg =
     \<lparr>wg_disconnect = fake_disconnect, wg_switch = fake_switch dg, wg_status = fake_status\<rparr>"

interpretation fake: wireguard_contract "fake_wireguard dg" fake_live "\<lambda>s. public_key dg (sc_private_key s)"
  for dg :: "'k defguard"
proof (unfold_locales, goal_cases)
  case (1 w)
  then show ?case by (simp add: fake_wireguard_def fake_status_def)
next
  case (2 w)
  then show ?case by (cases "fake_live w") (simp_all add: fake_wireguard_def fake_status_def)
next
  case (3 w)
  then show ?case
    by (auto simp: fake_wireguard_def fake_disconnect_def check_fail_def bindS_def fake_record_def
        fake_live_def split: option.splits)
next
  case (4 r s w a)
  then show ?case
    by (cases "public_key dg (sc_private_key s)")
      (auto simp: fake_wireguard_def fake_switch_def check_fail_def bindS_def fake_record_def
        fake_live_def split: option.splits)
qed

end
