(* ===== verification/Daemon_Spec.thy ===== *)
theory Daemon_Spec
  imports Daemon Fake_Wireguard
begin

section \<open>What the daemon promises about its configuration\<close>

text \<open>
  The abstract view of the daemon is the map from names to servers. Every request is one of
  the transitions of \<open>map_step\<close> on it, errors change nothing unless writing the state file
  failed, and the state file holds the old or the new configuration at every moment, the new
  one as soon as the client has been told of success.
\<close>

definition fits :: "request \<Rightarrow> response \<Rightarrow> bool" where
  "fits req r \<longleftrightarrow>
     (case req of
        ReqStatus \<Rightarrow> (case r of RespStatus s \<Rightarrow> True | RespDisconnected \<Rightarrow> True | _ \<Rightarrow> False)
      | ReqListServers q \<Rightarrow> (case r of RespServers l \<Rightarrow> True | _ \<Rightarrow> False)
      | ReqGetServer n \<Rightarrow> (case r of RespServerDetail x \<Rightarrow> detail_name x = n | RespError e \<Rightarrow> True | _ \<Rightarrow> False)
      | ReqSwitchServer n \<Rightarrow> (case r of RespSwitched m \<Rightarrow> m = n | RespError e \<Rightarrow> True | _ \<Rightarrow> False)
      | ReqDisconnect \<Rightarrow> (case r of RespDisconnected \<Rightarrow> True | RespError e \<Rightarrow> True | _ \<Rightarrow> False)
      | _ \<Rightarrow> (case r of RespServers l \<Rightarrow> True | RespError e \<Rightarrow> True | _ \<Rightarrow> False))"

lemma reply_servers_fits:
  "(\<exists>l. fst (reply_servers dp ev x) = RespServers l) \<or> (\<exists>e. fst (reply_servers dp ev x) = RespError e)"
  by (simp add: reply_servers_def split_beta split: sum.split)

lemma import_server_no_panic: "fst (import_server dp ev n conf d) \<noteq> Inl (Panic m)"
  using parse_no_panic_aux [of conf]
  by (auto simp: import_server_def no_panic_def split_beta map_err_eq_Inl split: sum.split)

lemma detail_get: "get_server n d = Inr x \<Longrightarrow> detail_name x = n"
  by (auto simp: get_server_def detail_def dest: find_server_set)

lemma handle_fits: "\<exists>r. fst (handle dp ev req d) = Inr r \<and> fits req r"
proof (cases req)
  case (ReqImportServer n conf)
  then show ?thesis
    using import_server_no_panic [of dp ev n conf d]
    by (auto simp: fits_def split_beta split: prod.split sum.split fail.split)
next
  case (ReqSwitchServer n)
  then show ?thesis
    by (cases "switch_server dp ev n d")
      (auto simp: fits_def elim!: switch_server_cases)
next
  case (ReqGetServer n)
  then show ?thesis by (auto simp: fits_def dest: detail_get split: sum.split)
next
  case (ReqAddServer spec)
  then show ?thesis
    using reply_servers_fits [of dp ev "add_server dp ev spec d"] by (auto simp: fits_def split_beta)
next
  case (ReqEditServer spec)
  then show ?thesis
    using reply_servers_fits [of dp ev "edit_server dp ev spec d"] by (auto simp: fits_def split_beta)
next
  case (ReqRemoveServer n)
  then show ?thesis
    using reply_servers_fits [of dp ev "remove_from dp ev n d"] by (auto simp: fits_def split_beta)
qed (auto simp: fits_def split: prod.split sum.split)

subsection \<open>The transitions of the map\<close>

type_synonym server_map = "string \<Rightarrow> server_config option"

definition put_server ::
  "('k, 'w) deps \<Rightarrow> 'k env \<Rightarrow> server_config \<Rightarrow> server_map \<Rightarrow> server_map \<Rightarrow> bool" where
  "put_server dp ev s m m' \<longleftrightarrow> sc_name s \<noteq> [] \<and>
     (\<exists>a. validate_server (dep_dg dp) (env_resolve ev) s = Inr a
        \<and> m' = m(sc_name s \<mapsto> with_endpoint s a))"

definition map_step ::
  "('k, 'w) deps \<Rightarrow> 'k env \<Rightarrow> request \<Rightarrow> server_map \<Rightarrow> server_map \<Rightarrow> bool" where
  "map_step dp ev req m m' \<longleftrightarrow>
     (case req of
        ReqAddServer spec \<Rightarrow> put_server dp ev (added_server dp ev spec) m m'
      | ReqImportServer n conf \<Rightarrow>
          (\<exists>c. parse conf = Inr c \<and> put_server dp ev (added_server dp ev (spec_of_conf n c)) m m')
      | ReqEditServer spec \<Rightarrow>
          (\<exists>old. m (trim (spec_name spec)) = Some old \<and> put_server dp ev (edited_server spec old) m m')
      | ReqRemoveServer n \<Rightarrow> m n \<noteq> None \<and> m' = m(n := None)
      | ReqSwitchServer n \<Rightarrow> (\<exists>s a. m n = Some s \<and> m' = m(n \<mapsto> with_endpoint s a))
      | _ \<Rightarrow> False)"

definition saved :: "('k, 'w) deps \<Rightarrow> 'k env \<Rightarrow> 'w daemon \<Rightarrow> 'w daemon \<Rightarrow> unit result \<Rightarrow> bool" where
  "saved dp ev d d' r \<longleftrightarrow>
     save (dep_enc dp) (env_faults ev) (dep_store dp) (d_cfg d') (d_disk d) = (r, d_disk d')"

text \<open>
  What a handler that changes the configuration did: it either refused, leaving the
  configuration and the file alone, or made the step and returned the result of saving.
\<close>

definition mutates ::
  "('k, 'w) deps \<Rightarrow> 'k env \<Rightarrow> request \<Rightarrow> 'w daemon \<Rightarrow> 'w daemon \<Rightarrow> unit result \<Rightarrow> bool" where
  "mutates dp ev req d d' r \<longleftrightarrow>
     d_last_connect d' = d_last_connect d \<and>
     (\<not> is_ok r \<and> d_cfg d' = d_cfg d \<and> d_disk d' = d_disk d
      \<or> map_step dp ev req (find_server (d_cfg d)) (find_server (d_cfg d')) \<and> saved dp ev d d' r)"

lemma store_server_mutates:
  assumes "store_server dp ev s d = (r, d')" "sc_name s \<noteq> []"
  shows "d_last_connect d' = d_last_connect d \<and>
     (\<not> is_ok r \<and> d_cfg d' = d_cfg d \<and> d_disk d' = d_disk d
      \<or> put_server dp ev s (find_server (d_cfg d)) (find_server (d_cfg d')) \<and> saved dp ev d d' r)"
  using assms(1)
proof (cases rule: store_server_cases)
  case (stored a)
  then have "find_server (d_cfg d') = (find_server (d_cfg d))(sc_name s \<mapsto> with_endpoint s a)"
    by (simp add: find_server_upsert)
  with stored assms(2) show ?thesis by (auto simp: put_server_def saved_def)
qed simp

lemma add_server_mutates:
  "add_server dp ev spec d = (r, d') \<Longrightarrow> mutates dp ev (ReqAddServer spec) d d' r"
  using store_server_mutates [of dp ev "added_server dp ev spec" d r d']
  by (auto simp: add_server_eq mutates_def map_step_def split: if_splits)

lemma import_server_mutates:
  assumes "import_server dp ev n conf d = (x, d')"
  shows "mutates dp ev (ReqImportServer n conf) d d' (case x of Inl f \<Rightarrow> Inl (case f of Err e \<Rightarrow> e | Panic m \<Rightarrow> m) | Inr u \<Rightarrow> Inr u)"
proof (cases "parse conf")
  case (Inl f)
  with assms show ?thesis by (auto simp: import_server_def mutates_def)
next
  case (Inr c)
  obtain r d1 where a: "add_server dp ev (spec_of_conf n c) d = (r, d1)"
    by (cases "add_server dp ev (spec_of_conf n c) d")
  with assms Inr have "x = map_err Err r" "d1 = d'" by (auto simp: import_server_def)
  with add_server_mutates [OF a] Inr show ?thesis
    by (cases r) (auto simp: mutates_def map_step_def)
qed

lemma edit_server_mutates:
  assumes "edit_server dp ev spec d = (r, d')"
  shows "mutates dp ev (ReqEditServer spec) d d' r"
  using assms
proof (cases rule: edit_server_cases)
  case (edited old derived d1)
  have "d_cfg d1 = d_cfg d" "d_disk d1 = d_disk d" "d_last_connect d1 = d_last_connect d"
    by (simp_all add: edited(5))
  with store_server_mutates [OF edited(6)] edited(1,2) show ?thesis
    by (auto simp: mutates_def map_step_def saved_def)
qed (simp add: mutates_def)

lemma remove_from_mutates:
  assumes "remove_from dp ev n d = (r, d')"
  shows "mutates dp ev (ReqRemoveServer n) d d' r"
proof (cases "find_server (d_cfg d) n")
  case None
  then have f: "\<not> fst (remove_server n (d_cfg d))" by (simp add: remove_server_found)
  have "filter (\<lambda>s. sc_name s \<noteq> n) (servers (d_cfg d)) = servers (d_cfg d)"
    using None by (simp add: find_server_def find_map_iff filter_id_conv)
  then have "snd (remove_server n (d_cfg d)) = d_cfg d" by (simp add: remove_server_def)
  with f assms show ?thesis
    by (cases "remove_server n (d_cfg d)") (auto simp: remove_from_def mutates_def)
next
  case (Some s)
  then have "fst (remove_server n (d_cfg d))" by (simp add: remove_server_found)
  with assms have p: "persist dp ev (d\<lparr>d_cfg := snd (remove_server n (d_cfg d))\<rparr>) = (r, d')"
    by (cases "remove_server n (d_cfg d)") (auto simp: remove_from_def)
  from persistD [OF p] Some show ?thesis
    by (simp add: mutates_def map_step_def saved_def find_server_remove)
qed

lemma switch_server_mutates:
  assumes "switch_server dp ev n d = (r, d')"
  shows "d_cfg d' = d_cfg d \<and> d_disk d' = d_disk d
    \<or> map_step dp ev (ReqSwitchServer n) (find_server (d_cfg d)) (find_server (d_cfg d'))
      \<and> (\<exists>q. saved dp ev d d' q)"
  using assms
proof (cases rule: switch_server_cases)
  case (success s a w)
  show ?thesis
  proof (cases "sc_resolved_endpoint s = Some (show_sock a)")
    case True
    with success have "d_cfg d' = d_cfg d" by (simp add: switched_cfg)
    moreover have "d_disk d' = d_disk d"
      using True success by (simp add: switched_def mark_connecting_def)
    ultimately show ?thesis by simp
  next
    case False
    have c: "d_cfg d' = snd (upsert_server (with_endpoint s a) (d_cfg d))"
      using False success by (simp add: switched_cfg)
    have "sc_name s = n" using success(1) find_server_set by blast
    then have "map_step dp ev (ReqSwitchServer n) (find_server (d_cfg d)) (find_server (d_cfg d'))"
      using success(1) by (auto simp: c find_server_upsert map_step_def)
    moreover obtain x where x: "d' = snd (persist dp ev x)" "d_disk x = d_disk d"
      using False success by (force simp: switched_def mark_connecting_def Let_def)
    then have "persist dp ev x = (fst (persist dp ev x), d')" by simp
    from persistD [OF this] x(2) have "\<exists>q. saved dp ev d d' q" by (auto simp: saved_def)
    ultimately show ?thesis by simp
  qed
qed simp_all


lemma handle_mutates:
  assumes "handle dp ev req d = (Inr resp, d')"
  shows "d_cfg d' = d_cfg d \<and> d_disk d' = d_disk d
    \<or> map_step dp ev req (find_server (d_cfg d)) (find_server (d_cfg d')) \<and> (\<exists>q. saved dp ev d d' q)"
proof -
  have reply: "\<exists>r d1. x = (r, d1) \<and> d_cfg d' = d_cfg d1 \<and> d_disk d' = d_disk d1"
    if "(case reply_servers dp ev x of (r, d') \<Rightarrow> (Inr r, d')) = (Inr resp, d')" for x
  proof -
    from that have "d' = snd (reply_servers dp ev x)" by (simp add: split_beta)
    then show ?thesis
      by (intro exI [of _ "fst x"] exI [of _ "snd x"]) simp
  qed
  have plain: "d_cfg d' = d_cfg d1 \<Longrightarrow> d_disk d' = d_disk d1 \<Longrightarrow> mutates dp ev req d d1 r \<Longrightarrow> ?thesis" for d1 r
    by (auto simp: mutates_def saved_def)
  show ?thesis
  proof (cases req)
    case ReqStatus
    with assms show ?thesis
      by (auto simp: read_status_def bindS_def split: prod.splits sum.splits dest: on_wgD)
  next
    case (ReqListServers q)
    with assms show ?thesis by (auto simp: split_beta)
  next
    case (ReqGetServer n)
    with assms show ?thesis by (auto split: sum.splits)
  next
    case (ReqAddServer spec)
    with assms reply add_server_mutates plain show ?thesis by (metis handle.simps(4))
  next
    case (ReqEditServer spec)
    with assms reply edit_server_mutates plain show ?thesis by (metis handle.simps(5))
  next
    case (ReqRemoveServer n)
    with assms reply remove_from_mutates plain show ?thesis by (metis handle.simps(7))
  next
    case (ReqSwitchServer n)
    with assms have "switch_server dp ev n d = (resp, d')" by (auto split: prod.splits)
    from switch_server_mutates [OF this] ReqSwitchServer show ?thesis by simp
  next
    case ReqDisconnect
    with assms show ?thesis
      by (auto simp: clear_connecting_def split: prod.splits sum.splits dest: on_wgD)
  next
    case (ReqImportServer n conf)
    obtain x d1 where i: "import_server dp ev n conf d = (x, d1)"
      by (cases "import_server dp ev n conf d")
    with assms ReqImportServer have "d_cfg d' = d_cfg d1 \<and> d_disk d' = d_disk d1"
      by (auto simp: split_beta split: sum.splits fail.splits)
    with import_server_mutates [OF i] ReqImportServer plain show ?thesis by blast
  qed
qed

subsection \<open>What the reply tells\<close>

definition mutating :: "request \<Rightarrow> bool" where
  "mutating req \<longleftrightarrow>
     (case req of
        ReqAddServer spec \<Rightarrow> True | ReqEditServer spec \<Rightarrow> True
      | ReqImportServer n conf \<Rightarrow> True | ReqRemoveServer n \<Rightarrow> True | _ \<Rightarrow> False)"

text \<open>The reply is the result of the handler: an error, or the new list of servers.\<close>

definition replies :: "('k, 'w) deps \<Rightarrow> 'k env \<Rightarrow> 'w daemon \<Rightarrow> unit result \<Rightarrow> response \<Rightarrow> bool" where
  "replies dp ev d1 r resp \<longleftrightarrow>
     (case r of
        Inl e \<Rightarrow> resp = RespError e
      | Inr u \<Rightarrow> resp = RespServers (fst (list_servers dp ev d1)))"

lemma reply_servers_replies:
  assumes "reply_servers dp ev (r, d1) = (resp, d')"
  shows "replies dp ev d1 r resp \<and> d_cfg d' = d_cfg d1 \<and> d_disk d' = d_disk d1
    \<and> d_last_connect d' = d_last_connect d1"
proof -
  from assms have "resp = fst (reply_servers dp ev (r, d1))" and d': "d' = snd (reply_servers dp ev (r, d1))"
    by simp_all
  then have "replies dp ev d1 r resp"
    by (cases r) (simp_all add: replies_def reply_servers_def split_beta)
  with d' show ?thesis by simp
qed

lemma handle_mutating:
  assumes "mutating req" "handle dp ev req d = (Inr resp, d')"
  obtains d1 r where "mutates dp ev req d d1 r" "replies dp ev d1 r resp"
    "d_cfg d' = d_cfg d1" "d_disk d' = d_disk d1" "d_last_connect d' = d_last_connect d1"
proof (cases req)
  case (ReqAddServer spec)
  obtain r d1 where a: "add_server dp ev spec d = (r, d1)" by (cases "add_server dp ev spec d")
  with assms ReqAddServer have "reply_servers dp ev (r, d1) = (resp, d')" by (auto split: prod.splits)
  from reply_servers_replies [OF this] add_server_mutates [OF a] ReqAddServer
  show thesis by (intro that [of d1 r]) simp_all
next
  case (ReqEditServer spec)
  obtain r d1 where a: "edit_server dp ev spec d = (r, d1)" by (cases "edit_server dp ev spec d")
  with assms ReqEditServer have "reply_servers dp ev (r, d1) = (resp, d')" by (auto split: prod.splits)
  from reply_servers_replies [OF this] edit_server_mutates [OF a] ReqEditServer
  show thesis by (intro that [of d1 r]) simp_all
next
  case (ReqRemoveServer n)
  obtain r d1 where a: "remove_from dp ev n d = (r, d1)" by (cases "remove_from dp ev n d")
  with assms ReqRemoveServer have "reply_servers dp ev (r, d1) = (resp, d')" by (auto split: prod.splits)
  from reply_servers_replies [OF this] remove_from_mutates [OF a] ReqRemoveServer
  show thesis by (intro that [of d1 r]) simp_all
next
  case (ReqImportServer n conf)
  obtain x d1 where i: "import_server dp ev n conf d = (x, d1)"
    by (cases "import_server dp ev n conf d")
  let ?r = "case x of Inl f \<Rightarrow> Inl (case f of Err e \<Rightarrow> e | Panic m \<Rightarrow> m) | Inr u \<Rightarrow> Inr u"
  have "replies dp ev d1 ?r resp \<and> d_cfg d' = d_cfg d1 \<and> d_disk d' = d_disk d1
      \<and> d_last_connect d' = d_last_connect d1"
    using assms(2) ReqImportServer i import_server_no_panic [of dp ev n conf d]
    by (auto simp: replies_def split_beta split: sum.splits fail.splits)
  with import_server_mutates [OF i] ReqImportServer show thesis
    by (intro that [of d1 ?r]) simp_all
qed (use assms(1) in \<open>simp_all add: mutating_def\<close>)

subsection \<open>The state file\<close>

lemma saved_store_wf:
  assumes "store_wf (dep_store dp) (d_disk d)" "saved dp ev d d' q"
  shows "store_wf (dep_store dp) (d_disk d')
    \<and> possible (d_disk d') (dep_store dp) \<subseteq> possible (d_disk d) (dep_store dp)
        \<union> {Some json | json. dep_enc dp (d_cfg d') = Inr json}"
  using save_spec [OF assms(1) assms(2) [unfolded saved_def]] .

lemma handle_disk:
  assumes "store_wf (dep_store dp) (d_disk d)"
  shows "store_wf (dep_store dp) (d_disk (snd (handle dp ev req d)))
    \<and> possible (d_disk (snd (handle dp ev req d))) (dep_store dp)
        \<subseteq> possible (d_disk d) (dep_store dp)
          \<union> {Some json | json. dep_enc dp (d_cfg (snd (handle dp ev req d))) = Inr json}"
proof -
  obtain resp d' where h: "handle dp ev req d = (Inr resp, d')"
    using handle_fits [of dp ev req d] by (metis prod.collapse)
  from handle_mutates [OF h] show ?thesis
  proof
    assume "d_cfg d' = d_cfg d \<and> d_disk d' = d_disk d"
    with assms h show ?thesis by simp
  next
    assume "map_step dp ev req (find_server (d_cfg d)) (find_server (d_cfg d')) \<and> (\<exists>q. saved dp ev d d' q)"
    then obtain q where "saved dp ev d d' q" by blast
    from saved_store_wf [OF assms this] h show ?thesis by simp
  qed
qed

subsection \<open>Runs of the daemon\<close>

text \<open>
  A step is a request, with whatever it meets from outside, a crash of the machine after
  which the daemon is started again from the file that is left, or a restart of the process.
\<close>

inductive daemon_step :: "('k, 'w) deps \<Rightarrow> 'w daemon \<Rightarrow> 'w daemon \<Rightarrow> bool" for dp where
  request: "handle dp ev req d = (x, d') \<Longrightarrow> daemon_step dp d d'"
| restart: "crash (d_disk d) disk \<Longrightarrow> daemon_load dp f disk w = Inr d' \<Longrightarrow> daemon_step dp d d'"
| reload: "daemon_load dp f (d_disk d) w = Inr d' \<Longrightarrow> daemon_step dp d d'"

inductive_cases daemon_stepE [elim]: "daemon_step dp d d'"

text \<open>
  The file at the state path holds, after any crash, a configuration the daemon would load
  as well-formed; or there is none.
\<close>

definition disk_ok :: "('k, 'w) deps \<Rightarrow> file_system \<Rightarrow> bool" where
  "disk_ok dp disk \<longleftrightarrow> store_wf (dep_store dp) disk \<and>
     (\<forall>x \<in> possible disk (dep_store dp). case x of None \<Rightarrow> True
        | Some text \<Rightarrow> (\<exists>c. dep_dec dp text = Inr c \<and> config_ok (dep_dg dp) c))"

text \<open>serde writes valid UTF-8 and reads back what it wrote.\<close>

definition codec_ok :: "(config \<Rightarrow> string result) \<Rightarrow> (string \<Rightarrow> config result) \<Rightarrow> bool" where
  "codec_ok enc dec \<longleftrightarrow> (\<forall>c json. enc c = Inr json \<longrightarrow> dec json = Inr c \<and> utf8_valid json)"

lemma possible_crash:
  assumes "crash fs fs'"
  shows "possible fs' p = {file_text fs' p}" "file_text fs' p \<in> possible fs p"
proof -
  from assms have j: "fs_journal fs' = []" "fs_synced fs' = (\<lambda>_. True)" by auto
  then have "crash_dirs fs' = {fs_live fs'}" by (simp add: crash_dirs_def fs_live_def)
  with j show "possible fs' p = {file_text fs' p}"
    by (auto simp: possible_iff file_text_def split: option.splits)
  show "file_text fs' p \<in> possible fs p" using assms by (auto simp: possible_def)
qed

lemma disk_ok_crash:
  assumes "disk_ok dp disk" "crash disk disk'"
  shows "disk_ok dp disk'"
  using assms possible_crash [OF assms(2), of "dep_store dp"]
  using store_wf_crash [OF _ assms(2)] by (simp add: disk_ok_def)

lemma loaded_ok:
  assumes "daemon_load dp f disk w = Inr d" "disk_ok dp disk"
  shows "config_ok (dep_dg dp) (d_cfg d) \<and> d_disk d = disk"
proof -
  from assms(1) have l: "load (dep_dec dp) f (dep_store dp) disk = Inr (d_cfg d)" and d: "d_disk d = disk"
    by (auto simp: daemon_load_def)
  have p: "file_text disk (dep_store dp) \<in> possible disk (dep_store dp)"
    by (rule possible_live)
  from l show ?thesis
  proof (cases "read_to_string f disk (dep_store dp)")
    case (Text t)
    then have "file_text disk (dep_store dp) = Some t"
      by (auto simp: read_to_string_def split: option.splits if_splits)
    with p assms(2) have "\<exists>c. dep_dec dp t = Inr c \<and> config_ok (dep_dg dp) c"
      by (force simp: disk_ok_def)
    with l Text d show ?thesis by (auto simp: load_def)
  qed (use d in \<open>simp_all add: load_def\<close>)
qed

lemma step_ok:
  assumes codec: "codec_ok (dep_enc dp) (dep_dec dp)"
    and step: "daemon_step dp d d'" and "config_ok (dep_dg dp) (d_cfg d)" "disk_ok dp (d_disk d)"
  shows "config_ok (dep_dg dp) (d_cfg d') \<and> disk_ok dp (d_disk d')"
  using step
proof cases
  case (restart disk f w)
  from disk_ok_crash [OF assms(4) restart(1)] loaded_ok [OF restart(2)]
  show ?thesis by simp
next
  case (reload f w)
  from loaded_ok [OF reload] assms(4) show ?thesis by simp
next
  case (request ev req x)
  then have d': "d' = snd (handle dp ev req d)" by simp
  have c: "config_ok (dep_dg dp) (d_cfg d')"
    unfolding d' using assms(3) by (rule handle_config_ok)
  have h: "store_wf (dep_store dp) (d_disk d')"
    "possible (d_disk d') (dep_store dp) \<subseteq> possible (d_disk d) (dep_store dp)
       \<union> {Some json | json. dep_enc dp (d_cfg d') = Inr json}"
    using handle_disk [of dp d ev req] assms(4) by (simp_all add: d' disk_ok_def)
  have "case x of None \<Rightarrow> True | Some text \<Rightarrow> \<exists>c. dep_dec dp text = Inr c \<and> config_ok (dep_dg dp) c"
    if "x \<in> possible (d_disk d') (dep_store dp)" for x
  proof (cases "x \<in> possible (d_disk d) (dep_store dp)")
    case True
    with assms(4) show ?thesis by (simp add: disk_ok_def)
  next
    case False
    with that h(2) obtain json where "x = Some json" "dep_enc dp (d_cfg d') = Inr json" by auto
    with codec c show ?thesis by (auto simp: codec_ok_def)
  qed
  with c h(1) show ?thesis by (simp add: disk_ok_def)
qed

lemma run_ok:
  assumes "(daemon_step dp)\<^sup>*\<^sup>* d d'" "codec_ok (dep_enc dp) (dep_dec dp)"
    "config_ok (dep_dg dp) (d_cfg d)" "disk_ok dp (d_disk d)"
  shows "config_ok (dep_dg dp) (d_cfg d') \<and> disk_ok dp (d_disk d')"
  using assms(1)
proof induction
  case base
  with assms show ?case by simp
next
  case (step y z)
  with step_ok [OF assms(2)] show ?case by blast
qed

section \<open>Properties of the daemon\<close>

text \<open>A daemon of the tests: the fake backend, the sample crate, the state file of \<open>Crash_Safety\<close>.\<close>

definition sample_deps :: "config \<Rightarrow> (sample_key, fake) deps" where
  "sample_deps c =
     \<lparr>dep_dg = sample_dg, dep_wg = fake_wireguard sample_dg, dep_store = state_path,
      dep_enc = (\<lambda>c'. if c' = c then Inr ''{}'' else Inl ''unserializable''),
      dep_dec = (\<lambda>json. Inr c), dep_lower = to_ascii_lowercase\<rparr>"

definition sample_env :: "sample_key env" where
  "sample_env = \<lparr>env_fresh = Key 5, env_instant = 0, env_now = 0, env_resolve = no_resolver,
     env_faults = no_faults\<rparr>"

definition cached_edge :: server_config where
  "cached_edge = with_endpoint edge_server (SockV4 0xC633640A 51820)"

definition one_server :: config where
  "one_server = \<lparr>servers = [cached_edge]\<rparr>"

definition sample_daemon :: "config \<Rightarrow> fake daemon" where
  "sample_daemon c = \<lparr>d_cfg = c, d_wg = fake_default, d_last_connect = None, d_disk = empty_fs\<rparr>"

definition edge_spec :: server_spec where
  "edge_spec =
     \<lparr>spec_name = ''edge'', spec_private_key = Some ''7'', spec_public_key = ''42'',
      spec_endpoint = ''198.51.100.10:51820'', spec_addresses = [''10.0.0.2/24''],
      spec_allowed_ips = [''0.0.0.0/0''], spec_listen_port = Some 51820, spec_mtu = None,
      spec_keepalive = Some 25, spec_preshared_key = None, spec_dns = []\<rparr>"

lemma sample_codec: "codec_ok (dep_enc (sample_deps c)) (dep_dec (sample_deps c))"
  by (simp add: codec_ok_def sample_deps_def utf8_valid_ascii)

lemma empty_disk_ok: "disk_ok (sample_deps c) empty_fs"
  using empty_store_wf by (simp add: disk_ok_def empty_possible sample_deps_def)

text \<open>
  C9: the daemon answers every request, whatever it holds and meets, and never panics; the
  answer is one the request allows: a status, a list, a detail of the named server, a switch to
  the named server, a disconnect, or an error, which listing and status never give.
\<close>

theorem handle_answers: "\<exists>r. fst (handle dp ev req d) = Inr r \<and> fits req r"
  by (rule handle_fits)

text \<open>
  C5: seen as a map from names to servers, the daemon does to its configuration what the
  request says and nothing else. Adding and importing put one server under its trimmed name
  after it passed validation, editing only over a server that exists, removing takes away one
  that exists, switching only caches an address, and every other request changes nothing.
\<close>

theorem daemon_refines_map:
  "find_server (d_cfg (snd (handle dp ev req d))) = find_server (d_cfg d)
   \<or> map_step dp ev req (find_server (d_cfg d)) (find_server (d_cfg (snd (handle dp ev req d))))"
proof -
  obtain resp where "handle dp ev req d = (Inr resp, snd (handle dp ev req d))"
    using handle_fits [of dp ev req d] by (metis prod.collapse)
  from handle_mutates [OF this] show ?thesis by auto
qed

text \<open>
  C6: in every state the daemon can reach, through any requests, failing file operations,
  restarts of the process and crashes of the machine, the names of the servers are distinct,
  trimmed and not empty, every server passes validation and has a cached endpoint that can be
  read back; and the state file holds only configurations of which the same is true. It needs
  serde to read back what it wrote.
\<close>

theorem daemon_invariant:
  assumes "(daemon_step dp)\<^sup>*\<^sup>* d d'" and "codec_ok (dep_enc dp) (dep_dec dp)"
    and "config_ok (dep_dg dp) (d_cfg d)" and "disk_ok dp (d_disk d)"
  shows "config_ok (dep_dg dp) (d_cfg d') \<and> disk_ok dp (d_disk d')"
  using assms by (rule run_ok)

theorem daemon_invariant_witness:
  "config_ok sample_dg (d_cfg (snd (handle (sample_deps one_server) sample_env (ReqAddServer edge_spec)
     (sample_daemon config_default))))"
proof -
  let ?d = "sample_daemon config_default" and ?dp = "sample_deps one_server"
  let ?d' = "snd (handle ?dp sample_env (ReqAddServer edge_spec) ?d)"
  have "daemon_step ?dp ?d ?d'" by (rule daemon_step.request [OF surjective_pairing])
  then have "(daemon_step ?dp)\<^sup>*\<^sup>* ?d ?d'" by (rule r_into_rtranclp)
  from daemon_invariant [OF this sample_codec] show ?thesis
    using empty_disk_ok by (simp add: sample_daemon_def) (simp add: sample_deps_def)
qed

text \<open>
  C8: an error changes nothing. If a request to add, edit, import or remove is answered with
  an error, the configuration and the state file are as before, unless the error is that of
  writing the file: then the change was made in memory. On success it was made and saved.
\<close>

theorem reply_tells_change:
  assumes "mutating req" and "handle dp ev req d = (Inr resp, d')"
  shows "(\<exists>e. resp = RespError e \<and> d_cfg d' = d_cfg d \<and> d_disk d' = d_disk d)
    \<or> map_step dp ev req (find_server (d_cfg d)) (find_server (d_cfg d'))
      \<and> ((\<exists>e. resp = RespError e \<and> saved dp ev d d' (Inl e))
        \<or> (\<exists>l. resp = RespServers l \<and> map info_name l = map sc_name (servers (d_cfg d'))
             \<and> saved dp ev d d' (Inr ())))"
  using assms
proof (rule handle_mutating)
  fix d1 r
  assume m: "mutates dp ev req d d1 r" and p: "replies dp ev d1 r resp"
    and k: "d_cfg d' = d_cfg d1" "d_disk d' = d_disk d1"
  have s: "saved dp ev d d1 r = saved dp ev d d' r" by (simp add: saved_def k)
  show ?thesis
  proof (cases r)
    case (Inl e)
    with m p k s show ?thesis by (auto simp: mutates_def replies_def)
  next
    case (Inr u)
    with m p k s show ?thesis by (auto simp: mutates_def replies_def list_servers_names)
  qed
qed

theorem reply_tells_change_witness:
  "\<exists>e. fst (handle (sample_deps one_server) sample_env (ReqRemoveServer ''nexus'')
      (sample_daemon one_server)) = Inr (RespError e)"
proof -
  have m: "mutating (ReqRemoveServer ''nexus'')" by (simp add: mutating_def)
  have n: "find_server one_server ''nexus'' = None"
    by (simp add: find_server_def one_server_def cached_edge_def) (simp add: edge_server_def)
  obtain resp d' where h: "handle (sample_deps one_server) sample_env (ReqRemoveServer ''nexus'')
      (sample_daemon one_server) = (Inr resp, d')"
    using handle_fits by (metis prod.collapse)
  have "d_cfg (sample_daemon one_server) = one_server" by (simp add: sample_daemon_def)
  with n have "\<not> map_step (sample_deps one_server) sample_env (ReqRemoveServer ''nexus'')
      (find_server (d_cfg (sample_daemon one_server))) m'" for m'
    by (simp add: map_step_def)
  with reply_tells_change [OF m h] h show ?thesis by auto
qed

text \<open>
  What a failed write leaves. The client is told of an error, but the server it added is
  in the list it gets next: the change stays in memory although it is not in the file.
\<close>

theorem failed_write_stays_in_memory:
  assumes "validate_server (dep_dg dp) (env_resolve ev) (added_server dp ev spec) = Inr a"
    and "trim (spec_name spec) \<noteq> []"
    and "handle dp ev (ReqAddServer spec) d = (Inr (RespError e), d')"
  shows "find_server (d_cfg d') (trim (spec_name spec)) = Some (with_endpoint (added_server dp ev spec) a)
    \<and> saved dp ev d d' (Inl e)"
proof -
  obtain r d1 where s: "store_server dp ev (added_server dp ev spec) d = (r, d1)"
    by (cases "store_server dp ev (added_server dp ev spec) d")
  with assms(2) have "add_server dp ev spec d = (r, d1)" by (simp add: add_server_eq)
  with assms(3) have "reply_servers dp ev (r, d1) = (RespError e, d')" by (auto split: prod.splits)
  then have "r = Inl e" "d1 = d'"
    by (auto simp: reply_servers_def split: sum.splits prod.splits)
  with s assms(1) show ?thesis
    by (auto elim!: store_server_cases simp: find_server_upsert saved_def)
qed

definition disk_full :: "sample_key env" where
  "disk_full = sample_env\<lparr>env_faults := no_faults\<lparr>f_open := Some ''No space left''\<rparr>\<rparr>"


lemma added_edge: "added_server (sample_deps c) ev edge_spec = edge_server"
proof -
  have "trim ''edge'' = ''edge''" by (rule trim_graphic) (simp add: graphic_def)
  then show ?thesis
    by (simp add: added_server_def edge_spec_def server_of_spec_def supplied_def edge_trims edge_server_def)
qed

lemma validate_edge: "validate_server sample_dg r edge_server = Inr (SockV4 0xC633640A 51820)"
  by (simp add: validate_server_Inr edge_well_formed edge_endpoint)

lemma store_edge:
  "store_server (sample_deps c) ev edge_server d
   = persist (sample_deps c) ev
       (d\<lparr>d_cfg := snd (upsert_server (with_endpoint edge_server (SockV4 0xC633640A 51820)) (d_cfg d))\<rparr>)"
proof -
  have "dep_dg (sample_deps c) = sample_dg" by (simp add: sample_deps_def)
  then show ?thesis
    by (simp add: store_server_def validate_edge bindS_def upsert_into_def with_endpoint_def)
qed

lemma add_edge:
  "add_server (sample_deps one_server) ev edge_spec (sample_daemon config_default)
   = persist (sample_deps one_server) ev (sample_daemon one_server)"
proof -
  have "trim (spec_name edge_spec) \<noteq> []"
    using trim_graphic [of "''edge''"] by (simp add: edge_spec_def graphic_def)
  moreover have "dep_dg (sample_deps one_server) = sample_dg" by (simp add: sample_deps_def)
  moreover have "snd (upsert_server (with_endpoint edge_server (SockV4 0xC633640A 51820)) config_default) = one_server"
    by (simp add: upsert_server_def config_default_def one_server_def cached_edge_def)
  ultimately show ?thesis
    by (simp add: add_server_eq added_edge store_server_def validate_edge bindS_def upsert_into_def
        with_endpoint_def sample_daemon_def)
qed

lemma persist_disk_full:
  "\<exists>e. fst (persist (sample_deps one_server) disk_full (sample_daemon one_server)) = Inl e"
  by (simp add: persist_def save_def sample_deps_def state_path_paths disk_full_def sample_env_def
      no_faults_def failing_def map_errS_def bindS_def sample_daemon_def write_private_def split_beta)

theorem failed_write_stays_in_memory_witness:
  "\<exists>e d'. handle (sample_deps one_server) disk_full (ReqAddServer edge_spec) (sample_daemon config_default)
       = (Inr (RespError e), d')
     \<and> find_server (d_cfg d') ''edge'' = Some cached_edge"
proof -
  obtain e d' where "persist (sample_deps one_server) disk_full (sample_daemon one_server) = (Inl e, d')"
    using persist_disk_full by (metis prod.collapse)
  then have h: "handle (sample_deps one_server) disk_full (ReqAddServer edge_spec) (sample_daemon config_default)
       = (Inr (RespError e), d')"
    by (simp add: add_edge reply_servers_def)
  have n: "trim (spec_name edge_spec) = ''edge''"
    using trim_graphic [of "''edge''"] by (simp add: edge_spec_def graphic_def)
  have v: "validate_server (dep_dg (sample_deps one_server)) (env_resolve disk_full)
      (added_server (sample_deps one_server) disk_full edge_spec) = Inr (SockV4 0xC633640A 51820)"
    by (simp add: added_edge validate_edge) (simp add: sample_deps_def validate_edge)
  from failed_write_stays_in_memory [OF v _ h] h n show ?thesis
    by (simp add: added_edge cached_edge_def)
qed

text \<open>
  C2: what is acknowledged is durable. After a request to add, edit, import or remove was
  answered with the new list, a crash of the machine leaves a state file from which the daemon
  starts with exactly the configuration it had then. The path of the state file must have a
  parent directory, and not the empty one: there the code syncs no directory.
\<close>

theorem acknowledged_is_durable:
  assumes "mutating req" and "handle dp ev req d = (Inr (RespServers l), d')"
    and "store_wf (dep_store dp) (d_disk d)" and "nonempty_parent (dep_store dp) \<noteq> None"
    and "codec_ok (dep_enc dp) (dep_dec dp)"
    and "crash (d_disk d') disk"
  shows "daemon_load dp no_faults disk w
    = Inr \<lparr>d_cfg = d_cfg d', d_wg = w, d_last_connect = None, d_disk = disk\<rparr>"
proof -
  have "saved dp ev d d' (Inr ())"
    using reply_tells_change [OF assms(1,2)] by auto
  then obtain json where json: "dep_enc dp (d_cfg d') = Inr json"
    "possible (d_disk d') (dep_store dp) = {Some json}"
    using save_Inr [OF assms(3)] assms(4) unfolding saved_def by blast
  have "file_text disk (dep_store dp) = Some json"
    using possible_crash(2) [OF assms(6), of "dep_store dp"] json(2) by simp
  moreover have "dep_dec dp json = Inr (d_cfg d')" "utf8_valid json"
    using assms(5) json(1) by (simp_all add: codec_ok_def)
  ultimately show ?thesis
    by (simp add: daemon_load_def load_def read_to_string_def no_faults_def)
qed


lemma save_on_empty:
  assumes "enc c = Inr json"
  shows "fst (save enc no_faults state_path c empty_fs) = Inr ()"
proof -
  have "fst (fs_rename (tmp_path state_path) state_path
      (snd (write_private no_faults (tmp_path state_path) json empty_fs))) = Inr ()"
    "fst (write_private no_faults (tmp_path state_path) json empty_fs) = Inr ()"
    by (simp_all add: fs_rename_def write_private_def no_faults_def fs_open_private_def fs_live_def
        empty_fs_def fs_write_def fs_sync_def Let_def)
  with assms show ?thesis
    by (simp add: save_def state_path_paths(2) failing_def no_faults_def map_errS_def bindS_def
        split_beta split: sum.split)
qed

lemma persist_on_empty:
  assumes "d_cfg d = c" "d_disk d = empty_fs"
  shows "\<exists>d1. persist (sample_deps c) sample_env d = (Inr (), d1)"
proof -
  have "fst (persist (sample_deps c) sample_env d) = Inr ()"
    using save_on_empty [of "dep_enc (sample_deps c)" c "''{}''"] assms
    by (simp add: persist_def sample_env_def sample_deps_def split_beta)
  then show ?thesis by (metis prod.collapse)
qed

lemma remove_edge:
  "\<exists>d'. handle (sample_deps config_default) sample_env (ReqRemoveServer ''edge'') (sample_daemon one_server)
     = (Inr (RespServers []), d') \<and> d_cfg d' = config_default"
proof -
  have n: "sc_name cached_edge = ''edge''" by (simp add: cached_edge_def edge_server_def)
  have "remove_server ''edge'' one_server = (True, config_default)"
    by (simp add: remove_server_def one_server_def config_default_def n)
  moreover obtain d1 where p: "persist (sample_deps config_default) sample_env
      (sample_daemon one_server\<lparr>d_cfg := config_default\<rparr>) = (Inr (), d1)"
    using persist_on_empty [where c = config_default and d = "sample_daemon one_server\<lparr>d_cfg := config_default\<rparr>"]
    by (auto simp: sample_daemon_def)
  moreover from persistD(1) [OF p] have "d_cfg d1 = config_default" by simp
  then have "fst (list_servers (sample_deps config_default) sample_env d1) = []"
    using list_servers_names [of "sample_deps config_default" sample_env d1]
    by (simp add: config_default_def)
  ultimately show ?thesis
    using \<open>d_cfg d1 = config_default\<close>
    by (simp add: remove_from_def sample_daemon_def reply_servers_def split_beta)
qed

theorem acknowledged_is_durable_witness:
  "\<exists>d' disk. handle (sample_deps config_default) sample_env (ReqRemoveServer ''edge'') (sample_daemon one_server)
       = (Inr (RespServers []), d')
     \<and> crash (d_disk d') disk
     \<and> daemon_load (sample_deps config_default) no_faults disk fake_default
       = Inr \<lparr>d_cfg = config_default, d_wg = fake_default, d_last_connect = None, d_disk = disk\<rparr>"
proof -
  obtain d' where h: "handle (sample_deps config_default) sample_env (ReqRemoveServer ''edge'')
      (sample_daemon one_server) = (Inr (RespServers []), d')" "d_cfg d' = config_default"
    using remove_edge by blast
  obtain disk where c: "crash (d_disk d') disk" using crash.crash [of "d_disk d'" "fs_data (d_disk d')"] by blast
  have w: "store_wf (dep_store (sample_deps config_default)) (d_disk (sample_daemon one_server))"
    "nonempty_parent (dep_store (sample_deps config_default)) \<noteq> None"
    using empty_store_wf state_path_paths(2) by (simp_all add: sample_deps_def sample_daemon_def)
  have m: "mutating (ReqRemoveServer ''edge'')" by (simp add: mutating_def)
  from acknowledged_is_durable [OF m h(1) w sample_codec c, of fake_default] h c show ?thesis
    by auto
qed

lemma added_on_reply:
  assumes "handle dp ev (ReqAddServer spec) d = (Inr (RespServers l), d')"
  shows "\<exists>a. find_server (d_cfg d') = (find_server (d_cfg d))(trim (spec_name spec) \<mapsto>
    with_endpoint (added_server dp ev spec) a)"
proof -
  obtain r d1 where e: "add_server dp ev spec d = (r, d1)" by (cases "add_server dp ev spec d")
  with assms have rs: "reply_servers dp ev (r, d1) = (RespServers l, d')" by (auto split: prod.splits)
  then have r: "is_ok r" by (cases r) (simp_all add: reply_servers_def)
  with e have "store_server dp ev (added_server dp ev spec) d = (r, d1)" by (auto simp: add_server_eq split: if_splits)
  moreover have "d_cfg d' = d_cfg d1" using reply_servers_keeps(1) [of dp ev "(r, d1)"] rs by simp
  ultimately show ?thesis using r by (auto elim!: store_server_cases simp: find_server_upsert)
qed

text \<open>
  C20: importing a wg-quick file is adding the server it describes. For every configuration the
  parser can produce, importing its text gives the same answer and the same state as adding
  a server with each of its fields, the private key and the preshared key included. And if
  the answer is a list, the server is stored under the trimmed name with exactly those fields;
  only an empty private key is replaced by a fresh one. No other server changes.
\<close>

theorem import_is_add:
  assumes "conf_ok c"
  shows "handle dp ev (ReqImportServer name (render_conf c)) d
    = handle dp ev (ReqAddServer
        \<lparr>spec_name = name, spec_private_key = Some (pc_private_key c), spec_public_key = pc_public_key c,
         spec_endpoint = pc_endpoint c, spec_addresses = pc_addresses c, spec_allowed_ips = pc_allowed_ips c,
         spec_listen_port = pc_listen_port c, spec_mtu = pc_mtu c, spec_keepalive = pc_keepalive c,
         spec_preshared_key = pc_preshared_key c, spec_dns = pc_dns c\<rparr>) d
    \<and> (\<forall>l d'. handle dp ev (ReqImportServer name (render_conf c)) d = (Inr (RespServers l), d') \<longrightarrow>
        (\<exists>a. find_server (d_cfg d') = (find_server (d_cfg d))(trim name \<mapsto>
          \<lparr>sc_name = trim name,
           sc_private_key = (if pc_private_key c = [] then generate_private_key (dep_dg dp) (env_fresh ev)
             else pc_private_key c),
           sc_public_key = pc_public_key c, sc_endpoint = pc_endpoint c,
           sc_resolved_endpoint = Some (show_sock a), sc_addresses = pc_addresses c,
           sc_allowed_ips = pc_allowed_ips c,
           sc_listen_port = (case pc_listen_port c of None \<Rightarrow> 0 | Some p \<Rightarrow> p), sc_mtu = pc_mtu c,
           sc_keepalive = pc_keepalive c, sc_preshared_key = pc_preshared_key c, sc_dns = pc_dns c\<rparr>)))"
    (is "?import = handle dp ev (ReqAddServer ?spec) d \<and> ?stored")
proof
  have "spec_of_conf name c = ?spec" by (simp add: spec_of_conf_def)
  moreover obtain r d1 where "add_server dp ev ?spec d = (r, d1)" by (cases "add_server dp ev ?spec d")
  ultimately show add: "?import = handle dp ev (ReqAddServer ?spec) d"
    by (cases r) (simp_all add: import_server_def parse_render [OF assms] reply_servers_def split_beta)
  have "trim (pc_private_key c) = pc_private_key c"
    using assms by (intro trim_trimmed) (simp add: conf_ok_def conf_value_def)
  then show ?stored
    unfolding add using added_on_reply [of dp ev ?spec d]
    by (auto simp: added_server_def server_of_spec_def with_endpoint_def supplied_def)
qed

definition edge_conf :: parsed_config where
  "edge_conf =
     \<lparr>pc_private_key = ''7'', pc_addresses = [''10.0.0.2/24''], pc_dns = [], pc_listen_port = Some 51820,
      pc_mtu = None, pc_public_key = ''42'', pc_endpoint = ''198.51.100.10:51820'',
      pc_allowed_ips = [''0.0.0.0/0''], pc_preshared_key = None, pc_keepalive = Some 25\<rparr>"

lemma edge_conf_ok: "conf_ok edge_conf"
  by (simp add: edge_conf_def conf_ok_def conf_value_def conf_item_def trimmed_graphic graphic_def)

lemma edge_conf_added:
  "\<exists>l d'. handle (sample_deps one_server) sample_env (ReqAddServer edge_spec) (sample_daemon config_default)
     = (Inr (RespServers l), d')"
proof -
  obtain d1 where "persist (sample_deps one_server) sample_env (sample_daemon one_server) = (Inr (), d1)"
    using persist_on_empty [where c = one_server and d = "sample_daemon one_server"] by (auto simp: sample_daemon_def)
  then show ?thesis by (simp add: add_edge reply_servers_def split_beta)
qed

theorem import_is_add_witness:
  "\<exists>l d' s. handle (sample_deps one_server) sample_env (ReqImportServer ''edge'' (render_conf edge_conf))
       (sample_daemon config_default) = (Inr (RespServers l), d')
     \<and> find_server (d_cfg d') ''edge'' = Some s \<and> sc_private_key s = ''7'' \<and> sc_keepalive s = Some 25"
proof -
  note import = import_is_add [OF edge_conf_ok, of "sample_deps one_server" sample_env "''edge''"
      "sample_daemon config_default"]
  have "trim ''edge'' = ''edge''" by (rule trim_graphic) (simp add: graphic_def)
  with import edge_conf_added show ?thesis by (auto simp: edge_conf_def edge_spec_def)
qed

text \<open>
  C7: a successful edit keeps what the client may not see. The server existed and is not the
  active tunnel; its private key and its preshared key are the old ones unless a new one that
  is not blank was given; the other fields are those of the request, with the endpoint's address
  cached; no other server changes.
\<close>

theorem edit_keeps_secrets:
  assumes "handle dp ev (ReqEditServer spec) d = (Inr (RespServers l), d')"
  shows "\<exists>old derived a. find_server (d_cfg d) (trim (spec_name spec)) = Some old
    \<and> public_key (dep_dg dp) (sc_private_key old) = Inr derived
    \<and> fst (active_public_key dp d) \<noteq> Some derived
    \<and> find_server (d_cfg d') = (find_server (d_cfg d))(trim (spec_name spec) \<mapsto>
        \<lparr>sc_name = trim (spec_name spec),
         sc_private_key = (case spec_private_key spec of
             None \<Rightarrow> sc_private_key old
           | Some k \<Rightarrow> (if trim k = [] then sc_private_key old else trim k)),
         sc_public_key = spec_public_key spec, sc_endpoint = spec_endpoint spec,
         sc_resolved_endpoint = Some (show_sock a), sc_addresses = spec_addresses spec,
         sc_allowed_ips = spec_allowed_ips spec,
         sc_listen_port = (case spec_listen_port spec of None \<Rightarrow> 0 | Some p \<Rightarrow> p), sc_mtu = spec_mtu spec,
         sc_keepalive = spec_keepalive spec,
         sc_preshared_key = (case spec_preshared_key spec of
             None \<Rightarrow> sc_preshared_key old
           | Some k \<Rightarrow> (if trim k = [] then sc_preshared_key old else Some (trim k))),
         sc_dns = spec_dns spec\<rparr>)"
proof -
  obtain r d1 where e: "edit_server dp ev spec d = (r, d1)" by (cases "edit_server dp ev spec d")
  with assms have rs: "reply_servers dp ev (r, d1) = (RespServers l, d')" by (auto split: prod.splits)
  then have r: "is_ok r" by (cases r) (simp_all add: reply_servers_def)
  have c: "d_cfg d' = d_cfg d1" using reply_servers_keeps(1) [of dp ev "(r, d1)"] rs by simp
  have server: "with_endpoint (edited_server spec old) a =
      \<lparr>sc_name = trim (spec_name spec),
       sc_private_key = (case spec_private_key spec of
           None \<Rightarrow> sc_private_key old
         | Some k \<Rightarrow> (if trim k = [] then sc_private_key old else trim k)),
       sc_public_key = spec_public_key spec, sc_endpoint = spec_endpoint spec,
       sc_resolved_endpoint = Some (show_sock a), sc_addresses = spec_addresses spec,
       sc_allowed_ips = spec_allowed_ips spec,
       sc_listen_port = (case spec_listen_port spec of None \<Rightarrow> 0 | Some p \<Rightarrow> p), sc_mtu = spec_mtu spec,
       sc_keepalive = spec_keepalive spec,
       sc_preshared_key = (case spec_preshared_key spec of
           None \<Rightarrow> sc_preshared_key old
         | Some k \<Rightarrow> (if trim k = [] then sc_preshared_key old else Some (trim k))),
       sc_dns = spec_dns spec\<rparr>" for old a
    by (simp add: edited_server_def server_of_spec_def with_endpoint_def supplied_def split: option.split)
  from e show ?thesis
  proof (cases rule: edit_server_cases)
    case (edited old derived d2)
    from edited(6) show ?thesis
    proof (cases rule: store_server_cases)
      case (stored a)
      have "d_cfg d2 = d_cfg d" by (simp add: edited(5))
      then have "find_server (d_cfg d') = (find_server (d_cfg d))(trim (spec_name spec) \<mapsto>
          with_endpoint (edited_server spec old) a)"
        by (simp add: c stored(2) find_server_upsert)
      moreover have "fst (active_public_key dp d) \<noteq> Some derived"
        using edited(4,5) by (metis prod.collapse)
      ultimately show ?thesis using edited(2,3) unfolding server by blast
    qed (use r in simp)
  qed (use r in simp)
qed


definition edit_spec :: server_spec where
  "edit_spec = edge_spec\<lparr>spec_private_key := None\<rparr>"

lemma edit_edge:
  "\<exists>d' l. handle (sample_deps one_server) sample_env (ReqEditServer edit_spec) (sample_daemon one_server)
     = (Inr (RespServers l), d')"
proof -
  have n: "trim (spec_name edit_spec) = ''edge''"
    using trim_graphic [of "''edge''"] by (simp add: edit_spec_def edge_spec_def graphic_def)
  have f: "find_server one_server ''edge'' = Some cached_edge"
    by (simp add: find_server_def one_server_def cached_edge_def) (simp add: edge_server_def)
  have k: "public_key sample_dg (sc_private_key cached_edge) = Inr (show_nat 1007)"
    by (simp add: public_key_def cached_edge_def with_endpoint_def edge_server_def edge_trims sample_dg_def
        sample_key_parse_def parse_unsigned_def parser_evals)
  have e: "edited_server edit_spec cached_edge = edge_server"
    using n by (simp add: edited_server_def server_of_spec_def supplied_def)
      (simp add: edit_spec_def edge_spec_def edge_server_def cached_edge_def with_endpoint_def)
  have a: "active_public_key (sample_deps one_server) (sample_daemon one_server)
      = (None, sample_daemon one_server)"
    by (simp add: active_public_key_def on_wg_def sample_deps_def sample_daemon_def fake_wireguard_def
        fake_status_def fake_live_def fake_default_def)
  have u: "snd (upsert_server (with_endpoint edge_server (SockV4 0xC633640A 51820)) one_server) = one_server"
    by (simp add: upsert_server_def one_server_def cached_edge_def)
  have d: "d_cfg (sample_daemon one_server) = one_server" "dep_dg (sample_deps one_server) = sample_dg"
    by (simp_all add: sample_daemon_def sample_deps_def)
  have "edit_server (sample_deps one_server) sample_env edit_spec (sample_daemon one_server)
      = store_server (sample_deps one_server) sample_env (edited_server edit_spec cached_edge)
          (sample_daemon one_server)"
    unfolding edit_server_def Let_def n edited_server_def
    by (simp add: d f k a)
  also have "\<dots> = persist (sample_deps one_server) sample_env (sample_daemon one_server)"
    unfolding e store_edge d u by (simp add: sample_daemon_def)
  finally have "edit_server (sample_deps one_server) sample_env edit_spec (sample_daemon one_server)
      = persist (sample_deps one_server) sample_env (sample_daemon one_server)" .
  moreover obtain d1 where "persist (sample_deps one_server) sample_env (sample_daemon one_server) = (Inr (), d1)"
    using persist_on_empty [where c = one_server and d = "sample_daemon one_server"] by (auto simp: sample_daemon_def)
  ultimately show ?thesis by (simp add: reply_servers_def split_beta)
qed

theorem edit_keeps_secrets_witness:
  "\<exists>l d' s. handle (sample_deps one_server) sample_env (ReqEditServer edit_spec) (sample_daemon one_server)
     = (Inr (RespServers l), d') \<and> find_server (d_cfg d') ''edge'' = Some s \<and> sc_private_key s = ''7''"
proof -
  obtain l d' where h: "handle (sample_deps one_server) sample_env (ReqEditServer edit_spec)
      (sample_daemon one_server) = (Inr (RespServers l), d')"
    using edit_edge by blast
  have n: "trim (spec_name edit_spec) = ''edge''"
    using trim_graphic [of "''edge''"] by (simp add: edit_spec_def edge_spec_def graphic_def)
  have f: "find_server (d_cfg (sample_daemon one_server)) ''edge'' = Some cached_edge"
    by (simp add: sample_daemon_def find_server_def one_server_def cached_edge_def) (simp add: edge_server_def)
  have "spec_private_key edit_spec = None" "sc_private_key cached_edge = ''7''"
    by (simp_all add: edit_spec_def cached_edge_def with_endpoint_def edge_server_def)
  then have "\<exists>s. find_server (d_cfg d') ''edge'' = Some s \<and> sc_private_key s = ''7''"
    using edit_keeps_secrets [OF h] f
    by (auto simp: n)
  with h show ?thesis by blast
qed

end
