(* ===== verification/Daemon_Views.thy ===== *)
theory Daemon_Views
  imports Daemon_Spec
begin

section \<open>What the daemon tells about the tunnel\<close>

text \<open>
  The daemon on a backend that keeps the contract \<open>wireguard_contract\<close>: what a list or a status
  says after a switch, which server may be edited, and that what clients are told does not
  depend on the secrets. That \<open>KernelWireguard\<close> keeps the contract is in \<open>Kernel_Contract\<close>.
\<close>

abbreviation backend_ok :: "('k, 'w) deps \<Rightarrow> ('w \<Rightarrow> live_interface option) \<Rightarrow> bool" where
  "backend_ok dp up \<equiv> wireguard_contract (dep_wg dp) up (\<lambda>s. public_key (dep_dg dp) (sc_private_key s))"

section \<open>Properties of the tunnel's views\<close>

subsection \<open>The active server\<close>

lemma map_replace_first:
  assumes "\<And>x. x \<in> set xs \<Longrightarrow> P x \<Longrightarrow> f x = f y"
  shows "map f (replace_first P y xs) = map f xs"
  using assms by (induction xs) auto

lemma map_upsert_same:
  assumes "config_inv c" "find_server c n = Some s" "sc_name t = n" "f t = f s"
  shows "map f (servers (snd (upsert_server t c))) = map f (servers c)"
proof -
  have s: "s \<in> set (servers c)" "sc_name s = n" using find_server_set [OF assms(2)] by simp_all
  have "f x = f t" if "x \<in> set (servers c)" "sc_name x = n" for x
  proof -
    have "x = s" using assms(1) s that unfolding config_inv_def by (metis distinct_map inj_onD)
    with assms(4) show ?thesis by simp
  qed
  then show ?thesis
    using assms(2,3) by (auto simp: upsert_server_def find_server_def intro!: map_replace_first)
qed

lemma switched_map:
  assumes "config_inv (d_cfg d)" "\<And>s. f (with_endpoint s a) = f s"
  shows "map f (servers (d_cfg (switched dp ev n a d))) = map f (servers (d_cfg d))"
  using assms find_server_set [of "d_cfg d" n]
  by (auto simp: switched_cfg map_upsert_same split: option.split)

text \<open>The entries of a list that are marked active.\<close>

definition active_names :: "server_info list \<Rightarrow> string list" where
  "active_names l = map info_name (filter info_active l)"

lemma list_entry_active:
  assumes "public_key dg (sc_private_key s) = Inr k"
  shows "info_active (list_entry dg now c live s) \<longleftrightarrow> Option.bind live li_public_key = Some k"
  using assms by (auto simp: list_entry_def Let_def info_def)

lemma server_key: "server_ok dg s \<Longrightarrow> \<exists>k. public_key dg (sc_private_key s) = Inr k"
  by (auto simp: server_ok_def well_formed_def is_ok_iff public_key_def)

lemma listed_active:
  assumes "\<forall>s \<in> set xs. server_ok dg s"
  shows "active_names (map (list_entry dg now c live) xs) =
    map sc_name (filter (\<lambda>s. \<exists>k. Option.bind live li_public_key = Some k
      \<and> public_key dg (sc_private_key s) = Inr k) xs)"
  using assms
proof (induction xs)
  case (Cons s xs)
  then obtain k where "public_key dg (sc_private_key s) = Inr k" using server_key by force
  with Cons show ?case by (auto simp: active_names_def list_entry_active)
qed (simp add: active_names_def)

lemma switch_success:
  assumes "backend_ok dp up" "handle dp ev (ReqSwitchServer n) d = (Inr (RespSwitched m), d1)"
  obtains s a w li k where "find_server (d_cfg d) n = Some s" "d1 = switched dp ev n a (d\<lparr>d_wg := w\<rparr>)"
    "wg_status (dep_wg dp) w = (Inr li, w)" "public_key (dep_dg dp) (sc_private_key s) = Inr k"
    "li_public_key li = Some k"
proof -
  from assms(2) have "switch_server dp ev n d = (RespSwitched m, d1)" by (auto split: prod.splits)
  then show thesis
  proof (cases rule: switch_server_cases)
    case (success s a w)
    from wireguard_contract.switched_key [OF assms(1) success(2)] success that show thesis by blast
  qed simp_all
qed

lemma list_servers_live:
  assumes "wg_status (dep_wg dp) (d_wg d) = (r, d_wg d)"
  shows "list_servers dp ev d =
    (map (list_entry (dep_dg dp) (env_now ev) (is_connecting ev d) (ok r)) (servers (d_cfg d)), d)"
  using assms by (simp add: list_servers_def on_wg_def)

lemma filter_keys:
  assumes "map (\<lambda>s. (sc_name s, sc_private_key s)) xs = map (\<lambda>s. (sc_name s, sc_private_key s)) ys"
  shows "map sc_name (filter (\<lambda>s. P (sc_private_key s)) xs) = map sc_name (filter (\<lambda>s. P (sc_private_key s)) ys)"
proof -
  have eq: "map sc_name (filter (\<lambda>s. P (sc_private_key s)) zs)
      = map fst (filter (P \<circ> snd) (map (\<lambda>s. (sc_name s, sc_private_key s)) zs))" for zs
    by (simp add: filter_map comp_def)
  show ?thesis by (simp only: eq assms)
qed

text \<open>
  C27: what is switched to is listed as active. After a successful switch a list marks as active
  exactly the servers whose private key has the public key of the chosen one, the chosen one
  among them: it alone, if no two servers share a key. It needs a backend that keeps its
  contract.
\<close>

theorem switched_is_active:
  assumes "backend_ok dp up" and "config_ok (dep_dg dp) (d_cfg d)"
    and "handle dp ev (ReqSwitchServer n) d = (Inr (RespSwitched m), d1)"
    and "handle dp ev' (ReqListServers None) d1 = (Inr (RespServers l), d2)"
  shows "\<exists>s k. find_server (d_cfg d) n = Some s \<and> public_key (dep_dg dp) (sc_private_key s) = Inr k
    \<and> active_names l = map sc_name
        (filter (\<lambda>t. public_key (dep_dg dp) (sc_private_key t) = Inr k) (servers (d_cfg d)))
    \<and> n \<in> set (active_names l) \<and> d2 = d1"
proof -
  from assms(1,3) obtain s a w li k where s: "find_server (d_cfg d) n = Some s"
    and d1: "d1 = switched dp ev n a (d\<lparr>d_wg := w\<rparr>)" and st: "wg_status (dep_wg dp) w = (Inr li, w)"
    and k: "public_key (dep_dg dp) (sc_private_key s) = Inr k" "li_public_key li = Some k"
    by (rule switch_success)
  have "config_ok (dep_dg dp) (d_cfg d1)"
    using handle_config_ok [OF assms(2), of ev "ReqSwitchServer n"] assms(3) by simp
  then have ok1: "\<forall>t \<in> set (servers (d_cfg d1)). server_ok (dep_dg dp) t" by (simp add: config_ok_def)
  have "wg_status (dep_wg dp) (d_wg d1) = (Inr li, d_wg d1)" by (simp add: d1 st)
  from list_servers_live [OF this] assms(4) have d2: "d2 = d1"
    and l: "l = map (list_entry (dep_dg dp) (env_now ev') (is_connecting ev' d1) (Some li)) (servers (d_cfg d1))"
    by auto
  have "config_inv (d_cfg (d\<lparr>d_wg := w\<rparr>))" using assms(2) by (simp add: config_ok_def)
  from switched_map [OF this, of "\<lambda>s. (sc_name s, sc_private_key s)" a dp ev n]
  have "map (\<lambda>s. (sc_name s, sc_private_key s)) (servers (d_cfg d1))
      = map (\<lambda>s. (sc_name s, sc_private_key s)) (servers (d_cfg d))"
    by (simp add: d1 with_endpoint_def)
  from filter_keys [OF this, of "\<lambda>p. public_key (dep_dg dp) p = Inr k"]
  have active: "active_names l = map sc_name
      (filter (\<lambda>t. public_key (dep_dg dp) (sc_private_key t) = Inr k) (servers (d_cfg d)))"
    unfolding l listed_active [OF ok1] by (simp add: k(2))
  then have "n \<in> set (active_names l)"
    using s k(1) find_server_set [OF s] by auto
  with s k(1) active d2 show ?thesis by blast
qed

text \<open>
  C28: the active tunnel cannot be edited. After a successful switch to a server an attempt to
  edit it is refused, and nothing changes.
\<close>

theorem active_not_edited:
  assumes "backend_ok dp up" and "config_ok (dep_dg dp) (d_cfg d)"
    and "handle dp ev (ReqSwitchServer n) d = (Inr (RespSwitched m), d1)"
    and "trim (spec_name spec) = n"
  shows "\<exists>e. handle dp ev' (ReqEditServer spec) d1 = (Inr (RespError e), d1)"
proof -
  from assms(1,3) obtain s a w li k where s: "find_server (d_cfg d) n = Some s"
    and d1: "d1 = switched dp ev n a (d\<lparr>d_wg := w\<rparr>)" and st: "wg_status (dep_wg dp) w = (Inr li, w)"
    and k: "public_key (dep_dg dp) (sc_private_key s) = Inr k" "li_public_key li = Some k"
    by (rule switch_success)
  have n: "n \<noteq> []" using assms(2) find_server_set [OF s] by (auto simp: config_ok_def server_ok_def)
  obtain s1 where s1: "find_server (d_cfg d1) n = Some s1" "sc_private_key s1 = sc_private_key s"
    using s find_server_set [OF s]
    by (cases "sc_resolved_endpoint s = Some (show_sock a)")
      (auto simp: d1 switched_cfg find_server_upsert with_endpoint_def)
  have "active_public_key dp d1 = (Some k, d1)"
    by (simp add: active_public_key_def on_wg_def d1 st k(2))
  then show ?thesis
    using n s1 k(1) by (simp add: edit_server_def assms(4) Let_def reply_servers_def)
qed

text \<open>After a disconnect that succeeded the tunnel is down and no server is active.\<close>

lemma disconnected_inactive:
  assumes "backend_ok dp up" and "config_ok (dep_dg dp) (d_cfg d)"
    and "handle dp ev ReqDisconnect d = (Inr RespDisconnected, d1)"
    and "handle dp ev' (ReqListServers None) d1 = (Inr (RespServers l), d2)"
  shows "active_names l = [] \<and> fst (handle dp ev' ReqStatus d1) = Inr RespDisconnected"
proof -
  from assms(3) obtain w where w: "wg_disconnect (dep_wg dp) (d_wg d) = (Inr (), w)"
    and d1: "d1 = clear_connecting (d\<lparr>d_wg := w\<rparr>)"
    by (auto simp: on_wg_def split: prod.splits sum.splits)
  from wireguard_contract.disconnected_status [OF assms(1) w] obtain e where "wg_status (dep_wg dp) w = (Inl e, w)"
    by blast
  then have st: "wg_status (dep_wg dp) (d_wg d1) = (Inl e, d_wg d1)" by (simp add: d1 clear_connecting_def)
  have "d_cfg d1 = d_cfg d" by (simp add: d1 clear_connecting_def)
  with assms(2,4) list_servers_live [OF st] have "active_names l = []"
    using listed_active [of "servers (d_cfg d)" "dep_dg dp" "env_now ev'" "is_connecting ev' d1" None]
    by (auto simp: config_ok_def)
  with st show ?thesis by (simp add: read_status_def bindS_def on_wg_def)
qed

text \<open>
  C30: the state a status shows after a switch. A peer with a handshake is alive for 180 seconds
  after it and stale then; one without is connecting for 15 seconds after the switch, and
  counts as never connected then.
\<close>

theorem status_after_switch:
  assumes "handle dp ev (ReqSwitchServer n) d = (Inr (RespSwitched m), d1)"
    and "handle dp ev' ReqStatus d1 = (Inr (RespStatus st), d2)" and "p \<in> set (is_peers st)"
  shows "ps_state p =
    (case ps_handshake_age_secs p of
       Some age \<Rightarrow> if unat age < 180 then Alive else Stale
     | None \<Rightarrow> if env_instant ev' - env_instant ev < 15 * 1000000000 then Connecting else Never)"
proof -
  from assms(1) have "switch_server dp ev n d = (RespSwitched m, d1)" by (auto split: prod.splits)
  then have "d_last_connect d1 = Some (env_instant ev)"
    by (cases rule: switch_server_cases) simp_all
  moreover from assms(2) obtain live d3 where "on_wg (wg_status (dep_wg dp)) d1 = (Inr live, d3)"
    and st: "is_peers st = map (peer_status_of (env_now ev') (is_connecting ev' d3)) (li_peers live)"
    by (auto simp: read_status_def bindS_def split: prod.splits sum.splits)
  then have "d_last_connect d3 = d_last_connect d1" by (simp add: on_wgD)
  ultimately have "is_connecting ev' d3 \<longleftrightarrow> env_instant ev' - env_instant ev < 15 * 1000000000"
    by (simp add: is_connecting_def connecting_window_def second_def)
  with assms(3) show ?thesis
    by (auto simp: st peer_status_of_def Let_def derive_state_def stale_after_secs_def split: option.split)
qed

text \<open>
  An entry finds its peer by the text of its key as it was stored. A key stored with blanks around it is
  not the one the interface reports, and the entry of that tunnel never shows a handshake.
\<close>

lemma untrimmed_key_never_alive:
  assumes "list_all (\<lambda>p. trimmed (lp_public_key p)) (li_peers l)" "\<not> trimmed (sc_public_key s)"
  shows "info_state (list_entry dg now c (Some l) s) \<in> {None, Some (derive_state None c)}"
proof -
  have "find (\<lambda>p. lp_public_key p = sc_public_key s) (li_peers l) = None"
    using assms by (auto simp: find_None_iff list_all_iff)
  then show ?thesis
    by (cases "info dg s False") (auto simp: list_entry_def unavailable_info_def info_def bindR_def Let_def split: sum.splits)
qed

subsection \<open>What clients are told does not depend on the secrets\<close>

text \<open>
  Two servers agree in public if each field a client may see is the same, both or neither have a
  preshared key, and their private keys have the same public key or fail to parse with the same
  message. The private keys, the preshared keys and the cached addresses may differ. Two
  daemons agree if their servers do one by one and they see the same tunnel.
\<close>

definition derived_key :: "'k defguard \<Rightarrow> string \<Rightarrow> string result" where
  "derived_key dg private_key =
     (case key_from_str dg (trim private_key) of
        Inl e \<Rightarrow> Inl e
      | Inr key \<Rightarrow> Inr (key_to_string dg (key_public_key dg key)))"

definition same_public :: "'k defguard \<Rightarrow> server_config \<Rightarrow> server_config \<Rightarrow> bool" where
  "same_public dg s t \<longleftrightarrow>
     sc_name s = sc_name t \<and> sc_public_key s = sc_public_key t \<and> sc_endpoint s = sc_endpoint t
     \<and> sc_addresses s = sc_addresses t \<and> sc_allowed_ips s = sc_allowed_ips t
     \<and> sc_listen_port s = sc_listen_port t \<and> sc_mtu s = sc_mtu t \<and> sc_keepalive s = sc_keepalive t
     \<and> sc_dns s = sc_dns t
     \<and> (sc_preshared_key s = None \<longleftrightarrow> sc_preshared_key t = None)
     \<and> derived_key dg (sc_private_key s) = derived_key dg (sc_private_key t)"

definition agree :: "'k defguard \<Rightarrow> 'w daemon \<Rightarrow> 'w daemon \<Rightarrow> bool" where
  "agree dg d e \<longleftrightarrow> list_all2 (same_public dg) (servers (d_cfg d)) (servers (d_cfg e))
     \<and> d_wg d = d_wg e \<and> d_last_connect d = d_last_connect e"

definition is_query :: "request \<Rightarrow> bool" where
  "is_query req \<longleftrightarrow>
     (case req of ReqStatus \<Rightarrow> True | ReqListServers q \<Rightarrow> True | ReqGetServer n \<Rightarrow> True | _ \<Rightarrow> False)"

lemma detail_public: "same_public dg s t \<Longrightarrow> detail s = detail t"
  by (simp add: same_public_def detail_def)

lemma info_public: "same_public dg s t \<Longrightarrow> info dg s active = info dg t active"
  by (auto simp: same_public_def info_def public_key_def derived_key_def split: sum.splits)

lemma list_entry_public:
  assumes "same_public dg s t"
  shows "list_entry dg now c live s = list_entry dg now c live t"
proof -
  have u: "unavailable_info s = unavailable_info t" and k: "sc_public_key s = sc_public_key t"
    using assms by (simp_all add: same_public_def unavailable_info_def fun_eq_iff)
  show ?thesis unfolding list_entry_def info_public [OF assms] u k ..
qed

lemma entries_public:
  "list_all2 (same_public dg) xs ys \<Longrightarrow> map (list_entry dg now c live) xs = map (list_entry dg now c live) ys"
  by (induction rule: list_all2_induct) (simp_all add: list_entry_public)

lemma find_public:
  "list_all2 (same_public dg) xs ys \<Longrightarrow>
   map_option detail (find (\<lambda>s. sc_name s = n) xs) = map_option detail (find (\<lambda>s. sc_name s = n) ys)"
  by (induction rule: list_all2_induct) (auto simp: detail_public, auto simp: same_public_def)

lemma agree_on_wg:
  assumes "agree dg d e"
  shows "fst (on_wg m d) = fst (on_wg m e) \<and> agree dg (snd (on_wg m d)) (snd (on_wg m e))"
  using assms by (auto simp: agree_def on_wg_def split: prod.split)

lemma agree_connecting: "agree dg d e \<Longrightarrow> is_connecting ev d = is_connecting ev e"
  by (simp add: agree_def is_connecting_def)

lemma agree_list:
  assumes "agree (dep_dg dp) d e"
  shows "fst (list_servers dp ev d) = fst (list_servers dp ev e)
    \<and> agree (dep_dg dp) (snd (list_servers dp ev d)) (snd (list_servers dp ev e))"
proof -
  have a: "agree (dep_dg dp) (snd (on_wg (wg_status (dep_wg dp)) d)) (snd (on_wg (wg_status (dep_wg dp)) e))"
    and r: "fst (on_wg (wg_status (dep_wg dp)) d) = fst (on_wg (wg_status (dep_wg dp)) e)"
    using agree_on_wg [OF assms] by blast+
  from a have "list_all2 (same_public (dep_dg dp)) (servers (d_cfg d)) (servers (d_cfg e))"
    by (simp add: agree_def)
  from entries_public [OF this] agree_connecting [OF a, of ev] a r show ?thesis
    by (simp add: list_servers_def split_beta)
qed

lemma agree_status:
  assumes "agree (dep_dg dp) d e"
  shows "fst (read_status dp ev d) = fst (read_status dp ev e)
    \<and> agree (dep_dg dp) (snd (read_status dp ev d)) (snd (read_status dp ev e))"
proof -
  obtain r d' e' where o: "on_wg (wg_status (dep_wg dp)) d = (r, d')" "on_wg (wg_status (dep_wg dp)) e = (r, e')"
    and a: "agree (dep_dg dp) d' e'"
    using agree_on_wg [OF assms, of "wg_status (dep_wg dp)"] by (metis prod.collapse)
  with agree_connecting [OF a, of ev] show ?thesis
    by (cases r) (simp_all add: read_status_def bindS_def)
qed

text \<open>
  C29: secrets flow one way. Whatever is asked with a status, a list or a detail, the answer does
  not depend on the private keys, except through the public keys derived from them, nor on the
  preshared keys, except through whether there is one: two daemons that differ in nothing else
  answer alike, and still do so afterwards.
\<close>

theorem views_hide_secrets:
  assumes "agree (dep_dg dp) d e" and "is_query req"
  shows "fst (handle dp ev req d) = fst (handle dp ev req e)
    \<and> agree (dep_dg dp) (snd (handle dp ev req d)) (snd (handle dp ev req e))"
proof (cases req)
  case ReqStatus
  with agree_status [OF assms(1), of ev] show ?thesis
    by (auto split: prod.split sum.split)
next
  case (ReqListServers q)
  with agree_list [OF assms(1), of ev] show ?thesis by (cases q) (simp_all add: split_beta)
next
  case (ReqGetServer n)
  moreover have "get_server n d = get_server n e"
    using assms(1) find_public [of "dep_dg dp" "servers (d_cfg d)" "servers (d_cfg e)" n]
    by (simp add: get_server_def find_server_def agree_def)
  ultimately show ?thesis using assms(1) by (simp split: sum.split)
qed (use assms(2) in \<open>simp_all add: is_query_def\<close>)


subsection \<open>Examples\<close>

text \<open>The sample daemon after a switch to its server.\<close>

definition edge_live :: fake where
  "edge_live = \<lparr>fk_calls = [''switch:edge''],
     fk_live_peers = Some [\<lparr>fp_public_key = ''42'', fp_last_handshake = None\<rparr>],
     fk_last_switch_addresses = [''10.0.0.2/24''], fk_live_pubkey = Some ''1007'', fk_fail_with = None\<rparr>"

lemma find_edge: "find_server one_server ''edge'' = Some cached_edge"
  by (simp add: find_server_def one_server_def cached_edge_def) (simp add: edge_server_def)

lemma edge_key: "public_key sample_dg (sc_private_key cached_edge) = Inr ''1007''"
  by (simp add: public_key_def cached_edge_def with_endpoint_def edge_server_def edge_trims sample_dg_def
      sample_key_parse_def parse_unsigned_def parser_evals show_nat.simps digit_char_def char_of_def bit_0)

lemma edge_sock: "parse_sock (sc_endpoint cached_edge) = Some (SockV4 0xC633640A 51820)"
  by (simp add: cached_edge_def with_endpoint_def edge_server_def parser_evals)

lemma switch_edge:
  "handle (sample_deps one_server) sample_env (ReqSwitchServer ''edge'') (sample_daemon one_server)
   = (Inr (RespSwitched ''edge''), (sample_daemon one_server)\<lparr>d_wg := edge_live, d_last_connect := Some 0\<rparr>)"
proof -
  have f: "sc_name cached_edge = ''edge''" "sc_public_key cached_edge = ''42''"
    "sc_addresses cached_edge = [''10.0.0.2/24'']"
    "sc_resolved_endpoint cached_edge = Some (show_sock (SockV4 0xC633640A 51820))"
    by (simp_all add: cached_edge_def with_endpoint_def edge_server_def)
  have "fake_switch sample_dg no_resolver cached_edge fake_default = (Inr (SockV4 0xC633640A 51820), edge_live)"
    by (simp add: fake_switch_def bindS_def check_fail_def fake_record_def fake_default_def edge_key edge_sock f
        edge_live_def)
  then show ?thesis
    by (simp add: switch_server_def sample_daemon_def sample_deps_def find_edge on_wg_def fake_wireguard_def
        sample_env_def switched_def mark_connecting_def f)
qed

lemma sample_backend: "backend_ok (sample_deps c) fake_live"
  using fake.wireguard_contract_axioms [of sample_dg] by (simp add: sample_deps_def)

lemma one_server_ok: "config_ok (dep_dg (sample_deps c)) (d_cfg (sample_daemon one_server))"
proof -
  have "server_ok sample_dg (with_endpoint edge_server (SockV4 0xC633640A 51820))"
    by (rule with_endpoint_ok [OF validate_edge])
      (simp_all add: edge_server_def trimmed_graphic graphic_def)
  then show ?thesis
    by (simp add: sample_deps_def sample_daemon_def one_server_def config_ok_def config_inv_def cached_edge_def)
qed

theorem switched_is_active_witness:
  "\<exists>l d2. handle (sample_deps one_server) sample_env (ReqListServers None)
       ((sample_daemon one_server)\<lparr>d_wg := edge_live, d_last_connect := Some 0\<rparr>) = (Inr (RespServers l), d2)
     \<and> active_names l = [''edge'']"
proof -
  obtain l d2 where l: "handle (sample_deps one_server) sample_env (ReqListServers None)
       ((sample_daemon one_server)\<lparr>d_wg := edge_live, d_last_connect := Some 0\<rparr>) = (Inr (RespServers l), d2)"
    by (auto simp: split_beta)
  have s: "servers (d_cfg (sample_daemon one_server)) = [cached_edge]" "sc_name cached_edge = ''edge''"
    by (simp_all add: sample_daemon_def one_server_def cached_edge_def edge_server_def)
  have "find_server (d_cfg (sample_daemon one_server)) ''edge'' = Some cached_edge"
    using find_edge by (simp add: sample_daemon_def)
  then have "active_names l = [''edge'']"
    using switched_is_active [OF sample_backend one_server_ok switch_edge l] edge_key s
    by (auto simp: sample_deps_def)
  with l show ?thesis by blast
qed

theorem active_not_edited_witness:
  "\<exists>e. handle (sample_deps one_server) sample_env (ReqEditServer edit_spec)
     ((sample_daemon one_server)\<lparr>d_wg := edge_live, d_last_connect := Some 0\<rparr>)
   = (Inr (RespError e), (sample_daemon one_server)\<lparr>d_wg := edge_live, d_last_connect := Some 0\<rparr>)"
proof -
  have "trim (spec_name edit_spec) = ''edge''"
    using trim_graphic [of "''edge''"] by (simp add: edit_spec_def edge_spec_def graphic_def)
  from active_not_edited [OF sample_backend one_server_ok switch_edge this] show ?thesis .
qed

theorem status_after_switch_witness:
  "\<exists>st d2 p. handle (sample_deps one_server) (sample_env\<lparr>env_instant := 20000000000\<rparr>) ReqStatus
       ((sample_daemon one_server)\<lparr>d_wg := edge_live, d_last_connect := Some 0\<rparr>) = (Inr (RespStatus st), d2)
     \<and> is_peers st = [p] \<and> ps_handshake_age_secs p = None \<and> ps_state p = Never"
proof -
  let ?ev = "sample_env\<lparr>env_instant := 20000000000\<rparr>"
  obtain st d2 p where st: "handle (sample_deps one_server) ?ev ReqStatus
       ((sample_daemon one_server)\<lparr>d_wg := edge_live, d_last_connect := Some 0\<rparr>) = (Inr (RespStatus st), d2)"
    and p: "is_peers st = [p]" "ps_handshake_age_secs p = None"
    by (simp add: read_status_def bindS_def on_wg_def sample_deps_def fake_wireguard_def fake_status_def
        fake_live_def edge_live_def peer_status_of_def handshake_age_def)
  have "ps_state p = Never"
    using status_after_switch [OF switch_edge st, of p] p by (simp add: sample_env_def)
  with st p show ?thesis by blast
qed

text \<open>Two daemons whose servers have different preshared keys.\<close>

definition with_psk :: "string \<Rightarrow> fake daemon" where
  "with_psk k = sample_daemon \<lparr>servers = [cached_edge\<lparr>sc_preshared_key := Some k\<rparr>]\<rparr>"

theorem views_hide_secrets_witness:
  "sc_preshared_key (hd (servers (d_cfg (with_psk ''8'')))) \<noteq> sc_preshared_key (hd (servers (d_cfg (with_psk ''9''))))
   \<and> fst (handle (sample_deps one_server) sample_env (ReqGetServer ''edge'') (with_psk ''8''))
     = fst (handle (sample_deps one_server) sample_env (ReqGetServer ''edge'') (with_psk ''9''))"
proof -
  have "agree (dep_dg (sample_deps one_server)) (with_psk ''8'') (with_psk ''9'')"
    by (simp add: agree_def with_psk_def sample_daemon_def same_public_def)
  moreover have "is_query (ReqGetServer ''edge'')" by (simp add: is_query_def)
  ultimately have "fst (handle (sample_deps one_server) sample_env (ReqGetServer ''edge'') (with_psk ''8''))
     = fst (handle (sample_deps one_server) sample_env (ReqGetServer ''edge'') (with_psk ''9''))"
    by (rule views_hide_secrets [THEN conjunct1])
  then show ?thesis by (simp add: with_psk_def sample_daemon_def del: handle.simps)
qed

subsection \<open>What is configured can be switched to\<close>

text \<open>
  C25: in every state the daemon can reach, each of its servers can be switched to, whatever the
  resolver says, even nothing at all: over \<open>KernelWireguard\<close> the switch succeeds as soon as
  the kernel operations do. The check before a server is stored and the cached endpoint see to
  that.
\<close>

theorem configured_can_switch:
  assumes "(daemon_step dp)\<^sup>*\<^sup>* d d'" and "codec_ok (dep_enc dp) (dep_dec dp)"
    and "config_ok (dep_dg dp) (d_cfg d)" and "disk_ok dp (d_disk d)"
    and "dep_wg dp = kernel_wireguard (dep_dg dp) ops" and "ops_succeed ops"
    and "find_server (d_cfg d') n = Some s"
  shows "\<exists>d''. handle dp ev (ReqSwitchServer n) d' = (Inr (RespSwitched n), d'')"
proof -
  have "config_ok (dep_dg dp) (d_cfg d')" using run_ok [OF assms(1-4)] by simp
  then have "server_ok (dep_dg dp) s" using find_server_set [OF assms(7)] by (simp add: config_ok_def)
  then have w: "well_formed (dep_dg dp) s" and "is_ok (endpoint_addr (env_resolve ev) s)"
    using endpoint_addr_cached by (auto simp: server_ok_def)
  then obtain a where "endpoint_addr (env_resolve ev) s = Inr a" by (auto simp: is_ok_iff)
  from kernel_switch_ok [OF assms(6) w this] obtain w' where
    "kernel_switch (dep_dg dp) ops (env_resolve ev) s (d_wg d') = (Inr a, w')" by blast
  then show ?thesis
    by (simp add: switch_server_def assms(5,7) kernel_wireguard_def on_wg_def)
qed

definition kernel_deps :: "(sample_key, sample_key recording) deps" where
  "kernel_deps =
     \<lparr>dep_dg = sample_dg, dep_wg = kernel_wireguard sample_dg (recording_wg sample_dg), dep_store = state_path,
      dep_enc = (\<lambda>c. Inl ''unserializable''), dep_dec = (\<lambda>json. Inl ''no JSON''), dep_lower = to_ascii_lowercase\<rparr>"

theorem configured_can_switch_witness:
  "\<exists>d. handle kernel_deps sample_env (ReqSwitchServer ''edge'')
     \<lparr>d_cfg = one_server, d_wg = edge_recording, d_last_connect = None, d_disk = empty_fs\<rparr>
   = (Inr (RespSwitched ''edge''), d)"
proof (rule configured_can_switch [where s = cached_edge])
  show "(daemon_step kernel_deps)\<^sup>*\<^sup>* \<lparr>d_cfg = one_server, d_wg = edge_recording, d_last_connect = None, d_disk = empty_fs\<rparr>
      \<lparr>d_cfg = one_server, d_wg = edge_recording, d_last_connect = None, d_disk = empty_fs\<rparr>" by simp
  show "codec_ok (dep_enc kernel_deps) (dep_dec kernel_deps)" by (simp add: codec_ok_def kernel_deps_def)
  show "config_ok (dep_dg kernel_deps) (d_cfg \<lparr>d_cfg = one_server, d_wg = edge_recording,
      d_last_connect = None, d_disk = empty_fs\<rparr>)"
    using one_server_ok by (simp add: kernel_deps_def sample_deps_def sample_daemon_def)
  show "disk_ok kernel_deps (d_disk \<lparr>d_cfg = one_server, d_wg = edge_recording,
      d_last_connect = None, d_disk = empty_fs\<rparr>)"
    using empty_disk_ok [of one_server] by (simp add: disk_ok_def kernel_deps_def sample_deps_def empty_possible)
  show "dep_wg kernel_deps = kernel_wireguard (dep_dg kernel_deps) (recording_wg sample_dg)"
    by (simp add: kernel_deps_def)
  show "find_server (d_cfg \<lparr>d_cfg = one_server, d_wg = edge_recording, d_last_connect = None,
      d_disk = empty_fs\<rparr>) ''edge'' = Some cached_edge"
    using find_edge by simp
qed (rule recording_succeeds)

end
