(* ===== verification/Resolvconf.thy ===== *)
theory Resolvconf
  imports Routes
begin

section \<open>Restoring the resolver (\<open>daemon/src/wireguard.rs\<close>)\<close>

text \<open>
  The name under which the crate registered the tunnel's DNS with \<open>resolvconf\<close>, and the call
  that removes it. What the code asks of the host (does a path exist, is it a symbolic link,
  what is in a file, what is \<open>PATH\<close>) is the record \<open>probes\<close>.
\<close>

record probes =
  pr_exists :: "string \<Rightarrow> bool"
  pr_is_symlink :: "string \<Rightarrow> bool option"
  pr_read :: "string \<Rightarrow> string result"
  pr_path_var :: "string option"

definition order_path :: string where
  "order_path = ''/etc/resolvconf/interface-order''"

definition path_join :: "string \<Rightarrow> string \<Rightarrow> string" where
  "path_join dir name =
     (if dir = [] then name else if last dir = CHR ''/'' then dir @ name else dir @ ''/'' @ name)"

definition which :: "probes \<Rightarrow> string \<Rightarrow> string option" where
  "which pr cmd =
     Option.bind (pr_path_var pr) (\<lambda>path.
       find (pr_exists pr) (map (\<lambda>dir. path_join dir cmd) (split_on CHR '':'' path)))"

definition order_line_prefix :: "string \<Rightarrow> string option" where
  "order_line_prefix line =
     Option.bind (strip_suffix_char CHR ''*'' (trim line)) (\<lambda>p.
       if p \<noteq> [] \<and> list_all (\<lambda>b. is_ascii_alphanumeric b \<or> b = CHR ''-'') p then Some p else None)"

fun find_map :: "('a \<Rightarrow> 'b option) \<Rightarrow> 'a list \<Rightarrow> 'b option" where
  "find_map f [] = None"
| "find_map f (x # xs) = (case f x of Some y \<Rightarrow> Some y | None \<Rightarrow> find_map f xs)"

definition interface_order_prefix :: "string \<Rightarrow> string option" where
  "interface_order_prefix content = find_map order_line_prefix (str_lines content)"

definition resolvconf_ifname :: "probes \<Rightarrow> string \<Rightarrow> string" where
  "resolvconf_ifname pr base =
     (if \<not> pr_exists pr order_path then base
      else (case which pr ''resolvconf'' of
              None \<Rightarrow> base
            | Some p \<Rightarrow>
                (if (case pr_is_symlink pr p of None \<Rightarrow> True | Some b \<Rightarrow> b) then base
                 else (case pr_read pr order_path of
                         Inr content \<Rightarrow>
                           (case interface_order_prefix content of
                              Some name \<Rightarrow> name @ ''.'' @ base
                            | None \<Rightarrow> base)
                       | Inl e \<Rightarrow> base))))"

definition reset_resolvconf :: "'w commands \<Rightarrow> probes \<Rightarrow> string \<Rightarrow> ('w, unit) action" where
  "reset_resolvconf io pr base_ifname =
     (let ifname = resolvconf_ifname pr base_ifname
      in bindS (map_errS (\<lambda>e. ''resolvconf: '' @ e) (cmd_status io ''resolvconf'' [''-d'', ifname, ''-f'']))
           (\<lambda>(success, status).
             if success then retS ()
             else liftR (Inl (''resolvconf -d '' @ ifname @ '' exited with '' @ status))))"

subsection \<open>The prefix of the interface-order file\<close>

definition order_name :: "string \<Rightarrow> bool" where
  "order_name p \<longleftrightarrow> p \<noteq> [] \<and> list_all (\<lambda>b. is_ascii_alphanumeric b \<or> b = CHR ''-'') p"

lemma find_map_Some:
  "find_map f xs = Some y \<longleftrightarrow>
   (\<exists>us x vs. xs = us @ x # vs \<and> f x = Some y \<and> (\<forall>u \<in> set us. f u = None))"
proof (induction xs)
  case Nil
  then show ?case by simp
next
  case (Cons a xs)
  show ?case
  proof (cases "f a")
    case None
    have "(\<exists>us x vs. a # xs = us @ x # vs \<and> f x = Some y \<and> (\<forall>u \<in> set us. f u = None))
        \<longleftrightarrow> (\<exists>us x vs. xs = us @ x # vs \<and> f x = Some y \<and> (\<forall>u \<in> set us. f u = None))"
    proof
      assume "\<exists>us x vs. a # xs = us @ x # vs \<and> f x = Some y \<and> (\<forall>u \<in> set us. f u = None)"
      then obtain us x vs where u: "a # xs = us @ x # vs" "f x = Some y" "\<forall>u \<in> set us. f u = None"
        by blast
      then obtain us' where "us = a # us'" using None by (cases us) auto
      with u show "\<exists>us x vs. xs = us @ x # vs \<and> f x = Some y \<and> (\<forall>u \<in> set us. f u = None)" by auto
    next
      assume "\<exists>us x vs. xs = us @ x # vs \<and> f x = Some y \<and> (\<forall>u \<in> set us. f u = None)"
      then obtain us x vs where "xs = us @ x # vs" "f x = Some y" "\<forall>u \<in> set us. f u = None" by blast
      with None show "\<exists>us x vs. a # xs = us @ x # vs \<and> f x = Some y \<and> (\<forall>u \<in> set us. f u = None)"
        by (intro exI [of _ "a # us"] exI [of _ x] exI [of _ vs]) simp
    qed
    with Cons None show ?thesis by simp
  next
    case (Some z)
    have "(\<exists>us x vs. a # xs = us @ x # vs \<and> f x = Some y \<and> (\<forall>u \<in> set us. f u = None)) \<longleftrightarrow> z = y"
    proof
      assume "\<exists>us x vs. a # xs = us @ x # vs \<and> f x = Some y \<and> (\<forall>u \<in> set us. f u = None)"
      then obtain us x vs where u: "a # xs = us @ x # vs" "f x = Some y" "\<forall>u \<in> set us. f u = None"
        by blast
      with Some have "us = []" by (cases us) auto
      with u Some show "z = y" by simp
    next
      assume "z = y"
      with Some show "\<exists>us x vs. a # xs = us @ x # vs \<and> f x = Some y \<and> (\<forall>u \<in> set us. f u = None)"
        by (intro exI [of _ "[]"] exI [of _ a] exI [of _ xs]) simp
    qed
    with Some show ?thesis by simp
  qed
qed

lemma order_line_prefix_Some:
  "order_line_prefix line = Some p \<longleftrightarrow> trim line = p @ ''*'' \<and> order_name p"
proof -
  have "strip_suffix_char CHR ''*'' s = Some q \<longleftrightarrow> s = q @ ''*''" for s q
    by (cases s rule: rev_cases) (auto simp: strip_suffix_char_def)
  then have "order_line_prefix line = Some p \<longleftrightarrow>
      (\<exists>q. trim line = q @ ''*'' \<and> order_name q \<and> q = p)"
    by (auto simp: order_line_prefix_def order_name_def bind_eq_Some_conv split: if_splits)
  then show ?thesis by blast
qed

section \<open>Properties of the resolver reset\<close>

text \<open>
  The prefix is that of the first line which, without the blanks around it, is a name of
  letters, digits and hyphens followed by one asterisk, and by nothing else; lines of any
  other form, comments among them, are passed over. As every line is trimmed first, an
  indented entry is taken too.
\<close>

lemma interface_order_prefix_first:
  "interface_order_prefix content = Some p \<longleftrightarrow>
   (\<exists>us line vs. str_lines content = us @ line # vs \<and> trim line = p @ ''*'' \<and> order_name p
      \<and> (\<forall>u \<in> set us. \<not> (\<exists>q. trim u = q @ ''*'' \<and> order_name q)))"
proof -
  have "order_line_prefix u = None \<longleftrightarrow> \<not> (\<exists>q. trim u = q @ ''*'' \<and> order_name q)" for u
    using order_line_prefix_Some [of u] by (cases "order_line_prefix u") auto
  then show ?thesis
    unfolding interface_order_prefix_def find_map_Some order_line_prefix_Some by simp
qed

lemma interface_order_prefix_first_example:
  "interface_order_prefix (''#tun*x'' @ CHR 0x0A # ''tap*'' @ [CHR 0x0A]) = Some ''tap''"
proof -
  have l: "str_lines (''#tun*x'' @ CHR 0x0A # ''tap*'' @ [CHR 0x0A]) = [''#tun*x''] @ ''tap*'' # []"
    by code_simp
  have t: "trim ''tap*'' = ''tap'' @ ''*''" "trim ''#tun*x'' = ''#tun*x''"
    by (simp_all add: trim_graphic graphic_def)
  have "order_name ''tap''" by code_simp
  moreover have "trim ''#tun*x'' \<noteq> q @ ''*''" for q
  proof
    assume "trim ''#tun*x'' = q @ ''*''"
    then have "last ''#tun*x'' = last (q @ ''*'')" unfolding t(2) by (rule arg_cong)
    then show False by simp
  qed
  moreover have "str_lines (''#tun*x'' @ CHR 0x0A # ''tap*'' @ [CHR 0x0A]) = [''#tun*x''] @ ''tap*'' # []"
    by (rule l)
  moreover have "\<forall>u \<in> set [''#tun*x'']. \<not> (\<exists>q. trim u = q @ ''*'' \<and> order_name q)"
    using calculation(2) by simp
  ultimately show ?thesis
    using t(1) interface_order_prefix_first [THEN iffD2] by blast
qed

end
