(* ===== verification/Kernel_Contract.thy ===== *)
theory Kernel_Contract
  imports Fake_Wireguard Resolvconf
begin

section \<open>\<open>KernelWireguard\<close> keeps the contract\<close>

text \<open>
  The real backend implements the locale \<open>wireguard_contract\<close> on which the daemon's policy rests.
  First over any kernel operations that do what they say (\<open>drives\<close>), then over \<open>KernelWgOps\<close>,
  which calls the WireGuard crate, \<open>ip\<close>, \<open>nft\<close> and \<open>resolvconf\<close>.
\<close>

text \<open>
  Documented behaviour of the kernel operations, as a named hypothesis. \<open>device\<close> is the device
  of a world, if there is one: reading it changes nothing, configuring it succeeds only with a
  key that parses and gives it that key, removing it takes it away, and the operations for
  routes, packet filter and resolver leave it alone.
\<close>

definition drives :: "'k defguard \<Rightarrow> ('k, 'w) wg_ops \<Rightarrow> ('w \<Rightarrow> 'k host option) \<Rightarrow> bool" where
  "drives dg ops device \<longleftrightarrow>
     (\<forall>w. snd (op_read_interface_data ops w) = w \<and> ok (fst (op_read_interface_data ops w)) = device w)
   \<and> (\<forall>cfg w. is_ok (fst (op_configure_interface ops cfg w)) \<longrightarrow>
        (\<exists>h k. device (snd (op_configure_interface ops cfg w)) = Some h
           \<and> key_from_str dg (ic_prvkey cfg) = Inr k \<and> host_private_key h = Some k))
   \<and> (\<forall>w. is_ok (fst (op_remove_interface ops w)) \<longrightarrow> device (snd (op_remove_interface ops w)) = None)
   \<and> (\<forall>w. device (snd (op_clear_firewall ops w)) = device w)
   \<and> (\<forall>ps w. device (snd (op_configure_peer_routing ops ps w)) = device w)
   \<and> (\<forall>ps w. device (snd (op_sync_split_routes ops ps w)) = device w)
   \<and> (\<forall>as m w. device (snd (op_apply_firewall ops as m w)) = device w)
   \<and> (\<forall>ds ss w. device (snd (op_configure_dns ops ds ss w)) = device w)
   \<and> (\<forall>w. device (snd (op_reset_dns ops w)) = device w)"

definition live_of :: "'k defguard \<Rightarrow> 'k host \<Rightarrow> live_interface" where
  "live_of dg host =
     \<lparr>li_name = interface_name,
      li_public_key = map_option (\<lambda>k. key_to_string dg (key_public_key dg k)) (host_private_key host),
      li_listen_port = host_listen_port host,
      li_peers = map (\<lambda>p.
        \<lparr>lp_public_key = key_to_string dg (peer_public_key p),
         lp_endpoint = map_option show_sock (peer_endpoint p),
         lp_allowed_ips = map (mask_to_string dg) (peer_allowed_ips p),
         lp_last_handshake = peer_last_handshake p,
         lp_rx_bytes = peer_rx_bytes p, lp_tx_bytes = peer_tx_bytes p\<rparr>) (host_peers host)\<rparr>"

lemma kernel_status_live: "kernel_status dg ops w =
   (case op_read_interface_data ops w of (Inl e, w') \<Rightarrow> (Inl e, w') | (Inr h, w') \<Rightarrow> (Inr (live_of dg h), w'))"
  by (simp add: kernel_status_def bindS_def live_of_def split: prod.split sum.split)

lemma reconfigured_key:
  assumes d: "drives dg ops device" and r: "reconfigure dg ops s peer w = (Inr (), w')"
  shows "\<exists>h k. device w' = Some h \<and> key_from_str dg (trim (sc_private_key s)) = Inr k
    \<and> host_private_key h = Some k"
proof -
  have conf: "\<exists>h k. device w2 = Some h \<and> key_from_str dg (ic_prvkey cfg) = Inr k \<and> host_private_key h = Some k"
    if "op_configure_interface ops cfg w1 = (Inr (), w2)" for cfg w1 w2
    using d that unfolding drives_def by (metis fst_conv is_ok_simps(2) snd_conv)
  from r obtain cfg w1 where "op_configure_interface ops cfg w1 = (Inr (), w')"
    and "ic_prvkey cfg = trim (sc_private_key s)"
    by (auto simp: reconfigure_def bindS_eq_Inr bring_up_with_def build_interface_config_def
        split: prod.splits sum.splits)
  with conf show ?thesis by metis
qed

lemma switched_device:
  assumes d: "drives dg ops device" and k: "kernel_switch dg ops r s w = (Inr a, w')"
  shows "\<exists>h k. device w' = Some h \<and> key_from_str dg (trim (sc_private_key s)) = Inr k
    \<and> host_private_key h = Some k"
proof -
  have keep: "device (snd (op_configure_peer_routing ops ps v)) = device v"
    "device (snd (op_sync_split_routes ops qs v)) = device v"
    "device (snd (op_apply_firewall ops as m v)) = device v"
    "device (snd (op_configure_dns ops ds ss v)) = device v"
    "device (snd (op_reset_dns ops v)) = device v"
    "snd (op_read_interface_data ops v) = v" for ps qs as m ds ss v
    using d unfolding drives_def by blast+
  from k obtain peer dns as w1 w2 w3 w4 where
    1: "reconfigure dg ops s peer w = (Inr (), w1)" and
    2: "op_configure_peer_routing ops [peer] w1 = (Inr (), w2)" and
    3: "op_sync_split_routes ops (split_route_prefixes dg peer) w2 = (Inr (), w3)" and
    4: "guard_tunnel ops as w3 = (Inr (), w4)" and 5: "apply_dns ops dns w4 = (Inr (), w')"
    by (auto simp: kernel_switch_def bindS_eq_Inr)
  have "device w2 = device w1" using keep(1) [of "[peer]" w1] 2 by simp
  moreover have "device w3 = device w2" using keep(2) [of "split_route_prefixes dg peer" w2] 3 by simp
  moreover have "device w4 = device w3"
    using 4 keep(3,6) by (auto simp: guard_tunnel_def split: prod.splits) (metis snd_conv)
  moreover have "device w' = device w4"
    using 5 keep(4,5) by (auto simp: apply_dns_def split: if_splits) (metis snd_conv)
  ultimately show ?thesis using reconfigured_key [OF d 1] by simp
qed

lemma drives_contract:
  assumes "drives dg ops device"
  shows "wireguard_contract (kernel_wireguard dg ops) (\<lambda>w. map_option (live_of dg) (device w))
    (\<lambda>s. public_key dg (sc_private_key s))"
proof
  have read: "snd (op_read_interface_data ops w) = w" "ok (fst (op_read_interface_data ops w)) = device w" for w
    using assms unfolding drives_def by blast+
  fix w
  show "snd (wg_status (kernel_wireguard dg ops) w) = w"
    using read(1) [of w] by (auto simp: kernel_wireguard_def kernel_status_live split: prod.split sum.split)
  show "ok (fst (wg_status (kernel_wireguard dg ops) w)) = map_option (live_of dg) (device w)"
    using read(2) [of w, symmetric]
    by (auto simp: kernel_wireguard_def kernel_status_live split: prod.split sum.split)
  show "map_option (live_of dg) (device (snd (wg_disconnect (kernel_wireguard dg ops) w))) = None"
    if "fst (wg_disconnect (kernel_wireguard dg ops) w) = Inr ()"
    using that assms unfolding drives_def kernel_wireguard_def
    by (auto simp: kernel_disconnect_def split: prod.splits) (metis fst_conv is_ok_simps(2) snd_conv)
  show "\<exists>li k. map_option (live_of dg) (device (snd (wg_switch (kernel_wireguard dg ops) r s w))) = Some li
      \<and> public_key dg (sc_private_key s) = Inr k \<and> li_public_key li = Some k"
    if "fst (wg_switch (kernel_wireguard dg ops) r s w) = Inr a" for r s a
  proof -
    from that obtain w' where "kernel_switch dg ops r s w = (Inr a, w')"
      by (cases "kernel_switch dg ops r s w") (simp add: kernel_wireguard_def)
    with switched_device [OF assms this] show ?thesis
      by (auto simp: kernel_wireguard_def live_of_def public_key_Inr)
  qed
qed

subsection \<open>\<open>KernelWgOps\<close>\<close>

text \<open>
  Documented behaviour of the crate's calls and of the programs that are run, as named
  hypotheses over the device of a world: opening the API and reading the device change nothing;
  configuring it succeeds only with a key that parses and gives it that key; removing it takes
  it away; the other calls of the API, and \<open>ip route\<close>, \<open>nft\<close> and \<open>resolvconf\<close>, leave the
  device alone, whether they succeed or not.
\<close>

definition api_drives :: "'k defguard \<Rightarrow> ('k, 'w) wg_api \<Rightarrow> string \<Rightarrow> ('w \<Rightarrow> 'k host option) \<Rightarrow> bool" where
  "api_drives dg api ifname device \<longleftrightarrow>
     (\<forall>w. api_new api ifname w = (Inr (), w))
   \<and> (\<forall>w. snd (api_read_interface_data api w) = w \<and> ok (fst (api_read_interface_data api w)) = device w)
   \<and> (\<forall>cfg w. is_ok (fst (api_configure_interface api cfg w)) \<longrightarrow>
        (\<exists>h k. device (snd (api_configure_interface api cfg w)) = Some h
           \<and> key_from_str dg (ic_prvkey cfg) = Inr k \<and> host_private_key h = Some k))
   \<and> (\<forall>w. is_ok (fst (api_remove_interface api w)) \<longrightarrow> device (snd (api_remove_interface api w)) = None)
   \<and> (\<forall>ps w. device (snd (api_configure_peer_routing api ps w)) = device w)
   \<and> (\<forall>ds ss w. device (snd (api_configure_dns api ds ss w)) = device w)"

definition routing_leaves :: "'w commands \<Rightarrow> ('w \<Rightarrow> 'v) \<Rightarrow> bool" where
  "routing_leaves io view \<longleftrightarrow>
     (\<forall>act args w. view (snd (cmd_status io ''ip'' (''route'' # act # args) w)) = view w)
   \<and> (\<forall>family ifname w. view (snd (cmd_output io ''ip'' (route_show_args family ifname) w)) = view w)
   \<and> (\<forall>args w. view (snd (cmd_status io ''resolvconf'' args w)) = view w)"

definition programs_leave :: "'w commands \<Rightarrow> ('w \<Rightarrow> 'v) \<Rightarrow> bool" where
  "programs_leave io view \<longleftrightarrow>
     routing_leaves io view
   \<and> (\<forall>args w. view (snd (cmd_spawn io ''nft'' args w)) = view w)
   \<and> (\<forall>s w. view (snd (cmd_write io s w)) = view w)
   \<and> (\<forall>w. view (snd (cmd_wait io w)) = view w)"

text \<open>What leaves the device alone, as an invariant of actions.\<close>

lemma keeps_then:
  assumes "keeps P m" "\<And>r. keeps P (f r)"
  shows "keeps P (\<lambda>w. case m w of (r, w1) \<Rightarrow> f r w1)"
  using assms by (simp add: keeps_def split_beta)

lemma routing_keeps:
  assumes "routing_leaves io device"
  shows "keeps (\<lambda>w. device w = d) (cmd_status io ''ip'' (''route'' # act # args))"
    "keeps (\<lambda>w. device w = d) (cmd_output io ''ip'' (route_show_args family ifname))"
    "keeps (\<lambda>w. device w = d) (cmd_status io ''resolvconf'' args')"
  using assms unfolding routing_leaves_def by (simp_all add: keeps_def)

lemma programs_keep:
  assumes "programs_leave io device"
  shows "routing_leaves io device"
    "keeps (\<lambda>w. device w = d) (cmd_spawn io ''nft'' args')"
    "keeps (\<lambda>w. device w = d) (cmd_write io s)"
    "keeps (\<lambda>w. device w = d) (cmd_wait io)"
  using assms unfolding programs_leave_def by (simp_all add: keeps_def)

lemma ip_route_keeps:
  assumes "routing_leaves io device"
  shows "keeps (\<lambda>w. device w = d) (ip_route dg io act p ifname)"
  unfolding ip_route_def Let_def ip_route_args_def
  by (intro keeps_bindS keeps_map_errS routing_keeps [OF assms]) (simp split: prod.split)

lemma replace_routes_keep:
  assumes "routing_leaves io device"
  shows "keeps (\<lambda>w. device w = d) (replace_routes dg io ifname ps)"
proof (induction ps)
  case (Cons p ps)
  then show ?case unfolding replace_routes.simps by (intro keeps_bindS ip_route_keeps [OF assms])
qed (simp only: replace_routes.simps keeps_retS)

lemma delete_routes_keep:
  assumes "routing_leaves io device"
  shows "keeps (\<lambda>w. device w = d) (delete_routes dg io ifname ps)"
proof (induction ps)
  case (Cons p ps)
  then show ?case unfolding delete_routes.simps by (intro keeps_bindS keeps_ignoreS ip_route_keeps [OF assms])
qed (simp only: delete_routes.simps keeps_retS)

lemma installed_routes_keep:
  assumes "routing_leaves io device"
  shows "device (snd (installed_split_routes dg dec io ifname w)) = device w"
proof -
  have "device (snd (shown_routes dg dec io ifname family v)) = device v" for family v
    using assms by (simp add: routing_leaves_def shown_routes_def Let_def split_beta)
  then show ?thesis by (simp add: installed_split_routes_def split_beta)
qed

lemma sync_routes_keep:
  assumes "routing_leaves io device"
  shows "keeps (\<lambda>w. device w = d) (sync_split_routes_via_ip dg dec io ifname ps)"
  unfolding sync_split_routes_via_ip_def
proof (intro keeps_bindS replace_routes_keep [OF assms] keepsI)
  fix w assume "device w = d"
  then have "device (snd (installed_split_routes dg dec io ifname w)) = d"
    using installed_routes_keep [OF assms, of dg dec ifname w] by simp
  then show "device (snd (case installed_split_routes dg dec io ifname w of
      (installed, w') \<Rightarrow> delete_routes dg io ifname (stale_routes installed ps) w')) = d"
    unfolding split_beta by (rule keepsD [OF delete_routes_keep [OF assms]])
qed

lemma run_nft_keeps:
  assumes "programs_leave io device"
  shows "keeps (\<lambda>w. device w = d) (run_nft io script)"
proof -
  have "keeps (\<lambda>w. device w = d) (\<lambda>w. case cmd_write io script w of (written, w1) \<Rightarrow>
      bindS (map_errS (\<lambda>e. ''nft: '' @ e) (cmd_wait io)) (\<lambda>(success, status).
        bindS (liftR (map_err (\<lambda>e. ''nft: writing ruleset: '' @ e) written))
          (\<lambda>_. if success then retS () else liftR (Inl (''nft -f exited with '' @ status)))) w1)"
    by (intro keeps_then keeps_bindS keeps_map_errS programs_keep [OF assms]) (auto split: prod.split)
  then have "keeps (\<lambda>w. device w = d) (if \<not> stdin then liftR (Inl ''nft: stdin unavailable'')
      else (\<lambda>w. case cmd_write io script w of (written, w1) \<Rightarrow>
      bindS (map_errS (\<lambda>e. ''nft: '' @ e) (cmd_wait io)) (\<lambda>(success, status).
        bindS (liftR (map_err (\<lambda>e. ''nft: writing ruleset: '' @ e) written))
          (\<lambda>_. if success then retS () else liftR (Inl (''nft -f exited with '' @ status)))) w1))" for stdin
    by (cases stdin) (simp only: not_True_eq_False not_False_eq_True if_True if_False keeps_liftR)+
  then show ?thesis
    unfolding run_nft_def by (intro keeps_bindS keeps_map_errS programs_keep [OF assms])
qed

lemma reset_resolvconf_keeps:
  assumes "routing_leaves io device"
  shows "keeps (\<lambda>w. device w = d) (reset_resolvconf io pr ifname)"
  unfolding reset_resolvconf_def Let_def
  by (intro keeps_bindS keeps_map_errS routing_keeps [OF assms]) (auto split: prod.split)

text \<open>The real backend's operations do what they say.\<close>

lemma kernel_wg_ops_drive:
  fixes device :: "'w \<Rightarrow> 'k host option"
  assumes a: "api_drives dg api ifname device" and p: "programs_leave io device"
  shows "drives dg (kernel_wg_ops dg dec api io (reset_resolvconf io pr) ifname) device"
proof -
  have w: "with_api api ifname m = m" for m :: "('w, 'a) action"
    using a by (simp add: api_drives_def with_api_def bindS_def fun_eq_iff)
  have device: "device (snd (m w)) = device w" if "\<And>d. keeps (\<lambda>w. device w = d) m" for m :: "('w, 'a) action" and w
    using that by (simp add: keeps_def)
  show ?thesis
    using a unfolding drives_def api_drives_def
    by (simp add: kernel_wg_ops_def w device sync_routes_keep run_nft_keeps reset_resolvconf_keeps p programs_keep(1) [OF p])
qed

section \<open>Property of the real backend\<close>

text \<open>
  C26: the real backend, \<open>KernelWireguard\<close> over \<open>KernelWgOps\<close>, implements the contract on which the
  daemon's policy rests, where the crate and the programs do what they document: a successful
  switch leaves the interface up with the public key of the server's private key, a successful
  disconnect leaves it down, and reading the status changes nothing and tells what is there.
\<close>

theorem kernel_meets_contract:
  assumes "api_drives dg api ifname device" "programs_leave io device"
  shows "wireguard_contract
    (kernel_wireguard dg (kernel_wg_ops dg dec api io (reset_resolvconf io pr) ifname))
    (\<lambda>w. map_option (live_of dg) (device w)) (\<lambda>s. public_key dg (sc_private_key s))"
  by (rule drives_contract [OF kernel_wg_ops_drive [OF assms]])

text \<open>A world that is the device itself, with programs that always succeed.\<close>

definition plain_api :: "'k defguard \<Rightarrow> ('k, 'k host option) wg_api" where
  "plain_api dg =
     \<lparr>api_new = (\<lambda>ifname. retS ()), api_create_interface = retS (),
      api_remove_interface = (\<lambda>w. (Inr (), None)),
      api_configure_interface = (\<lambda>cfg w.
        case key_from_str dg (ic_prvkey cfg) of
          Inl e \<Rightarrow> (Inl e, w)
        | Inr k \<Rightarrow> (Inr (), Some \<lparr>host_private_key = Some k, host_listen_port = ic_port cfg,
            host_fwmark = ic_fwmark cfg, host_peers = ic_peers cfg\<rparr>)),
      api_configure_peer_routing = (\<lambda>ps. retS ()), api_configure_dns = (\<lambda>ds ss. retS ()),
      api_read_interface_data = (\<lambda>w. (ok_or w ''No such device (os error 19)'', w))\<rparr>"

definition quiet_programs :: "'w commands" where
  "quiet_programs =
     \<lparr>cmd_status = (\<lambda>prog args. retS (True, ''0'')), cmd_output = (\<lambda>prog args. retS (True, [])),
      cmd_spawn = (\<lambda>prog args. retS True), cmd_write = (\<lambda>s. retS ()), cmd_wait = retS (True, ''0'')\<rparr>"

definition bare_host :: probes where
  "bare_host = \<lparr>pr_exists = (\<lambda>p. False), pr_is_symlink = (\<lambda>p. None),
     pr_read = (\<lambda>p. Inl ''No such file or directory (os error 2)''), pr_path_var = None\<rparr>"

lemma ok_ok_or [simp]: "ok (ok_or x e) = x"
  by (cases x) simp_all

lemma plain_api_drives: "api_drives dg (plain_api dg) ifname id"
  by (auto simp: api_drives_def plain_api_def split: sum.split)

lemma quiet_programs_leave: "programs_leave quiet_programs id"
  by (simp add: programs_leave_def routing_leaves_def quiet_programs_def)

theorem kernel_meets_contract_witness:
  "wireguard_contract
     (kernel_wireguard sample_dg (kernel_wg_ops sample_dg lan_dec (plain_api sample_dg) quiet_programs
        (reset_resolvconf quiet_programs bare_host) interface_name))
     (\<lambda>w. map_option (live_of sample_dg) (id w)) (\<lambda>s. public_key sample_dg (sc_private_key s))"
  by (rule kernel_meets_contract [OF plain_api_drives quiet_programs_leave])

end
