(* ===== verification/Firewall_Reading.thy ===== *)
theory Firewall_Reading
  imports Firewall Net_Roundtrip
begin

section \<open>The nftables text says what the rules are\<close>

text \<open>
  \<open>nft\<close> gets text. Here: scripts for one interface with the same text are the same commands, so
  what \<open>nft\<close> makes of a text is a matter of the rules it was rendered from.
\<close>

subsection \<open>Lines\<close>

definition line_free :: "string \<Rightarrow> bool" where
  "line_free l \<longleftrightarrow> CHR 0x0A \<notin> set l"

lemma lines_inject:
  assumes "concat (map (\<lambda>l. l @ lf) xs) = concat (map (\<lambda>l. l @ lf) ys)"
    "list_all line_free xs" "list_all line_free ys"
  shows "xs = ys"
  using assms
proof (induction xs arbitrary: ys)
  case Nil
  then show ?case by (cases ys) (simp_all add: lf_def)
next
  case (Cons x xs)
  obtain y zs where ys: "ys = y # zs"
    using Cons.prems by (cases ys) (simp_all add: lf_def)
  have "x @ CHR 0x0A # concat (map (\<lambda>l. l @ lf) xs) = y @ CHR 0x0A # concat (map (\<lambda>l. l @ lf) zs)"
    using Cons.prems(1) by (simp add: ys lf_def)
  moreover have "CHR 0x0A \<notin> set x" "CHR 0x0A \<notin> set y"
    using Cons.prems by (simp_all add: ys line_free_def)
  ultimately have "x = y" "concat (map (\<lambda>l. l @ lf) xs) = concat (map (\<lambda>l. l @ lf) zs)"
    using split_once_append [of "CHR 0x0A" x] split_once_append [of "CHR 0x0A" y] by (metis option.inject prod.inject)+
  with Cons show ?case by (simp add: ys)
qed

fun chain_lines :: "nft_chain \<Rightarrow> string list" where
  "chain_lines (Chain name h rules) =
     [tab @ ''chain '' @ name @ '' {'', tab @ tab @ ''type filter hook '' @ show_hook h @ '';'']
     @ map (\<lambda>r. tab @ tab @ show_rule r) rules @ [tab @ ''}'']"

fun command_lines :: "nft_command \<Rightarrow> string list" where
  "command_lines (Add_Table f) = [''add table '' @ show_family f @ '' '' @ nft_table]"
| "command_lines (Delete_Table f) = [''delete table '' @ show_family f @ '' '' @ nft_table]"
| "command_lines (Define_Table f cs) =
     [''table '' @ show_family f @ '' '' @ nft_table @ '' {''] @ concat (map chain_lines cs) @ [''}'']"

lemma concat_map_concat: "concat (map g (concat xss)) = concat (map (\<lambda>xs. concat (map g xs)) xss)"
  by (induction xss) simp_all

lemma show_chain_lines: "show_chain c = concat (map (\<lambda>l. l @ lf) (chain_lines c))"
  by (cases c) (simp add: comp_def)

lemma show_command_lines: "show_command c = concat (map (\<lambda>l. l @ lf) (command_lines c))"
  by (cases c) (simp_all add: show_chain_lines [abs_def] concat_map_concat comp_def)

lemma script_lines:
  "nft_script ifname as m = concat (map (\<lambda>l. l @ lf) (concat (map command_lines (nft_rules ifname as m))))"
  by (simp add: nft_script_text concat_map_concat show_command_lines [abs_def] comp_def)

subsection \<open>The texts in the rules\<close>

lemma digits_line_free: "line_free (show_nat n)"
proof -
  have "\<not> graphic CHR 0x0A" by (simp add: graphic_def)
  then show ?thesis using show_nat_graphic [of n] by (auto simp: line_free_def)
qed

text \<open>An address is determined by its text and has no end of line in it: both by its round trip.\<close>

lemma show_ip_inject: "show_ip a = show_ip b \<Longrightarrow> a = b"
proof -
  assume e: "show_ip a = show_ip b"
  have v6: "show_ipv6 x \<noteq> show_ipv4 y" for x y
    using show_ipv6_colon [of x] show_ipv4_no_colon [of y] by metis
  show ?thesis
  proof (cases a; cases b)
    fix x y assume ab: "a = V4 x" "b = V4 y"
    then have "show_sock (SockV4 x 0) = show_sock (SockV4 y 0)" using e by simp
    then have "Some (SockV4 x 0) = Some (SockV4 y 0)" by (metis parse_sock_show_v4)
    with ab show ?thesis by simp
  next
    fix x y assume ab: "a = V6 x" "b = V6 y"
    then have "show_sock (SockV6 x 0 0 0) = show_sock (SockV6 y 0 0 0)" using e by simp
    then have "Some (SockV6 x 0 0 0) = Some (SockV6 y 0 0 0)"
      using parse_sock_show [of "SockV6 x 0 0 0"] parse_sock_show [of "SockV6 y 0 0 0"] by simp
    with ab show ?thesis by simp
  qed (use e v6 in \<open>auto simp: v6 [symmetric]\<close>)
qed

lemma show_nat_inject: "show_nat a = show_nat b \<Longrightarrow> a = b"
  by (metis digits_value_show_nat)

lemma join_line_free: "list_all line_free xs \<Longrightarrow> line_free sep \<Longrightarrow> line_free (join sep xs)"
  by (induction xs rule: induct_list012) (simp_all add: join_def line_free_def)

lemma show_ip_line_free: "line_free (show_ip a)"
proof -
  have hex: "line_free (show_hex n)" for n
    using show_hex_digits [of n] by (auto simp: line_free_def list_all_iff is_digit_def digit_value_def)
  have slice: "line_free (fmt_subslice ns)" for ns
    unfolding fmt_subslice_def by (rule join_line_free) (simp_all add: list_all_iff hex line_free_def [of "'':''"])
  have v4: "line_free (show_ipv4 x)" for x
    unfolding show_ipv4_def by (rule join_line_free) (simp_all add: digits_line_free line_free_def [of "''.''"])
  have v6: "line_free (show_ipv6 x)" for x
  proof -
    obtain start len where l: "longest_zeroes 0 (segments x) (0, 0) (0, 0) = (start, len)" by fastforce
    show ?thesis
      using v4 slice by (auto simp: show_ipv6_def l Let_def line_free_def)
  qed
  show ?thesis using v4 v6 by (cases a) simp_all
qed

lemma show_family_line_free: "line_free (show_family f)"
  by (cases f) (simp_all add: line_free_def)

lemma rules_line_free:
  assumes "line_free ifname"
  shows "list_all line_free (concat (map command_lines (nft_rules ifname as m)))"
proof -
  note free = assms show_ip_line_free digits_line_free show_family_line_free
  have t: "CHR 0x0A \<notin> set tab" by (simp add: tab_def)
  have spoofed: "line_free (tab @ tab @ show_rule (Drop_Spoofed ifname f a))" for f a
    using free t by (simp add: line_free_def dquoted_def)
  have marks: "list_all line_free (concat (map chain_lines (mark_chains m)))"
    using free t by (simp add: mark_chains_def line_free_def nft_priority_mangle_def split: option.split)
  have "list_all line_free (concat (map command_lines (family_rules ifname as m f)))" for f
    using marks spoofed free t
    by (simp add: family_rules_def Let_def line_free_def nft_table_def nft_priority_raw_def list_all_iff ball_Un)
  then show ?thesis by (simp add: nft_rules_def)
qed

subsection \<open>The lines that tell addresses and marks\<close>

definition own_pairs :: "ip_addr_mask list \<Rightarrow> family \<Rightarrow> (family \<times> ip_addr) list" where
  "own_pairs as f = map (\<lambda>a. (f, im_address a)) (filter (\<lambda>a. family_of (im_address a) = f) as)"

lemma own_pairs_family: "x \<in> set (own_pairs as f) \<Longrightarrow> fst x = f"
  by (auto simp: own_pairs_def)

definition spoof_line :: "string \<Rightarrow> family \<times> ip_addr \<Rightarrow> string" where
  "spoof_line ifname = (\<lambda>(f, a). tab @ tab @ show_rule (Drop_Spoofed ifname f a))"

lemma spoof_line_inject: "spoof_line ifname x = spoof_line ifname y \<Longrightarrow> x = y"
  by (cases x; cases y; cases "fst x"; cases "fst y") (auto simp: spoof_line_def intro: show_ip_inject)

definition spoof_text :: "string \<Rightarrow> bool" where
  "spoof_text l \<longleftrightarrow> prefix (tab @ tab @ ''iifname'') l"

definition mark_text :: "string \<Rightarrow> bool" where
  "mark_text l \<longleftrightarrow> prefix (tab @ tab @ ''meta l4proto udp mark '') l"

lemma family_rules_pairs:
  "family_rules ifname as m f =
     [Add_Table f, Delete_Table f]
     @ (if own_pairs as f = [] then []
        else [Define_Table f (Chain ''preraw'' Prerouting_Raw
          (map (\<lambda>(f, a). Drop_Spoofed ifname f a) (own_pairs as f)) # mark_chains m)])"
  by (simp add: family_rules_def own_pairs_def Let_def comp_def)

text \<open>The addresses and marks as they stand in the text of one family.\<close>

lemma family_spoof_lines:
  "filter spoof_text (concat (map command_lines (family_rules ifname as m f)))
   = map (spoof_line ifname) (own_pairs as f)"
proof -
  have "filter spoof_text (map (\<lambda>r. tab @ tab @ show_rule r) (map (\<lambda>(f, a). Drop_Spoofed ifname f a) ps))
      = map (spoof_line ifname) ps" for ps
    by (induction ps) (auto simp: spoof_text_def spoof_line_def tab_def)
  moreover have "filter spoof_text (concat (map chain_lines (mark_chains m))) = []"
    by (simp add: mark_chains_def spoof_text_def tab_def split: option.split)
  ultimately show ?thesis
    by (simp add: family_rules_pairs spoof_text_def tab_def comp_def)
qed


definition mark_lines :: "u32 option \<Rightarrow> string list" where
  "mark_lines m = (case m of None \<Rightarrow> [] | Some v \<Rightarrow> if v = 0 then [] else [tab @ tab @ show_rule (Save_Mark v)])"

lemma family_mark_lines:
  "filter mark_text (concat (map command_lines (family_rules ifname as m f)))
   = (if own_pairs as f = [] then [] else mark_lines m)"
proof -
  have "filter mark_text (map (\<lambda>r. tab @ tab @ show_rule r) (map (\<lambda>(f, a). Drop_Spoofed ifname f a) ps)) = []" for ps
    by (induction ps) (auto simp: mark_text_def tab_def)
  moreover have "filter mark_text (concat (map chain_lines (mark_chains m))) = mark_lines m"
    by (simp add: mark_chains_def mark_lines_def mark_text_def tab_def split: option.split)
  ultimately show ?thesis
    by (simp add: family_rules_pairs mark_text_def tab_def comp_def)
qed

lemma mark_lines_inject: "mark_lines m = mark_lines n \<Longrightarrow> mark_chains m = mark_chains n"
  by (auto simp: mark_lines_def mark_chains_def split: option.splits if_splits dest!: show_nat_inject unsigned_word_eqI)

lemma filter_pairs:
  "filter (\<lambda>x. fst x = Ip) (own_pairs as Ip @ own_pairs as Ip6) = own_pairs as Ip"
  "filter (\<lambda>x. fst x = Ip6) (own_pairs as Ip @ own_pairs as Ip6) = own_pairs as Ip6"
  by (simp_all add: own_pairs_def filter_map comp_def)

text \<open>Scripts for one interface with the same text are the same commands.\<close>

lemma nft_script_inject:
  assumes "line_free ifname" "nft_script ifname as m = nft_script ifname bs n"
  shows "nft_rules ifname as m = nft_rules ifname bs n"
proof -
  let ?L = "\<lambda>as m. concat (map command_lines (nft_rules ifname as m))"
  have L: "?L as m = ?L bs n"
    using assms rules_line_free [OF assms(1)] by (intro lines_inject) (simp_all add: script_lines)
  have "map (spoof_line ifname) (own_pairs as Ip @ own_pairs as Ip6)
      = map (spoof_line ifname) (own_pairs bs Ip @ own_pairs bs Ip6)"
    using arg_cong [OF L, of "filter spoof_text"] by (simp add: nft_rules_def family_spoof_lines)
  then have pairs: "own_pairs as Ip @ own_pairs as Ip6 = own_pairs bs Ip @ own_pairs bs Ip6"
    by (rule map_injective) (rule injI, rule spoof_line_inject)
  have own: "own_pairs as f = own_pairs bs f" for f
    using filter_pairs [of as] filter_pairs [of bs] unfolding pairs by (cases f) simp_all
  have marks: "mark_chains m = mark_chains n" if "own_pairs bs Ip \<noteq> [] \<or> own_pairs bs Ip6 \<noteq> []"
  proof (rule mark_lines_inject)
    have twice: "xs = ys" if "xs @ xs = ys @ ys" for xs ys :: "string list"
    proof -
      have "length xs + length xs = length ys + length ys" using arg_cong [OF that, of length] by simp
      then have "length xs = length ys" by simp
      with that show ?thesis by simp
    qed
    show "mark_lines m = mark_lines n"
      using arg_cong [OF L, of "filter mark_text"] that
      by (auto simp: nft_rules_def family_mark_lines own dest: twice split: if_splits)
  qed
  show ?thesis
    using own marks by (auto simp: nft_rules_def family_rules_pairs)
qed

text \<open>So there is a reading of the texts: \<open>nft\<close> can know the commands.\<close>

lemma nft_readable:
  assumes "line_free ifname"
  shows "\<exists>reads. \<forall>as m. reads (nft_script ifname as m) = Some (nft_rules ifname as m)"
proof -
  have "\<exists>cs. \<forall>as m. t = nft_script ifname as m \<longrightarrow> cs = Some (nft_rules ifname as m)" for t
    using nft_script_inject [OF assms] by (cases "\<exists>as m. t = nft_script ifname as m") blast+
  then have "\<exists>reads. \<forall>t as m. t = nft_script ifname as m \<longrightarrow> reads t = Some (nft_rules ifname as m)"
    by (intro choice) blast
  then show ?thesis by blast
qed

end
