(* ===== verification/Tunnel_Guard.thy ===== *)
theory Tunnel_Guard
  imports Kernel_Contract Firewall_Reading
begin

section \<open>The packet filter throughout a switch\<close>

text \<open>
  The real backend with the tables of the packet filter in view: what \<open>KernelWireguard\<close> calls,
  what \<open>KernelWgOps\<close> runs, and what \<open>nft\<close> makes of the text. \<open>tables\<close> are the tables of a world.
\<close>

subsection \<open>What is relied on\<close>

text \<open>
  \<open>nft -f -\<close> reads its input to the end and then loads it as one transaction: starting it and
  writing to it change no table. Waiting for it leaves the tables as they were, or as the script
  makes them; the latter if the text was written and the exit status is success. \<open>reads\<close> is
  how \<open>nft\<close> parses.
\<close>

definition nft_loads ::
  "'w commands \<Rightarrow> (string \<Rightarrow> nft_command list option) \<Rightarrow> ('w \<Rightarrow> nft_tables) \<Rightarrow> bool" where
  "nft_loads io reads tables \<longleftrightarrow>
     (\<forall>args w. tables (snd (cmd_spawn io ''nft'' args w)) = tables w)
   \<and> (\<forall>s w. tables (snd (cmd_write io s w)) = tables w)
   \<and> (\<forall>s w. case cmd_write io s w of (written, w1) \<Rightarrow> case cmd_wait io w1 of (r, w2) \<Rightarrow>
        (tables w2 = tables w1 \<and> \<not> (is_ok written \<and> (\<exists>st. r = Inr (True, st))))
        \<or> (is_ok written \<and> Option.bind (reads s) (\<lambda>cs. apply_script cs (tables w1)) = Some (tables w2)))"

text \<open>The crate's calls have nothing to do with our tables.\<close>

definition api_leaves :: "('k, 'w) wg_api \<Rightarrow> ('w \<Rightarrow> 'v) \<Rightarrow> bool" where
  "api_leaves api view \<longleftrightarrow>
     (\<forall>ifname w. view (snd (api_new api ifname w)) = view w)
   \<and> (\<forall>w. view (snd (api_create_interface api w)) = view w)
   \<and> (\<forall>w. view (snd (api_remove_interface api w)) = view w)
   \<and> (\<forall>cfg w. view (snd (api_configure_interface api cfg w)) = view w)
   \<and> (\<forall>ps w. view (snd (api_configure_peer_routing api ps w)) = view w)
   \<and> (\<forall>ds ss w. view (snd (api_configure_dns api ds ss w)) = view w)
   \<and> (\<forall>w. view (snd (api_read_interface_data api w)) = view w)"

subsection \<open>Watching a backend\<close>

text \<open>Any backend, with what is in view after each of its operations.\<close>

definition watch_op :: "('w \<Rightarrow> 'v) \<Rightarrow> ('w, 'a) action \<Rightarrow> ('w \<times> 'v list, 'a) action" where
  "watch_op view m = (\<lambda>(w, h). case m w of (r, w') \<Rightarrow> (r, w', h @ [view w']))"

definition watched_ops :: "('w \<Rightarrow> 'v) \<Rightarrow> ('k, 'w) wg_ops \<Rightarrow> ('k, 'w \<times> 'v list) wg_ops" where
  "watched_ops view ops =
     \<lparr>op_create_interface = watch_op view (op_create_interface ops),
      op_remove_interface = watch_op view (op_remove_interface ops),
      op_configure_interface = (\<lambda>cfg. watch_op view (op_configure_interface ops cfg)),
      op_configure_peer_routing = (\<lambda>peers. watch_op view (op_configure_peer_routing ops peers)),
      op_sync_split_routes = (\<lambda>ps. watch_op view (op_sync_split_routes ops ps)),
      op_apply_firewall = (\<lambda>as m. watch_op view (op_apply_firewall ops as m)),
      op_clear_firewall = watch_op view (op_clear_firewall ops),
      op_configure_dns = (\<lambda>ds search. watch_op view (op_configure_dns ops ds search)),
      op_reset_dns = watch_op view (op_reset_dns ops),
      op_read_interface_data = watch_op view (op_read_interface_data ops)\<rparr>"

lemma watch_op_apply: "watch_op view m (w, h) = (fst (m w), snd (m w), h @ [view (snd (m w))])"
  by (simp add: watch_op_def split: prod.split)

lemma keeps_watch_op:
  assumes "keeps (\<lambda>w. view w \<in> T) m"
  shows "keeps (\<lambda>(w, h). view w \<in> T \<and> set h \<subseteq> T) (watch_op view m)"
  using assms by (auto simp: keeps_def watch_op_apply)

text \<open>What every switch keeps in view on a backend, it keeps in view all the way.\<close>

lemma watched_filter_ops:
  assumes "filter_ops ops (\<lambda>w. view w \<in> T) allowed"
  shows "filter_ops (watched_ops view ops) (\<lambda>(w, h). view w \<in> T \<and> set h \<subseteq> T) allowed"
  using assms unfolding filter_ops_def watched_ops_def by (simp add: keeps_watch_op)

subsection \<open>The tables\<close>

text \<open>The tables with ours for an interface, its addresses and a mark in place of what was there.\<close>

definition filtered :: "string \<Rightarrow> ip_addr_mask list \<Rightarrow> u32 option \<Rightarrow> nft_tables \<Rightarrow> nft_tables" where
  "filtered ifname as m t =
     t((Ip, nft_table) := our_table ifname as m Ip, (Ip6, nft_table) := our_table ifname as m Ip6)"

lemma filtered_twice [simp]: "filtered ifname as m (filtered ifname bs n t) = filtered ifname as m t"
  by (simp add: filtered_def fun_eq_iff)

text \<open>The packets our tables drop, and those that pretend to be for the tunnel.\<close>

definition dropped :: "nft_tables \<Rightarrow> nft_packet set" where
  "dropped t = {pk. our_tables_drop t pk}"

definition spoofed :: "string \<Rightarrow> ip_addr_mask list \<Rightarrow> nft_packet set" where
  "spoofed ifname as =
     {pk. pk_iifname pk \<noteq> ifname \<and> \<not> pk_local_source pk \<and> pk_daddr pk \<in> im_address ` set as}"

lemma dropped_filtered: "dropped (filtered ifname as m t) = spoofed ifname as"
  by (simp add: dropped_def spoofed_def filtered_def our_tables_drop_iff)

lemma filtered_others: "{k. filtered ifname as m t k \<noteq> t k} \<subseteq> {(Ip, nft_table), (Ip6, nft_table)}"
  by (auto simp: filtered_def)

lemma nft_loadsD:
  assumes "nft_loads io reads tables"
  shows "tables (snd (cmd_spawn io ''nft'' args w)) = tables w"
    and "tables (snd (cmd_write io s w)) = tables w"
    and "cmd_write io s w = (written, w1) \<Longrightarrow> cmd_wait io w1 = (r, w2) \<Longrightarrow>
        (tables w2 = tables w1 \<and> \<not> (is_ok written \<and> (\<exists>st. r = Inr (True, st))))
        \<or> (is_ok written \<and> Option.bind (reads s) (\<lambda>cs. apply_script cs (tables w1)) = Some (tables w2))"
proof -
  show "cmd_write io s w = (written, w1) \<Longrightarrow> cmd_wait io w1 = (r, w2) \<Longrightarrow>
        (tables w2 = tables w1 \<and> \<not> (is_ok written \<and> (\<exists>st. r = Inr (True, st))))
        \<or> (is_ok written \<and> Option.bind (reads s) (\<lambda>cs. apply_script cs (tables w1)) = Some (tables w2))"
    using assms [unfolded nft_loads_def, THEN conjunct2, THEN conjunct2, THEN spec, THEN spec, of s w] by simp
qed (use assms in \<open>simp_all add: nft_loads_def\<close>)

lemma run_nft_tables:
  assumes "nft_loads io reads tables" "reads (nft_script ifname as m) = Some (nft_rules ifname as m)"
  shows "tables (snd (run_nft io (nft_script ifname as m) w)) \<in> {tables w, filtered ifname as m (tables w)}"
    and "is_ok (fst (run_nft io (nft_script ifname as m) w))
      \<Longrightarrow> tables (snd (run_nft io (nft_script ifname as m) w)) = filtered ifname as m (tables w)"
proof -
  let ?s = "nft_script ifname as m"
  obtain x w0 where sp: "cmd_spawn io ''nft'' [''-f'', ''-''] w = (x, w0)" by fastforce
  obtain written w1 where wr: "cmd_write io ?s w0 = (written, w1)" by fastforce
  obtain r w2 where wt: "cmd_wait io w1 = (r, w2)" by fastforce
  have t: "tables w0 = tables w" "tables w1 = tables w0"
    using nft_loadsD(1) [OF assms(1), of "[''-f'', ''-'']" w] nft_loadsD(2) [OF assms(1), of ?s w0]
    by (simp_all add: sp wr)
  have "apply_script (nft_rules ifname as m) (tables w1) = Some (filtered ifname as m (tables w))"
    by (simp add: nft_rules_apply filtered_def t)
  with nft_loadsD(3) [OF assms(1) wr wt] assms(2) t
  have l: "(tables w2 = tables w \<and> \<not> (is_ok written \<and> (\<exists>st. r = Inr (True, st))))
      \<or> (is_ok written \<and> tables w2 = filtered ifname as m (tables w))"
    by (elim disjE) simp_all
  have "tables (snd (run_nft io ?s w)) \<in> {tables w, filtered ifname as m (tables w)}
    \<and> (is_ok (fst (run_nft io ?s w)) \<longrightarrow> tables (snd (run_nft io ?s w)) = filtered ifname as m (tables w))"
  proof (cases "x = Inr True")
    case False
    then have "run_nft io ?s w = (case x of Inl e \<Rightarrow> (Inl (''nft: '' @ e), w0) | Inr y \<Rightarrow> (Inl ''nft: stdin unavailable'', w0))"
      by (auto simp: run_nft_def bindS_def map_errS_def liftR_def sp split: sum.split)
    with t show ?thesis by (simp split: sum.split)
  next
    case True
    then have run: "run_nft io ?s w = (case r of Inl e \<Rightarrow> (Inl (''nft: '' @ e), w2)
      | Inr (success, status) \<Rightarrow> (case written of Inl e \<Rightarrow> (Inl (''nft: writing ruleset: '' @ e), w2)
         | Inr u \<Rightarrow> (if success then Inr () else Inl (''nft -f exited with '' @ status), w2)))"
      by (simp add: run_nft_def bindS_def map_errS_def liftR_def retS_def sp wr wt split: sum.split prod.split)
    show ?thesis using l unfolding run by (auto split: sum.split prod.split)
  qed
  then show "tables (snd (run_nft io ?s w)) \<in> {tables w, filtered ifname as m (tables w)}"
    "is_ok (fst (run_nft io ?s w)) \<Longrightarrow> tables (snd (run_nft io ?s w)) = filtered ifname as m (tables w)"
    by blast+
qed

subsection \<open>The real backend\<close>

text \<open>What its operations may do to the tables: nothing, or, for the filter, the whole replacement.\<close>

lemma with_api_keeps:
  assumes "api_leaves api tables" "keeps (\<lambda>w. tables w \<in> T) m"
  shows "keeps (\<lambda>w. tables w \<in> T) (with_api api ifname m)"
  using assms unfolding with_api_def api_leaves_def by (intro keeps_bindS) (simp_all add: keeps_def)

lemma routing_keeps_in:
  assumes "\<And>d. keeps (\<lambda>w. view w = d) m"
  shows "keeps (\<lambda>w. view w \<in> T) m"
  using assms by (simp add: keeps_def)

lemma kernel_filter_ops:
  fixes tables :: "'w \<Rightarrow> nft_tables"
  assumes api: "api_leaves api tables" and ip: "routing_leaves io tables" and nft: "nft_loads io reads tables"
    and reads: "\<And>as m. reads (nft_script ifname as m) = Some (nft_rules ifname as m)"
    and closed: "\<And>t as m. t \<in> T \<Longrightarrow> allowed as \<Longrightarrow> filtered ifname as m t \<in> T"
  shows "filter_ops (kernel_wg_ops dg dec api io (reset_resolvconf io pr) ifname) (\<lambda>w. tables w \<in> T) allowed"
proof
  let ?ops = "kernel_wg_ops dg dec api io (reset_resolvconf io pr) ifname"
  have calls: "keeps (\<lambda>w. tables w \<in> T) (api_create_interface api)"
    "keeps (\<lambda>w. tables w \<in> T) (api_configure_interface api cfg)"
    "keeps (\<lambda>w. tables w \<in> T) (api_configure_peer_routing api ps)"
    "keeps (\<lambda>w. tables w \<in> T) (api_configure_dns api ds search)"
    "keeps (\<lambda>w. tables w \<in> T) (api_read_interface_data api)" for cfg ps ds search
    using api unfolding api_leaves_def by (simp_all add: keeps_def)
  note with_api = with_api_keeps [OF api, of T]
  show "keeps (\<lambda>w. tables w \<in> T) (op_create_interface ?ops)"
    by (simp add: kernel_wg_ops_def with_api calls)
  show "keeps (\<lambda>w. tables w \<in> T) (op_configure_interface ?ops cfg)" for cfg
    by (simp add: kernel_wg_ops_def with_api calls)
  show "keeps (\<lambda>w. tables w \<in> T) (op_configure_peer_routing ?ops ps)" for ps
    by (simp add: kernel_wg_ops_def with_api calls)
  show "keeps (\<lambda>w. tables w \<in> T) (op_configure_dns ?ops ds search)" for ds search
    by (simp add: kernel_wg_ops_def with_api calls)
  show "keeps (\<lambda>w. tables w \<in> T) (op_read_interface_data ?ops)"
    by (simp add: kernel_wg_ops_def with_api calls)
  show "keeps (\<lambda>w. tables w \<in> T) (op_sync_split_routes ?ops ps)" for ps
    unfolding kernel_wg_ops_def wg_ops.simps by (rule routing_keeps_in) (rule sync_routes_keep [OF ip])
  show "keeps (\<lambda>w. tables w \<in> T) (op_reset_dns ?ops)"
    unfolding kernel_wg_ops_def wg_ops.simps by (rule routing_keeps_in) (rule reset_resolvconf_keeps [OF ip])
  show "keeps (\<lambda>w. tables w \<in> T) (op_apply_firewall ?ops as m)" if "allowed as" for as m
  proof
    fix w assume "tables w \<in> T"
    then show "tables (snd (op_apply_firewall ?ops as m w)) \<in> T"
      using run_nft_tables(1) [OF nft reads, of as m w] closed [OF _ that, of "tables w" m]
      by (auto simp: kernel_wg_ops_def)
  qed
qed

text \<open>The last word on the tables is the filter's: only the resolver comes after it.\<close>

lemma switched_tables:
  fixes tables :: "'w \<Rightarrow> nft_tables"
  assumes api: "api_leaves api tables" and ip: "routing_leaves io tables" and nft: "nft_loads io reads tables"
    and reads: "\<And>as m. reads (nft_script ifname as m) = Some (nft_rules ifname as m)"
    and k: "kernel_switch dg (watched_ops tables (kernel_wg_ops dg dec api io (reset_resolvconf io pr) ifname)) r s (w, l)
      = (Inr a, w', h)"
  shows "\<exists>as m t. parse_addresses dg s = Inr as \<and> tables w' = filtered ifname as m t"
proof -
  let ?ops = "kernel_wg_ops dg dec api io (reset_resolvconf io pr) ifname"
  obtain as dns v3 v4 where as: "parse_addresses dg s = Inr as"
    and g: "guard_tunnel (watched_ops tables ?ops) as v3 = (Inr (), v4)"
    and dns: "apply_dns (watched_ops tables ?ops) dns v4 = (Inr (), w', h)"
    using k by (auto simp: kernel_switch_def bindS_eq_Inr)
  obtain m v l where "op_apply_firewall (watched_ops tables ?ops) as m (v, l) = (Inr (), v4)"
    using g by (auto simp: guard_tunnel_def split: prod.splits)
  then have f: "run_nft io (nft_script ifname as m) v = (Inr (), fst v4)"
    by (auto simp: watched_ops_def watch_op_apply kernel_wg_ops_def prod_eq_iff)
  then have t: "tables (fst v4) = filtered ifname as m (tables v)"
    using run_nft_tables(2) [OF nft reads, of as m v] by simp
  have "filter_ops ?ops (\<lambda>w. tables w \<in> {tables (fst v4)}) (\<lambda>as. False)"
    by (rule kernel_filter_ops [OF api ip nft reads]) simp
  note filter_ops.keeps_apply_dns [OF watched_filter_ops [OF this], of dns]
  from keepsD [OF this, of "(fst v4, [])"] have "tables (fst (snd (apply_dns (watched_ops tables ?ops) dns (fst v4, [])))) = tables (fst v4)"
    by (simp add: split_beta)
  moreover have "fst (snd (apply_dns (watched_ops tables ?ops) dns (x, y))) = fst (snd (apply_dns (watched_ops tables ?ops) dns (x, [])))" for x y
    by (simp add: apply_dns_def ignoreS_def watched_ops_def watch_op_apply)
  ultimately have "tables w' = tables (fst v4)"
    using dns by (metis fst_conv prod.collapse snd_conv)
  with as t show ?thesis by metis
qed

section \<open>Property of the packet filter during a switch\<close>

text \<open>
  C23: a switch never opens a hole in the packet filter. With the real backend, where the crate and the
  programs do what they document, at every moment of a switch, and wherever it stops, our
  tables drop what they dropped before it or the packets that pretend to be for one of the new
  server's addresses; no other table changes; and once the switch succeeded they drop exactly
  those of the new server.
\<close>

theorem filter_guards_throughout:
  assumes "api_leaves api tables" "routing_leaves io tables" "nft_loads io reads tables"
    and "\<forall>as m. reads (nft_script ifname as m) = Some (nft_rules ifname as m)"
    and "kernel_switch dg (watched_ops tables (kernel_wg_ops dg dec api io (reset_resolvconf io pr) ifname)) r s (w, [])
      = (res, w', h)"
  shows "(\<forall>t \<in> insert (tables w') (set h).
      (dropped t = dropped (tables w) \<or> (\<exists>as. parse_addresses dg s = Inr as \<and> dropped t = spoofed ifname as))
      \<and> {k. t k \<noteq> tables w k} \<subseteq> {(Ip, nft_table), (Ip6, nft_table)})
   \<and> (is_ok res \<longrightarrow> (\<exists>as. parse_addresses dg s = Inr as \<and> dropped (tables w') = spoofed ifname as))"
proof -
  let ?ops = "kernel_wg_ops dg dec api io (reset_resolvconf io pr) ifname"
  let ?T = "insert (tables w) {filtered ifname as m (tables w) | as m. parse_addresses dg s = Inr as}"
  have reads: "reads (nft_script ifname as m) = Some (nft_rules ifname as m)" for as m using assms(4) by simp
  have "filter_ops ?ops (\<lambda>v. tables v \<in> ?T) (\<lambda>as. parse_addresses dg s = Inr as)"
    by (rule kernel_filter_ops [OF assms(1,2,3) reads]) auto
  from filter_ops.keeps_allowed_switch [OF watched_filter_ops [OF this], where dg = dg and s = s and r = r]
  have "keeps (\<lambda>(v, h). tables v \<in> ?T \<and> set h \<subseteq> ?T) (kernel_switch dg (watched_ops tables ?ops) r s)" by simp
  from keepsD [OF this, of "(w, [])"] assms(5) have T: "insert (tables w') (set h) \<subseteq> ?T" by simp
  have "is_ok res \<longrightarrow> (\<exists>as. parse_addresses dg s = Inr as \<and> dropped (tables w') = spoofed ifname as)"
  proof (cases res)
    case (Inr a)
    from switched_tables [OF assms(1,2,3) reads assms(5) [unfolded Inr]] show ?thesis
      by (auto simp: dropped_filtered)
  qed simp
  moreover have "(dropped t = dropped (tables w) \<or> (\<exists>as. parse_addresses dg s = Inr as \<and> dropped t = spoofed ifname as))
      \<and> {k. t k \<noteq> tables w k} \<subseteq> {(Ip, nft_table), (Ip6, nft_table)}"
    if "t \<in> insert (tables w') (set h)" for t
  proof -
    from that T consider "t = tables w" | as m where "t = filtered ifname as m (tables w)" "parse_addresses dg s = Inr as"
      by blast
    then show ?thesis using filtered_others by cases (simp_all add: dropped_filtered)
  qed
  ultimately show ?thesis by blast
qed

text \<open>An \<open>nft\<close> and a world of tables: writing keeps the text, waiting loads it.\<close>

record nft_world =
  nw_tables :: nft_tables
  nw_text :: string

definition nft_programs :: "(string \<Rightarrow> nft_command list option) \<Rightarrow> nft_world commands" where
  "nft_programs reads =
     \<lparr>cmd_status = (\<lambda>prog args. retS (True, ''0'')), cmd_output = (\<lambda>prog args. retS (True, [])),
      cmd_spawn = (\<lambda>prog args. retS True), cmd_write = (\<lambda>s w. (Inr (), w\<lparr>nw_text := s\<rparr>)),
      cmd_wait = (\<lambda>w. case Option.bind (reads (nw_text w)) (\<lambda>cs. apply_script cs (nw_tables w)) of
         None \<Rightarrow> (Inr (False, ''1''), w)
       | Some t \<Rightarrow> (Inr (True, ''0''), w\<lparr>nw_tables := t\<rparr>))\<rparr>"

definition deaf_api :: "('k, 'w) wg_api" where
  "deaf_api =
     \<lparr>api_new = (\<lambda>ifname. retS ()), api_create_interface = retS (), api_remove_interface = retS (),
      api_configure_interface = (\<lambda>cfg. retS ()), api_configure_peer_routing = (\<lambda>ps. retS ()),
      api_configure_dns = (\<lambda>ds ss. retS ()), api_read_interface_data = liftR (Inl ''No such device'')\<rparr>"

lemma nft_programs_load: "nft_loads (nft_programs reads) reads nw_tables"
  by (auto simp: nft_loads_def nft_programs_def retS_def split: option.split)

text \<open>With them nothing a switch runs can fail.\<close>

lemma nft_programs_route: "is_ok (fst (ip_route dg (nft_programs reads) act p ifname w))"
  by (simp add: ip_route_def nft_programs_def map_errS_def bindS_def retS_def Let_def)

lemma nft_programs_sync: "is_ok (fst (sync_split_routes_via_ip dg dec (nft_programs reads) ifname ps w))"
proof -
  have r: "is_ok (fst (replace_routes dg (nft_programs reads) ifname qs v))" for qs v
    by (induction qs arbitrary: v) (auto simp: retS_def intro!: bindS_ok nft_programs_route)
  have d: "is_ok (fst (delete_routes dg (nft_programs reads) ifname qs v))" for qs v
    by (induction qs arbitrary: v) (simp_all add: retS_def)
  show ?thesis
    unfolding sync_split_routes_via_ip_def by (rule bindS_ok [OF r]) (simp add: d split: prod.split)
qed

lemma nft_programs_run:
  assumes "reads (nft_script ifname as m) = Some (nft_rules ifname as m)"
  shows "is_ok (fst (run_nft (nft_programs reads) (nft_script ifname as m) w))"
  by (simp add: run_nft_def nft_programs_def map_errS_def bindS_def retS_def assms nft_rules_apply)

lemma nft_programs_succeed:
  assumes "\<forall>as m. reads (nft_script ifname as m) = Some (nft_rules ifname as m)"
  shows "ops_succeed (watched_ops view (kernel_wg_ops dg dec deaf_api (nft_programs reads) reset ifname))"
  by (simp add: ops_succeed_def watched_ops_def watch_op_apply kernel_wg_ops_def nft_programs_sync
      nft_programs_run assms with_api_def deaf_api_def retS_def bindS_def)

theorem filter_guards_throughout_witness:
  "\<exists>reads w' h. (\<forall>as m. reads (nft_script interface_name as m) = Some (nft_rules interface_name as m))
     \<and> kernel_switch sample_dg (watched_ops nw_tables (kernel_wg_ops sample_dg lan_dec deaf_api (nft_programs reads)
          (reset_resolvconf (nft_programs reads) bare_host) interface_name)) no_resolver edge_server
          (\<lparr>nw_tables = (\<lambda>_. None), nw_text = []\<rparr>, []) = (Inr (SockV4 0xC633640A 51820), w', h)
     \<and> (\<exists>as. parse_addresses sample_dg edge_server = Inr as \<and> dropped (nw_tables w') = spoofed interface_name as)"
proof -
  have "line_free interface_name" by (simp add: line_free_def interface_name_def)
  then obtain reads where r: "\<forall>as m. reads (nft_script interface_name as m) = Some (nft_rules interface_name as m)"
    using nft_readable by blast
  let ?ops = "kernel_wg_ops sample_dg lan_dec deaf_api (nft_programs reads)
      (reset_resolvconf (nft_programs reads) bare_host) interface_name"
  let ?w = "\<lparr>nw_tables = (\<lambda>_. None), nw_text = []\<rparr>"
  have "ops_succeed (watched_ops nw_tables ?ops)"
    by (rule nft_programs_succeed [OF r])
  note kernel_switch_ok [OF this edge_well_formed edge_endpoint]
  then obtain w' h where k: "kernel_switch sample_dg (watched_ops nw_tables ?ops) no_resolver edge_server (?w, [])
      = (Inr (SockV4 0xC633640A 51820), w', h)" by (metis prod.collapse)
  have "api_leaves (deaf_api :: (sample_key, nft_world) wg_api) nw_tables"
    by (simp add: api_leaves_def deaf_api_def retS_def liftR_def)
  moreover have "routing_leaves (nft_programs reads) nw_tables"
    by (simp add: routing_leaves_def nft_programs_def retS_def)
  ultimately have "\<exists>as. parse_addresses sample_dg edge_server = Inr as
      \<and> dropped (nw_tables w') = spoofed interface_name as"
    using filter_guards_throughout [OF _ _ nft_programs_load r k] by simp
  with r k show ?thesis by blast
qed

end
