(* ===== verification/Server.thy ===== *)
theory Server
  imports Daemon_Spec
begin

section \<open>The socket server (\<open>daemon/src/server.rs\<close>)\<close>

text \<open>
  Framing and the accept loop, and how the control socket is set up. A connection is what the
  daemon sees of a client: the bytes that arrive on it, how the stream ends after them (closed,
  or an error such as the timeout of a stalled client), and which calls on it fail. The JSON
  codec of serde is the parameter \<open>codec\<close>. \<open>serve\<close> runs over the connections the listener
  has accepted so far; each comes with what its request meets from outside.
\<close>

record codec =
  cd_enc_request :: "request \<Rightarrow> string result"
  cd_dec_request :: "string \<Rightarrow> request result"
  cd_enc_response :: "response \<Rightarrow> string result"
  cd_dec_response :: "string \<Rightarrow> response result"

record connection =
  cn_input :: string
  cn_end :: "string option"
  cn_output :: string
  cn_read_timeout :: "nat option"
  cn_write_timeout :: "nat option"
  cn_timeout_fault :: "string option \<times> string option"
  cn_write_fault :: "(nat \<times> string) option"

definition max_request_bytes :: nat where
  "max_request_bytes = 64 * 1024"

text \<open>Seconds.\<close>

definition io_timeout :: nat where
  "io_timeout = 10"

definition newline :: char where
  "newline = CHR 0x0A"

subsection \<open>The operations of a stream\<close>

definition set_read_timeout :: "nat \<Rightarrow> (connection, unit) action" where
  "set_read_timeout t c =
     (case fst (cn_timeout_fault c) of
        Some e \<Rightarrow> (Inl e, c)
      | None \<Rightarrow> (Inr (), c\<lparr>cn_read_timeout := Some t\<rparr>))"

definition set_write_timeout :: "nat \<Rightarrow> (connection, unit) action" where
  "set_write_timeout t c =
     (case snd (cn_timeout_fault c) of
        Some e \<Rightarrow> (Inl e, c)
      | None \<Rightarrow> (Inr (), c\<lparr>cn_write_timeout := Some t\<rparr>))"

text \<open>The first line of a text with its line feed, or all of it.\<close>

definition first_line :: "string \<Rightarrow> string" where
  "first_line s =
     (case split_once newline s of None \<Rightarrow> s | Some (l, r) \<Rightarrow> l @ [newline])"

text \<open>
  \<open>read_line\<close> on a reader limited to \<open>n\<close> bytes: it stops after a line feed, at the limit, or at
  the end of the stream; an error of the stream before that, and a line that is not UTF-8, are
  its errors.
\<close>

definition read_line :: "nat \<Rightarrow> (connection, string) action" where
  "read_line n c =
     (let s = take n (cn_input c); line = first_line s;
          failure = (if newline \<in> set s \<or> n \<le> length (cn_input c) then None else cn_end c)
      in (case failure of
            Some e \<Rightarrow> (Inl e, c)
          | None \<Rightarrow>
              if utf8_valid line then (Inr line, c)
              else (Inl ''stream did not contain valid UTF-8'', c)))"

text \<open>A write that fails may have sent a part of its bytes.\<close>

definition write_bytes :: "string \<Rightarrow> (connection, unit) action" where
  "write_bytes bs c =
     (case cn_write_fault c of
        None \<Rightarrow> (Inr (), c\<lparr>cn_output := cn_output c @ bs\<rparr>)
      | Some (n, e) \<Rightarrow>
          if length (cn_output c @ bs) \<le> n then (Inr (), c\<lparr>cn_output := cn_output c @ bs\<rparr>)
          else (Inl e, c\<lparr>cn_output := take (max n (length (cn_output c))) (cn_output c @ bs)\<rparr>))"

subsection \<open>One client\<close>

definition dispatch ::
  "('k, 'w) deps \<Rightarrow> codec \<Rightarrow> 'k env \<Rightarrow> string \<Rightarrow> 'w daemon \<Rightarrow> (string + response) \<times> 'w daemon" where
  "dispatch dp cd ev line d =
     (case cd_dec_request cd line of
        Inr req \<Rightarrow> handle dp ev req d
      | Inl e \<Rightarrow> (Inr (RespError (''bad request: '' @ e)), d))"

text \<open>Before the request is dispatched, and after it.\<close>

definition read_request :: "(connection, string) action" where
  "read_request =
     bindS (set_read_timeout io_timeout) (\<lambda>_.
     bindS (set_write_timeout io_timeout) (\<lambda>_.
       read_line max_request_bytes))"

definition write_reply :: "codec \<Rightarrow> response \<Rightarrow> (connection, unit) action" where
  "write_reply cd resp =
     bindS (liftR (cd_enc_response cd resp)) (\<lambda>json.
     bindS (write_bytes json) (\<lambda>_.
       write_bytes [newline]))"

definition handle_client ::
  "('k, 'w) deps \<Rightarrow> codec \<Rightarrow> 'k env \<Rightarrow> connection \<Rightarrow> 'w daemon
     \<Rightarrow> (fail + unit) \<times> connection \<times> 'w daemon" where
  "handle_client dp cd ev c d =
     (case read_request c of
        (Inl e, c1) \<Rightarrow> (Inl (Err e), c1, d)
      | (Inr line, c1) \<Rightarrow>
          (case dispatch dp cd ev line d of
             (Inl m, d') \<Rightarrow> (Inl (Panic m), c1, d')
           | (Inr resp, d') \<Rightarrow>
               (case write_reply cd resp c1 of (r, c2) \<Rightarrow> (map_err Err r, c2, d'))))"

subsection \<open>The accept loop\<close>

text \<open>
  What the loop has done after the given results of \<open>accept\<close>: the lines it logged, the
  connections as it left them, the panic that ended it, if one did, and the daemon.
\<close>

fun serve ::
  "('k, 'w) deps \<Rightarrow> codec \<Rightarrow> ('k env \<times> (string + connection)) list \<Rightarrow> 'w daemon
     \<Rightarrow> string list \<times> connection list \<times> string option \<times> 'w daemon" where
  "serve dp cd [] d = ([], [], None, d)"
| "serve dp cd ((ev, Inl e) # xs) d =
     (case serve dp cd xs d of (log, cs, p, d') \<Rightarrow>
        ((''wirefinderd: accept error: '' @ e) # log, cs, p, d'))"
| "serve dp cd ((ev, Inr c) # xs) d =
     (case handle_client dp cd ev c d of
        (Inl (Panic m), c', d') \<Rightarrow> ([], [c'], Some m, d')
      | (Inl (Err e), c', d') \<Rightarrow>
          (case serve dp cd xs d' of (log, cs, p, d'') \<Rightarrow>
             ((''wirefinderd: client error: '' @ e) # log, c' # cs, p, d''))
      | (Inr u, c', d') \<Rightarrow>
          (case serve dp cd xs d' of (log, cs, p, d'') \<Rightarrow> (log, c' # cs, p, d'')))"

subsection \<open>Setting up the socket\<close>

text \<open>
  The calls that set up the socket, on a host where some of them fail, also because of what was
  there before. The world is the list of the calls that succeeded. Modes are written in decimal: 488 is 0750 and 432 is 0660 in octal.
\<close>

datatype sock_call =
    CreateDir string nat
  | SetMode string nat
  | Chown string u32 u32
  | RemoveFile string
  | BindSocket string

record host_env =
  he_fault :: "sock_call list \<Rightarrow> sock_call \<Rightarrow> string option"
  he_var :: "string \<Rightarrow> string option"

definition syscall :: "host_env \<Rightarrow> sock_call \<Rightarrow> (sock_call list, unit) action" where
  "syscall h call log =
     (case he_fault h log call of Some e \<Rightarrow> (Inl e, log) | None \<Rightarrow> (Inr (), log @ [call]))"

definition chown_to_invoking_user :: "host_env \<Rightarrow> string \<Rightarrow> (sock_call list, unit) action" where
  "chown_to_invoking_user h path =
     (case (Option.bind (he_var h ''SUDO_UID'') parse_u32, Option.bind (he_var h ''SUDO_GID'') parse_u32) of
        (Some uid, Some gid) \<Rightarrow> syscall h (Chown path uid gid)
      | _ \<Rightarrow> retS ())"

definition lock_directory :: "host_env \<Rightarrow> string \<Rightarrow> (sock_call list, unit) action" where
  "lock_directory h path =
     (case nonempty_parent path of
        None \<Rightarrow> retS ()
      | Some dir \<Rightarrow>
          bindS (syscall h (CreateDir dir 488)) (\<lambda>_.
          bindS (syscall h (SetMode dir 488)) (\<lambda>_.
            chown_to_invoking_user h dir)))"

definition bind_at :: "host_env \<Rightarrow> string \<Rightarrow> (sock_call list, unit) action" where
  "bind_at h path =
     bindS (lock_directory h path) (\<lambda>_.
     bindS (ignoreS (syscall h (RemoveFile path))) (\<lambda>_.
     bindS (syscall h (BindSocket path)) (\<lambda>_.
     bindS (syscall h (SetMode path 432)) (\<lambda>_.
       chown_to_invoking_user h path))))"

definition bind_socket :: "host_env \<Rightarrow> (sock_call list, unit) action" where
  "bind_socket h = bind_at h socket_path"

subsection \<open>The daemon process (\<open>daemon/src/main.rs\<close>)\<close>

definition default_state_path :: "host_env \<Rightarrow> string" where
  "default_state_path h =
     (case he_var h ''WIREFINDER_STATE'' of Some p \<Rightarrow> p | None \<Rightarrow> ''/var/lib/wirefinder/state.json'')"

definition ready_line :: "'w daemon \<Rightarrow> string" where
  "ready_line d = ''wirefinderd: ready '' @ [CHR 0xE2, CHR 0x80, CHR 0x94] @ '' ''
     @ show_nat (server_count d) @ '' server(s) configured''"

text \<open>
  \<open>main\<close>, with the listener's results so far: the exit code, if it has ended, what it printed,
  and the daemon if it was started. The signal handler is not part of it: it ends the process
  at any point without touching the tunnel.
\<close>

definition daemon_main ::
  "('k, 'w) deps \<Rightarrow> codec \<Rightarrow> host_env \<Rightarrow> faults \<Rightarrow> file_system \<Rightarrow> 'w
     \<Rightarrow> ('k env \<times> (string + connection)) list
     \<Rightarrow> nat option \<times> string list \<times> connection list \<times> 'w daemon option" where
  "daemon_main dp cd h f disk w xs =
     (case daemon_load (dp\<lparr>dep_store := default_state_path h\<rparr>) f disk w of
        Inl e \<Rightarrow> (Some 1, [''wirefinderd: state: '' @ e], [], None)
      | Inr d \<Rightarrow>
          (case bind_socket h [] of
             (Inl e, _) \<Rightarrow> (Some 1, [ready_line d], [], Some d)
           | (Inr _, _) \<Rightarrow>
               (case serve (dp\<lparr>dep_store := default_state_path h\<rparr>) cd xs d of
                  (log, cs, p, d') \<Rightarrow>
                    (map_option (\<lambda>_. 101) p, ready_line d # log, cs, Some d'))))"

subsection \<open>The server does what its clients' requests say\<close>

text \<open>The request a connection carries, if it carries one.\<close>

definition received :: "codec \<Rightarrow> connection \<Rightarrow> request option" where
  "received cd c =
     (case fst (read_request c) of Inl e \<Rightarrow> None | Inr line \<Rightarrow> ok (cd_dec_request cd line))"

definition requests :: "codec \<Rightarrow> ('k env \<times> (string + connection)) list \<Rightarrow> ('k env \<times> request) list" where
  "requests cd xs = List.map_filter (\<lambda>(ev, x).
     Option.bind (ok x) (\<lambda>c. map_option (Pair ev) (received cd c))) xs"

lemma requests_simps [simp]:
  "requests cd [] = []"
  "requests cd ((ev, Inl e) # xs) = requests cd xs"
  "requests cd ((ev, Inr c) # xs) =
     (case received cd c of None \<Rightarrow> requests cd xs | Some req \<Rightarrow> (ev, req) # requests cd xs)"
  by (simp_all add: requests_def List.map_filter_def split: option.split)

lemma dispatch_answers: "\<exists>r. fst (dispatch dp cd ev line d) = Inr r"
  using handle_fits by (fastforce simp: dispatch_def split: sum.split)

lemma handle_client_daemon:
  "snd (snd (handle_client dp cd ev c d)) =
   (case received cd c of None \<Rightarrow> d | Some req \<Rightarrow> snd (handle dp ev req d))"
  by (auto simp: handle_client_def received_def dispatch_def split: prod.split sum.split)

lemma handle_client_no_panic: "fst (handle_client dp cd ev c d) \<noteq> Inl (Panic m)"
  using dispatch_answers [of dp cd ev _ d]
  by (auto simp: handle_client_def map_err_eq_Inl split: prod.split sum.split)
    (metis fst_conv sum.distinct(1))

lemma serve_daemon:
  "fst (snd (snd (serve dp cd xs d))) = None
   \<and> snd (snd (snd (serve dp cd xs d)))
     = fold (\<lambda>(ev, req) d. snd (handle dp ev req d)) (requests cd xs) d"
proof (induction dp cd xs d rule: serve.induct)
  case (3 dp cd ev c xs d)
  obtain r c' d' where h: "handle_client dp cd ev c d = (r, c', d')" by (cases "handle_client dp cd ev c d")
  then have d': "d' = (case received cd c of None \<Rightarrow> d | Some req \<Rightarrow> snd (handle dp ev req d))"
    using handle_client_daemon [of dp cd ev c d] by simp
  have "r \<noteq> Inl (Panic m)" for m using h handle_client_no_panic [of dp cd ev c d m] by simp
  then consider e where "r = Inl (Err e)" | "r = Inr ()" by (metis fail.exhaust sum.exhaust unit.exhaust)
  then show ?case
  proof cases
    case 1
    with "3.IH"(1) [OF h [symmetric] 1 refl refl] h show ?thesis
      by (auto simp: d' split_beta split: option.split)
  next
    case 2
    with "3.IH"(2) [OF h [symmetric] 2 refl] h show ?thesis
      by (auto simp: d' split_beta split: option.split)
  qed
qed (simp_all add: split_beta)

lemma requests_reach:
  "(daemon_step dp)\<^sup>*\<^sup>* d (fold (\<lambda>(ev, req) d. snd (handle dp ev req d)) rs d)"
proof (induction rs arbitrary: d)
  case (Cons r rs)
  obtain ev req where r: "r = (ev, req)" by (cases r)
  have "daemon_step dp d (snd (handle dp ev req d))"
    by (rule daemon_step.request [OF surjective_pairing])
  with Cons.IH r show ?case by (auto intro: converse_rtranclp_into_rtranclp)
qed simp


section \<open>Properties of the server\<close>

text \<open>
  C31: the accept loop never panics, and the daemon after it is the daemon that has handled, in
  the order of the connections, exactly the requests that arrived whole and in time: whatever
  else clients send, bytes that are no request among them, changes nothing, and a reply that
  cannot be delivered does not undo its request.
\<close>

theorem serve_in_order:
  "\<exists>log cs. serve dp cd xs d
     = (log, cs, None, fold (\<lambda>(ev, req) d. snd (handle dp ev req d)) (requests cd xs) d)"
  using serve_daemon [of dp cd xs d] by (metis prod.collapse)


lemma first_line_prefix: "prefix (first_line s) s"
  by (auto simp: first_line_def split: option.split dest!: split_once_SomeD)

lemma read_line_take:
  "fst (read_line n (c\<lparr>cn_input := take n (cn_input c)\<rparr>)) = fst (read_line n c)"
proof (cases "n \<le> length (cn_input c)")
  case False
  then have "c\<lparr>cn_input := take n (cn_input c)\<rparr> = c" by simp
  then show ?thesis by (simp only:)
qed (simp add: read_line_def Let_def)

lemma read_line_Inr:
  assumes "fst (read_line n c) = Inr line"
  shows "length line \<le> n" "prefix line (cn_input c)"
proof -
  have p: "prefix line (take n (cn_input c))"
    using assms by (auto simp: read_line_def Let_def first_line_prefix split: option.splits if_splits)
  from prefix_length_le [OF this] show "length line \<le> n" by simp
  show "prefix line (cn_input c)" using p take_is_prefix prefix_order.trans by blast
qed

lemma read_request_fst:
  "fst (read_request c) =
   (case cn_timeout_fault c of
      (Some e, _) \<Rightarrow> Inl e | (None, Some e) \<Rightarrow> Inl e | (None, None) \<Rightarrow> fst (read_line max_request_bytes c))"
  by (auto simp: read_request_def bindS_def set_read_timeout_def set_write_timeout_def read_line_def Let_def
      split: option.split prod.split)

text \<open>
  C33: no client makes the daemon hold more than 64 KiB of a request: of what it sends only the
  first 65536 bytes matter, and the line that is parsed is a beginning of it no longer than that.
\<close>

theorem request_bounded:
  "received cd (c\<lparr>cn_input := take 65536 (cn_input c)\<rparr>) = received cd c
   \<and> {line. fst (read_request c) = Inr line} \<subseteq> {line. length line \<le> 65536 \<and> prefix line (cn_input c)}"
proof -
  have m: "max_request_bytes = 65536" by (simp add: max_request_bytes_def)
  have "fst (read_request (c\<lparr>cn_input := take 65536 (cn_input c)\<rparr>)) = fst (read_request c)"
    using read_line_take [of 65536 c] unfolding read_request_fst m by (auto split: prod.split option.split)
  moreover have "length line \<le> 65536 \<and> prefix line (cn_input c)" if "fst (read_request c) = Inr line" for line
    using that read_line_Inr [of 65536 c line] unfolding read_request_fst m by (auto split: prod.splits option.splits)
  ultimately show ?thesis by (auto simp: received_def)
qed

subsection \<open>The control socket\<close>

definition socket_dir :: string where
  "socket_dir = ''/run/wirefinder''"

text \<open>
  What the calls do to the modes of the paths. A new directory has the mode asked for (the
  umask can only take away from it); a new socket is open to everyone until its mode is set.
\<close>

fun call_effect :: "sock_call \<Rightarrow> (string \<Rightarrow> nat option) \<Rightarrow> (string \<Rightarrow> nat option)" where
  "call_effect (CreateDir p m) modes = (if modes p = None then modes(p \<mapsto> m) else modes)"
| "call_effect (SetMode p m) modes = modes(p \<mapsto> m)"
| "call_effect (Chown p u g) modes = modes"
| "call_effect (RemoveFile p) modes = modes(p := None)"
| "call_effect (BindSocket p) modes = modes(p \<mapsto> 511)"

lemma socket_parent: "nonempty_parent socket_path = Some socket_dir"
  by code_simp


text \<open>At no moment is a new socket there while its directory is open to others.\<close>

definition never_exposed :: "(string \<Rightarrow> nat option) \<Rightarrow> sock_call list \<Rightarrow> bool" where
  "never_exposed m log \<longleftrightarrow>
     (\<forall>k. BindSocket socket_path \<in> set (take k log)
        \<longrightarrow> fold call_effect (take k log) m socket_dir = Some 488)"

definition guarded :: "(string \<Rightarrow> nat option) \<Rightarrow> sock_call list \<Rightarrow> bool" where
  "guarded m log \<longleftrightarrow> never_exposed m log \<and> fold call_effect log m socket_dir = Some 488"

lemma never_exposed_unbound: "BindSocket socket_path \<notin> set log \<Longrightarrow> never_exposed m log"
  by (auto simp: never_exposed_def dest: in_set_takeD)

lemma guarded_snoc:
  assumes "guarded m log" and "call_effect c (fold call_effect log m) socket_dir = Some 488"
  shows "guarded m (log @ [c])"
proof -
  have "fold call_effect (take k (log @ [c])) m socket_dir = Some 488"
    if "BindSocket socket_path \<in> set (take k (log @ [c]))" for k
  proof (cases "k \<le> length log")
    case True
    with that assms(1) show ?thesis by (simp add: guarded_def never_exposed_def)
  next
    case False
    with assms(2) show ?thesis by simp
  qed
  with assms show ?thesis by (simp add: guarded_def never_exposed_def)
qed

lemma dir_is_not_socket [simp]: "socket_dir \<noteq> socket_path" "socket_path \<noteq> socket_dir"
  by (simp_all add: socket_dir_def socket_path_def)

lemma keeps_guarded_syscall:
  assumes "\<And>m. call_effect c m socket_dir = m socket_dir"
  shows "keeps (guarded m) (syscall h c)"
  using guarded_snoc [of m _ c] assms by (auto simp: keeps_def syscall_def guarded_def split: option.split)

lemma keeps_guarded_chown: "keeps (guarded m) (chown_to_invoking_user h p)"
  unfolding chown_to_invoking_user_def by (auto split: option.split intro: keeps_guarded_syscall)

lemma keeps_guarded_rest:
  "keeps (guarded m) (bindS (ignoreS (syscall h (RemoveFile socket_path))) (\<lambda>_.
     bindS (syscall h (BindSocket socket_path)) (\<lambda>_.
     bindS (syscall h (SetMode socket_path 432)) (\<lambda>_. chown_to_invoking_user h socket_path))))"
  by (intro keeps_bindS keeps_ignoreS keeps_guarded_syscall keeps_guarded_chown) simp_all

lemma lock_directory_guards:
  "case lock_directory h socket_path [] of
     (Inl e, log) \<Rightarrow> never_exposed m log | (Inr u, log) \<Rightarrow> guarded m log"
proof -
  have g: "guarded m [CreateDir socket_dir 488, SetMode socket_dir 488]"
    by (simp add: guarded_def never_exposed_def take_Cons' fun_upd_def)
  have "guarded m (snd (chown_to_invoking_user h socket_dir [CreateDir socket_dir 488, SetMode socket_dir 488]))"
    by (rule keepsD [OF keeps_guarded_chown g])
  then show ?thesis
    by (auto simp: lock_directory_def socket_parent syscall_def bindS_def never_exposed_unbound guarded_def
        split: option.split prod.split sum.split)
qed

lemma bind_socket_safe: "never_exposed m (snd (bind_socket h []))"
proof -
  obtain r log where l: "lock_directory h socket_path [] = (r, log)" by (cases "lock_directory h socket_path []")
  then show ?thesis
    using lock_directory_guards [where h = h and m = m] keepsD [OF keeps_guarded_rest, of m log h]
    by (cases r) (auto simp: bind_socket_def bind_at_def bindS_def guarded_def)
qed

lemma chown_effect: "fold call_effect (snd (chown_to_invoking_user h p log)) m = fold call_effect log m"
  by (simp add: chown_to_invoking_user_def syscall_def split: option.split)

lemma syscall_Inr: "syscall h c log = (Inr u, log') \<longleftrightarrow> he_fault h log c = None \<and> log' = log @ [c]"
  by (auto simp: syscall_def split: option.split)

lemma bind_socket_mode:
  assumes "fst (bind_socket h []) = Inr ()"
  shows "fold call_effect (snd (bind_socket h [])) m socket_path = Some 432"
proof -
  obtain log' where b: "bind_socket h [] = (Inr (), log')" using assms by (cases "bind_socket h []") simp
  then obtain log where
    "chown_to_invoking_user h socket_path (log @ [BindSocket socket_path, SetMode socket_path 432]) = (Inr (), log')"
    by (auto simp: bind_socket_def bind_at_def bindS_eq_Inr syscall_Inr)
  then have "log' = snd (chown_to_invoking_user h socket_path (log @ [BindSocket socket_path, SetMode socket_path 432]))"
    by simp
  with b show ?thesis by (simp only: chown_effect snd_conv) simp
qed

text \<open>
  C36: the control socket is never reachable by others. Whatever calls fail, at every moment of
  the set-up at which the new socket exists its directory already has the mode 0750; and a
  set-up that succeeds has given the socket the mode 0660.
\<close>

theorem bind_locks_down:
  "(\<forall>k. BindSocket socket_path \<in> set (take k (snd (bind_socket h [])))
      \<longrightarrow> fold call_effect (take k (snd (bind_socket h []))) modes socket_dir = Some 488)
   \<and> (fst (bind_socket h []) = Inr ()
      \<longrightarrow> fold call_effect (snd (bind_socket h [])) modes socket_path = Some 432)"
  using bind_socket_safe [of modes h] bind_socket_mode [of h modes] by (simp add: never_exposed_def)

definition under_sudo :: host_env where
  "under_sudo = \<lparr>he_fault = (\<lambda>_ _. None),
     he_var = [''SUDO_UID'' \<mapsto> ''1000'', ''SUDO_GID'' \<mapsto> ''1000'', ''WIREFINDER_STATE'' \<mapsto> state_path]\<rparr>"

lemma bind_under_sudo:
  "fst (bind_socket under_sudo []) = Inr () \<and> BindSocket socket_path \<in> set (snd (bind_socket under_sudo []))"
  by (auto simp: bind_socket_def bind_at_def lock_directory_def socket_parent syscall_def bindS_def
      chown_to_invoking_user_def retS_def under_sudo_def split: option.split)

theorem bind_locks_down_witness:
  "\<exists>modes'. fst (bind_socket under_sudo []) = Inr () \<and> BindSocket socket_path \<in> set (snd (bind_socket under_sudo []))
     \<and> modes' = fold call_effect (snd (bind_socket under_sudo [])) (\<lambda>_. None)
     \<and> modes' socket_dir = Some 488 \<and> modes' socket_path = Some 432"
proof -
  let ?log = "snd (bind_socket under_sudo [])"
  note ok = bind_under_sudo
  have "BindSocket socket_path \<in> set (take (length ?log) ?log)" using ok by simp
  then show ?thesis
    using bind_locks_down [of under_sudo "\<lambda>_. None"] ok by (metis order_refl take_all)
qed


subsection \<open>The daemon process keeps its configuration well-formed\<close>

text \<open>
  Whatever the clients of the daemon process send, bytes that are no request included, and
  whatever fails on the way: started on a state file that holds only well-formed configurations,
  the daemon has a well-formed one, and so has the file.
\<close>

theorem process_keeps_config:
  assumes "daemon_main dp cd h f disk w xs = (code, log, cs, Some d)"
    and "codec_ok (dep_enc dp) (dep_dec dp)"
    and "disk_ok (dp\<lparr>dep_store := default_state_path h\<rparr>) disk"
  shows "config_ok (dep_dg dp) (d_cfg d) \<and> disk_ok (dp\<lparr>dep_store := default_state_path h\<rparr>) (d_disk d)
    \<and> (code = None \<or> code = Some 1)"
proof -
  let ?dp = "dp\<lparr>dep_store := default_state_path h\<rparr>"
  from assms(1) obtain d0 where l: "daemon_load ?dp f disk w = Inr d0"
    by (auto simp: daemon_main_def split: sum.splits)
  have d: "d = d0 \<or> d = snd (snd (snd (serve ?dp cd xs d0)))" and c: "code = None \<or> code = Some 1"
    using assms(1) l serve_daemon [of ?dp cd xs d0]
    by (auto simp: daemon_main_def split: prod.splits sum.splits)
  have "(daemon_step ?dp)\<^sup>*\<^sup>* d0 d"
    using d serve_daemon [of ?dp cd xs d0] requests_reach [of ?dp d0 "requests cd xs"] by auto
  from run_ok [OF this] loaded_ok [OF l assms(3)] assms(2,3) c show ?thesis by simp
qed

text \<open>A client that sends no JSON, one that stalls, and a failed accept.\<close>

definition noise :: connection where
  "noise = \<lparr>cn_input = ''this is not json'' @ [newline], cn_end = None, cn_output = [],
     cn_read_timeout = None, cn_write_timeout = None, cn_timeout_fault = (None, None), cn_write_fault = None\<rparr>"

definition sample_codec_io :: codec where
  "sample_codec_io =
     \<lparr>cd_enc_request = (\<lambda>r. if r = ReqStatus then Inr ''\"Status\"'' else Inl ''not in the sample''),
      cd_dec_request = (\<lambda>s. if s = ''\"Status\"'' @ [newline] then Inr ReqStatus else Inl ''expected value''),
      cd_enc_response = (\<lambda>r. if r = RespDisconnected then Inr ''\"Disconnected\"'' else Inr ''{}''),
      cd_dec_response = (\<lambda>s. if s = ''\"Disconnected\"'' @ [newline] then Inr RespDisconnected
         else Inl ''expected value'')\<rparr>"

theorem process_keeps_config_witness:
  "\<exists>d log cs. daemon_main (sample_deps one_server) sample_codec_io under_sudo no_faults empty_fs fake_default
       [(sample_env, Inr noise), (sample_env, Inr (noise\<lparr>cn_input := ''{'', cn_end := Some ''timed out''\<rparr>)),
        (sample_env, Inl ''too many files'')] = (None, log, cs, Some d)
     \<and> config_ok sample_dg (d_cfg d)"
proof -
  let ?dp = "sample_deps one_server\<lparr>dep_store := default_state_path under_sudo\<rparr>"
  let ?xs = "[(sample_env, Inr noise), (sample_env, Inr (noise\<lparr>cn_input := ''{'', cn_end := Some ''timed out''\<rparr>)),
        (sample_env, Inl ''too many files'')]"
  have l: "daemon_load ?dp no_faults empty_fs fake_default = Inr (sample_daemon config_default)"
    by (simp add: daemon_load_def load_def read_to_string_def no_faults_def file_text_def fs_live_def
        empty_fs_def sample_daemon_def)
  obtain l where b: "bind_socket under_sudo [] = (Inr (), l)"
    using bind_under_sudo by (metis prod.collapse)
  obtain log cs d where s: "serve ?dp sample_codec_io ?xs (sample_daemon config_default) = (log, cs, None, d)"
    using serve_daemon by (metis prod.collapse)
  have m: "daemon_main (sample_deps one_server) sample_codec_io under_sudo no_faults empty_fs fake_default ?xs
    = (None, ready_line (sample_daemon config_default) # log, cs, Some d)"
    unfolding daemon_main_def l b by (simp add: s del: serve.simps)
  have "?dp = sample_deps one_server"
    by (simp add: default_state_path_def under_sudo_def sample_deps_def)
  then have "disk_ok ?dp empty_fs" by (simp only: empty_disk_ok)
  from process_keeps_config [OF m sample_codec this] m show ?thesis by (auto simp: sample_deps_def)
qed

subsection \<open>A client's request, over the socket\<close>

text \<open>
  The socket between \<open>proto::request\<close> and the daemon, which has accepted no one else: what the
  client writes is what the daemon reads, and the client reads what the daemon wrote. A client
  does not close its side, so a request without a line feed ends in the daemon's timeout.
\<close>

definition new_connection :: connection where
  "new_connection = \<lparr>cn_input = [], cn_end = Some ''Resource temporarily unavailable (os error 11)'',
     cn_output = [], cn_read_timeout = None, cn_write_timeout = None, cn_timeout_fault = (None, None),
     cn_write_fault = None\<rparr>"

definition socket_ipc ::
  "('k, 'w) deps \<Rightarrow> codec \<Rightarrow> 'k env \<Rightarrow> (connection \<times> 'w daemon) ipc" where
  "socket_ipc dp cd ev =
     \<lparr>ipc_connect = (\<lambda>path (c, d).
        if path = socket_path then (Inr (), new_connection, d)
        else (Inl ''No such file or directory (os error 2)'', c, d)),
      ipc_set_read_timeout = (\<lambda>t. retS ()),
      ipc_set_write_timeout = (\<lambda>t. retS ()),
      ipc_write = (\<lambda>bs (c, d). (Inr (), c\<lparr>cn_input := cn_input c @ bs\<rparr>, d)),
      ipc_read_line = (\<lambda>(c, d).
        case handle_client dp cd ev c d of (r, c', d') \<Rightarrow>
          (let line = first_line (cn_output c')
           in if utf8_valid line then Inr line else Inl ''stream did not contain valid UTF-8'', c', d'))\<rparr>"

text \<open>serde writes one line and reads back what it wrote.\<close>

definition line_codec :: "('a \<Rightarrow> string result) \<Rightarrow> (string \<Rightarrow> 'a result) \<Rightarrow> 'a \<Rightarrow> string \<Rightarrow> bool" where
  "line_codec enc dec x json \<longleftrightarrow> enc x = Inr json \<and> newline \<notin> set json
     \<and> utf8_valid (json @ [newline]) \<and> dec (json @ [newline]) = Inr x"

lemma first_line_line: "newline \<notin> set l \<Longrightarrow> first_line (l @ newline # r) = l @ [newline]"
  by (simp add: first_line_def split_once_append)

lemma read_line_line:
  assumes "newline \<notin> set l" "utf8_valid (l @ [newline])" "length l < n"
    and "cn_input c = l @ [newline]"
  shows "read_line n c = (Inr (l @ [newline]), c)"
  using assms by (simp add: read_line_def Let_def first_line_line)

lemma read_request_line:
  assumes "newline \<notin> set l" "utf8_valid (l @ [newline])" "length l < 65536"
  shows "\<exists>c. read_request (new_connection\<lparr>cn_input := l @ [newline]\<rparr>) = (Inr (l @ [newline]), c)
    \<and> cn_output c = [] \<and> cn_write_fault c = None"
proof -
  have "read_line max_request_bytes c = (Inr (l @ [newline]), c)" if "cn_input c = l @ [newline]" for c
    using assms that by (intro read_line_line) (simp_all add: max_request_bytes_def)
  then show ?thesis
    by (simp add: read_request_def bindS_def set_read_timeout_def set_write_timeout_def new_connection_def)
qed

lemma ipc_over_socket:
  assumes "handle dp ev req d = (Inr resp, d')"
    and "line_codec (cd_enc_request cd) (cd_dec_request cd) req json" and "length json < 65536"
    and "line_codec (cd_enc_response cd) (cd_dec_response cd) resp json'"
  shows "\<exists>c'. ipc_request (socket_ipc dp cd ev) (cd_enc_request cd) (cd_dec_response cd) req (c, d)
    = (Inr resp, c', d')"
proof -
  obtain c1 where r: "read_request (new_connection\<lparr>cn_input := json @ [newline]\<rparr>) = (Inr (json @ [newline]), c1)"
    and o: "cn_output c1 = []" "cn_write_fault c1 = None"
    using read_request_line assms(2,3) unfolding line_codec_def by blast
  have "handle_client dp cd ev (new_connection\<lparr>cn_input := json @ [newline]\<rparr>) d
      = (Inr (), c1\<lparr>cn_output := json' @ [newline]\<rparr>, d')"
    using assms o by (simp add: handle_client_def r dispatch_def line_codec_def write_reply_def
        write_bytes_def bindS_def)
  with assms(2,4) show ?thesis
    by (simp add: ipc_request_def bindS_def socket_ipc_def line_codec_def first_line_line Let_def
        new_connection_def newline_def [symmetric])
qed

text \<open>
  A client that asks the daemon over the socket gets the answer of the daemon's handler, and
  the daemon is the one the handler leaves: the transport adds nothing and loses nothing, for a
  request whose JSON fits into 64 KiB with its line feed, if serde reads back what it wrote.
\<close>

lemma request_over_socket:
  assumes "handle dp ev req d = (Inr resp, d')"
    and "line_codec (cd_enc_request cd) (cd_dec_request cd) req json" and "length json < 65536"
    and "line_codec (cd_enc_response cd) (cd_dec_response cd) resp json'"
  shows "\<exists>c'. ipc_request (socket_ipc dp cd ev) (cd_enc_request cd) (cd_dec_response cd) req (c, d)
    = (Inr resp, c', d')"
  using assms by (rule ipc_over_socket)

lemma request_over_socket_example:
  "\<exists>c' d'. ipc_request (socket_ipc (sample_deps one_server) sample_codec_io sample_env)
     (cd_enc_request sample_codec_io) (cd_dec_response sample_codec_io) ReqStatus (noise, sample_daemon one_server)
    = (Inr RespDisconnected, c', d')"
proof -
  have "\<exists>d'. handle (sample_deps one_server) sample_env ReqStatus (sample_daemon one_server) = (Inr RespDisconnected, d')"
    by (simp add: read_status_def bindS_def on_wg_def sample_deps_def sample_daemon_def fake_wireguard_def
        fake_status_def fake_live_def fake_default_def)
  then obtain d' where h: "handle (sample_deps one_server) sample_env ReqStatus (sample_daemon one_server)
      = (Inr RespDisconnected, d')" by blast
  have q: "line_codec (cd_enc_request sample_codec_io) (cd_dec_request sample_codec_io) ReqStatus ''\"Status\"''"
    by (simp add: line_codec_def sample_codec_io_def newline_def utf8_valid_ascii)
  have p: "line_codec (cd_enc_response sample_codec_io) (cd_dec_response sample_codec_io) RespDisconnected
      ''\"Disconnected\"''"
    by (simp add: line_codec_def sample_codec_io_def newline_def utf8_valid_ascii)
  from request_over_socket [OF h q _ p] show ?thesis by fastforce
qed

end
