(* ===== verification/Timing.thy ===== *)
theory Timing
  imports Server "HOL-Library.Stream"
begin

section \<open>Waiting for clients and for the resolver\<close>

text \<open>
  The two calls that can keep the single-threaded daemon waiting for someone else: reading a
  request (\<open>handle_client\<close> in \<open>server.rs\<close>) and looking up a host name (\<open>resolve_endpoint\<close> in
  \<open>wireguard.rs\<close>). Time is in milliseconds and passes only in these waits. A client is an
  endless stream of what it does and after how long; several bytes at once are bytes with no
  time between them, which a reader cannot tell apart from one larger read.
\<close>

datatype arrival = Byte char | Closed | Broken string

type_synonym client = "(nat \<times> arrival) stream"

definition would_block :: string where
  "would_block = ''Resource temporarily unavailable (os error 11)''"

subsection \<open>Reading a line\<close>

text \<open>
  \<open>BufRead::read_line\<close> on a socket with a read timeout, behind \<open>take\<close> with the limit \<open>n\<close> if there
  is one: a read ends with the next byte or the timeout, the loop with a line feed, the end of
  the stream, the limit, or an error. \<open>None\<close> is a loop that never ends.
\<close>

partial_function (option) read_until ::
  "nat \<Rightarrow> nat option \<Rightarrow> client \<Rightarrow> string \<Rightarrow> nat \<Rightarrow> (string result \<times> nat) option" where
  "read_until timeout n cl acc t =
     (if n = Some 0 then Some (Inr acc, t)
      else if timeout < fst (shd cl) then Some (Inl would_block, t + timeout)
      else (case snd (shd cl) of
              Closed \<Rightarrow> Some (Inr acc, t + fst (shd cl))
            | Broken e \<Rightarrow> Some (Inl e, t + fst (shd cl))
            | Byte b \<Rightarrow>
                if b = newline then Some (Inr (acc @ [b]), t + fst (shd cl))
                else read_until timeout (map_option (\<lambda>k. k - 1) n) (stl cl) (acc @ [b])
                       (t + fst (shd cl))))"

definition timed_read_line :: "nat \<Rightarrow> nat option \<Rightarrow> client \<Rightarrow> (string result \<times> nat) option" where
  "timed_read_line timeout n cl =
     map_option (\<lambda>(r, t). (bindR r (\<lambda>line.
       if utf8_valid line then Inr line else Inl ''stream did not contain valid UTF-8''), t))
       (read_until timeout n cl [] 0)"

text \<open>The part of \<open>handle_client\<close> before the request is dispatched, once the timeouts are set.\<close>

definition timed_request :: "client \<Rightarrow> (string result \<times> nat) option" where
  "timed_request cl = timed_read_line (1000 * io_timeout) (Some max_request_bytes) cl"

subsection \<open>Looking up an endpoint\<close>

text \<open>
  The lookup runs in a thread of its own that answers after some time or never;
  \<open>recv_timeout\<close> waits for the answer no longer than it is told. The first of the addresses
  found is the answer.
\<close>

type_synonym name_service = "string \<Rightarrow> (nat \<times> (string + socket_addr list)) option"

definition resolve_timeout :: nat where
  "resolve_timeout = 5000"

definition recv_timeout :: "nat \<Rightarrow> (nat \<times> 'a) option \<Rightarrow> 'a option \<times> nat" where
  "recv_timeout timeout answer =
     (case answer of
        None \<Rightarrow> (None, timeout)
      | Some (t, x) \<Rightarrow> if t \<le> timeout then (Some x, t) else (None, timeout))"

definition first_address :: "string + socket_addr list \<Rightarrow> string + socket_addr option" where
  "first_address r = (case r of Inl e \<Rightarrow> Inl e | Inr as \<Rightarrow> Inr (case as of [] \<Rightarrow> None | a # _ \<Rightarrow> Some a))"

definition timed_resolve_endpoint :: "name_service \<Rightarrow> server_config \<Rightarrow> socket_addr result \<times> nat" where
  "timed_resolve_endpoint ns server =
     (let endpoint = trim (sc_endpoint server)
      in case parse_sock endpoint of
           Some addr \<Rightarrow> (Inr addr, 0)
         | None \<Rightarrow>
             (case recv_timeout resolve_timeout (map_option (map_prod id first_address) (ns endpoint)) of
                (Some (Inr (Some addr)), t) \<Rightarrow> (Inr addr, t)
              | (Some (Inr None), t) \<Rightarrow> (Inl (about_server server @ ''endpoint resolved to no addresses''), t)
              | (Some (Inl e), t) \<Rightarrow> (Inl (about_server server @ ''cannot resolve endpoint: '' @ e), t)
              | (None, t) \<Rightarrow> (Inl (about_server server @ ''endpoint resolution timed out''), t)))"

subsection \<open>The reading loop ends\<close>

text \<open>
  With a limit the loop is over after as many bytes, and each of them takes at most the timeout.
\<close>

lemma read_until_ends:
  "\<exists>r t'. read_until timeout (Some n) cl acc t = Some (r, t') \<and> t' \<le> t + n * timeout"
proof (induction n arbitrary: cl acc t)
  case 0
  show ?case by (subst read_until.simps) simp
next
  case (Suc n)
  obtain dt a s where cl: "cl = (dt, a) ## s" by (metis prod.exhaust stream.exhaust)
  show ?case
  proof (cases "dt \<le> timeout \<and> (\<exists>b. a = Byte b \<and> b \<noteq> newline)")
    case True
    then obtain b where b: "a = Byte b" "b \<noteq> newline" "dt \<le> timeout" by blast
    from Suc [of s "acc @ [b]" "t + dt"] obtain r t' where
      "read_until timeout (Some n) s (acc @ [b]) (t + dt) = Some (r, t')" "t' \<le> t + dt + n * timeout" by blast
    with b cl show ?thesis by (subst read_until.simps) simp
  next
    case False
    with cl show ?thesis by (subst read_until.simps) (cases a; auto)
  qed
qed

text \<open>Without one, a client that never sends a line feed keeps the daemon for ever.\<close>

lemma read_until_unlimited:
  assumes "\<forall>x \<in> sset cl. \<exists>b. snd x = Byte b \<and> b \<noteq> newline" "\<forall>x \<in> sset cl. fst x \<le> timeout"
  shows "read_until timeout None cl acc t = None"
proof (rule ccontr)
  assume "read_until timeout None cl acc t \<noteq> None"
  then obtain r where ret: "read_until timeout None cl acc t = Some r" by auto
  have "n = None \<longrightarrow> \<not> (\<forall>x \<in> sset cl. (\<exists>b. snd x = Byte b \<and> b \<noteq> newline) \<and> fst x \<le> timeout)"
    if "read_until timeout n cl acc t = Some r" for n timeout cl acc t r
  proof (rule read_until.raw_induct [where P = "\<lambda>timeout n cl acc t r. n = None
      \<longrightarrow> \<not> (\<forall>x \<in> sset cl. (\<exists>b. snd x = Byte b \<and> b \<noteq> newline) \<and> fst x \<le> timeout)", OF _ that], intro impI notI)
    fix f and timeout :: nat and n and cl :: client and acc t r
    assume IH: "\<And>timeout n cl acc t r. f timeout n cl acc t = Some r \<Longrightarrow> n = None
        \<longrightarrow> \<not> (\<forall>x \<in> sset cl. (\<exists>b. snd x = Byte b \<and> b \<noteq> newline) \<and> fst x \<le> timeout)"
      and eq: "(if n = Some 0 then Some (Inr acc, t)
        else if timeout < fst (shd cl) then Some (Inl would_block, t + timeout)
        else (case snd (shd cl) of
              Closed \<Rightarrow> Some (Inr acc, t + fst (shd cl))
            | Broken e \<Rightarrow> Some (Inl e, t + fst (shd cl))
            | Byte b \<Rightarrow>
                if b = newline then Some (Inr (acc @ [b]), t + fst (shd cl))
                else f timeout (map_option (\<lambda>k. k - 1) n) (stl cl) (acc @ [b])
                       (t + fst (shd cl)))) = Some r"
      and n: "n = None" and all: "\<forall>x \<in> sset cl. (\<exists>b. snd x = Byte b \<and> b \<noteq> newline) \<and> fst x \<le> timeout"
    have "shd cl \<in> sset cl" "sset (stl cl) \<subseteq> sset cl" by (cases cl; auto)+
    with all obtain b where "snd (shd cl) = Byte b" "b \<noteq> newline" "fst (shd cl) \<le> timeout"
      and "\<forall>x \<in> sset (stl cl). (\<exists>b. snd x = Byte b \<and> b \<noteq> newline) \<and> fst x \<le> timeout" by blast
    then have "f timeout None (stl cl) (acc @ [b]) (t + fst (shd cl)) = Some r"
      using eq n by (auto split: if_splits)
    from IH [OF this] \<open>\<forall>x \<in> sset (stl cl). _ x\<close> show False by blast
  qed
  with ret assms show False by blast
qed

text \<open>
  The connection of the server's model that a client amounts to: the bytes that come in time,
  as far as they matter, and how they end.
\<close>

fun heard :: "nat \<Rightarrow> nat \<Rightarrow> client \<Rightarrow> string \<times> string option" where
  "heard timeout 0 cl = ([], None)"
| "heard timeout (Suc n) cl =
     (if timeout < fst (shd cl) then ([], Some would_block)
      else (case snd (shd cl) of
              Closed \<Rightarrow> ([], None)
            | Broken e \<Rightarrow> ([], Some e)
            | Byte b \<Rightarrow> (case heard timeout n (stl cl) of (s, e) \<Rightarrow> (b # s, e))))"

definition connection_of :: "client \<Rightarrow> connection" where
  "connection_of cl =
     (case heard (1000 * io_timeout) max_request_bytes cl of
        (s, e) \<Rightarrow> new_connection\<lparr>cn_input := s, cn_end := e\<rparr>)"

lemma length_heard: "length (fst (heard timeout n cl)) \<le> n"
  by (induction timeout n cl rule: heard.induct) (auto split: arrival.split prod.split)

lemma heard_line:
  "map_option fst (read_until timeout (Some n) cl acc t) =
   (case heard timeout n cl of (s, e) \<Rightarrow>
      Some (case (if newline \<in> set s \<or> n \<le> length s then None else e) of
              Some e \<Rightarrow> Inl e | None \<Rightarrow> Inr (acc @ first_line s)))"
proof (induction timeout n cl arbitrary: acc t rule: heard.induct)
  case (1 timeout cl)
  show ?case by (subst read_until.simps) (simp add: first_line_def)
next
  case (2 timeout n cl)
  obtain s e where h: "heard timeout n (stl cl) = (s, e)" by fastforce
  have f: "first_line (b # s) = (if b = newline then [b] else b # first_line s)" for b
    by (simp add: first_line_def split: option.split)
  show ?case
  proof (cases "timeout < fst (shd cl) \<or> (\<forall>b. snd (shd cl) \<noteq> Byte b)")
    case True
    then show ?thesis
      by (subst read_until.simps) (auto simp: first_line_def split: arrival.split)
  next
    case False
    then obtain b where b: "snd (shd cl) = Byte b" "\<not> timeout < fst (shd cl)" by blast
    with 2 [OF b(2) b(1), of "acc @ [b]" "t + fst (shd cl)"] h show ?thesis
      by (subst read_until.simps) (auto simp: f split: option.split)
  qed
qed

lemma timed_request_fst: "map_option fst (timed_request cl) = Some (fst (read_request (connection_of cl)))"
proof -
  obtain s e where h: "heard (1000 * io_timeout) max_request_bytes cl = (s, e)" by fastforce
  have l: "length s \<le> max_request_bytes" using length_heard [of "1000 * io_timeout" max_request_bytes cl] h by simp
  obtain r t where r: "read_until (1000 * io_timeout) (Some max_request_bytes) cl [] 0 = Some (r, t)"
    using read_until_ends by blast
  have "r = (case (if newline \<in> set s \<or> max_request_bytes \<le> length s then None else e) of
              Some e \<Rightarrow> Inl e | None \<Rightarrow> Inr (first_line s))"
    using heard_line [of "1000 * io_timeout" max_request_bytes cl "[]" 0] r h by (cases e) simp_all
  with r l show ?thesis
    by (cases e; auto simp: timed_request_def timed_read_line_def connection_of_def h read_request_fst new_connection_def
        read_line_def Let_def)
qed

text \<open>A client that sends one byte whenever the timeout is about to end.\<close>

definition drip :: client where
  "drip = sconst (10000, Byte CHR ''x'')"

lemma read_until_drip: "read_until 10000 (Some n) drip acc t = Some (Inr (acc @ replicate n CHR ''x''), t + n * 10000)"
proof (induction n arbitrary: acc t)
  case 0
  show ?case by (subst read_until.simps) simp
next
  case (Suc n)
  have "shd drip = (10000, Byte CHR ''x'')" "stl drip = drip" by (simp_all add: drip_def)
  then show ?case
    by (subst read_until.simps) (simp add: Suc newline_def)
qed

lemma timed_request_drip: "timed_request drip = Some (Inr (replicate 65536 CHR ''x''), 655360000)"
proof -
  have "list_all (\<lambda>c. (of_char c :: nat) < 128) (replicate n CHR ''x'')" for n
    by (simp add: list_all_iff)
  then have "utf8_valid (replicate n CHR ''x'')" for n by (rule utf8_valid_ascii)
  then show ?thesis
    using read_until_drip [of 65536 "[]" 0]
    by (simp add: timed_request_def timed_read_line_def io_timeout_def max_request_bytes_def del: replicate.simps)
qed

subsection \<open>The wait for an answer\<close>

definition resolver_of :: "name_service \<Rightarrow> resolver" where
  "resolver_of ns endpoint =
     (case ns endpoint of
        None \<Rightarrow> Timed_Out
      | Some (t, r) \<Rightarrow>
          if resolve_timeout < t then Timed_Out
          else (case first_address r of Inl e \<Rightarrow> Lookup_Failed e | Inr a \<Rightarrow> Found a))"

lemma timed_resolve_endpoint_result:
  "fst (timed_resolve_endpoint ns server) = resolve_endpoint (resolver_of ns) server"
  by (auto simp: timed_resolve_endpoint_def resolve_endpoint_def resolver_of_def recv_timeout_def Let_def
      split: option.split prod.split sum.split)

lemma timed_resolve_endpoint_time: "snd (timed_resolve_endpoint ns server) \<le> resolve_timeout"
  by (auto simp: timed_resolve_endpoint_def recv_timeout_def Let_def
      split: option.split prod.split sum.split)

section \<open>Properties of the waits\<close>

text \<open>
  C34: reading a request always ends. Whatever a client does and however slowly, the loop returns,
  after at most 65536 waits of ten seconds, with what the server's model reads from the
  connection that client amounts to; it is the limit that ends it, for without one a client that
  drips bytes would keep the daemon for ever. The bound is met: a byte just before each timeout
  holds the daemon, which serves no one else meanwhile, for more than seven days.
\<close>

theorem request_reading_ends:
  "(\<exists>r t. timed_request cl = Some (r, t) \<and> t \<le> 65536 * 10000 \<and> r = fst (read_request (connection_of cl)))
   \<and> timed_request drip = Some (Inr (replicate 65536 CHR ''x''), 65536 * 10000)
   \<and> timed_read_line (1000 * io_timeout) None drip = None"
proof (intro conjI)
  obtain r t where r: "read_until (1000 * io_timeout) (Some max_request_bytes) cl [] 0 = Some (r, t)"
    and t: "t \<le> max_request_bytes * (1000 * io_timeout)"
    using read_until_ends [of "1000 * io_timeout" max_request_bytes cl "[]" 0] by auto
  then obtain r' where "timed_request cl = Some (r', t)"
    by (simp add: timed_request_def timed_read_line_def)
  with t timed_request_fst [of cl]
  show "\<exists>r t. timed_request cl = Some (r, t) \<and> t \<le> 65536 * 10000 \<and> r = fst (read_request (connection_of cl))"
    by (simp add: max_request_bytes_def io_timeout_def)
  show "timed_request drip = Some (Inr (replicate 65536 CHR ''x''), 65536 * 10000)"
    using timed_request_drip by (simp del: replicate.simps)
  have "read_until 10000 None drip [] 0 = None"
    by (rule read_until_unlimited) (simp_all add: drip_def newline_def)
  then show "timed_read_line (1000 * io_timeout) None drip = None"
    by (simp add: timed_read_line_def io_timeout_def)
qed

text \<open>
  C35: no resolver keeps the daemon longer than five seconds: an endpoint is resolved within that
  time whatever the name service does, with the outcome the model of validation has for it. And
  with one that never answers, an address is an address, and a name is the cached address, if
  there is a usable one, or else the error of the timeout.
\<close>

theorem lookup_waits_bounded:
  "snd (timed_resolve_endpoint ns server) \<le> 5000
   \<and> fst (timed_resolve_endpoint ns server) = resolve_endpoint (resolver_of ns) server
   \<and> endpoint_addr (resolver_of (\<lambda>name. None)) server =
      (case parse_sock (trim (sc_endpoint server)) of
         Some a \<Rightarrow> Inr a
       | None \<Rightarrow> ok_or (Option.bind (sc_resolved_endpoint server) parse_sock)
           (about_server server @ ''endpoint resolution timed out''))"
  using timed_resolve_endpoint_result [of ns server] timed_resolve_endpoint_time [of ns server]
  by (auto simp: resolve_timeout_def endpoint_addr_def or_cached_def resolve_endpoint_def resolver_of_def Let_def
      split: option.split)

end
