(* ===== verification/Process.thy ===== *)
theory Process
  imports Server Kernel_Contract
begin

section \<open>The lives of the daemon process (\<open>daemon/src/main.rs\<close>)\<close>

text \<open>
  The daemon is started, serves clients and is stopped, again and again: by a signal between two
  requests or in the middle of one, by an upgrade that restarts it, by a crash of the machine.
  What lasts is the machine: its disk, the tunnel in the kernel, and the socket's path.
  The tunnel is \<open>KernelWireguard\<close> over any kernel operations.
\<close>

subsection \<open>Stopping in the middle of a request\<close>

text \<open>
  A backend that is cut off after some number of operations: from then on nothing happens any
  more, which is what the kernel sees of a process that has exited. \<open>None\<close> is no limit.
  For the state file the failing operation of \<open>faults\<close> plays this part.
\<close>

definition mortal_op :: "('w, 'a) action \<Rightarrow> ('w \<times> nat option, 'a) action" where
  "mortal_op m = (\<lambda>(w, n).
     case n of
       Some 0 \<Rightarrow> (Inl ''exited'', w, n)
     | _ \<Rightarrow> (case m w of (r, w') \<Rightarrow> (r, w', map_option (\<lambda>k. k - 1) n)))"

definition mortal :: "('k, 'w) wg_ops \<Rightarrow> ('k, 'w \<times> nat option) wg_ops" where
  "mortal ops =
     \<lparr>op_create_interface = mortal_op (op_create_interface ops),
      op_remove_interface = mortal_op (op_remove_interface ops),
      op_configure_interface = (\<lambda>cfg. mortal_op (op_configure_interface ops cfg)),
      op_configure_peer_routing = (\<lambda>peers. mortal_op (op_configure_peer_routing ops peers)),
      op_sync_split_routes = (\<lambda>ps. mortal_op (op_sync_split_routes ops ps)),
      op_apply_firewall = (\<lambda>as m. mortal_op (op_apply_firewall ops as m)),
      op_clear_firewall = mortal_op (op_clear_firewall ops),
      op_configure_dns = (\<lambda>ds search. mortal_op (op_configure_dns ops ds search)),
      op_reset_dns = mortal_op (op_reset_dns ops),
      op_read_interface_data = mortal_op (op_read_interface_data ops)\<rparr>"

lemma keeps_mortal_op: "keeps P m \<Longrightarrow> keeps (\<lambda>(w, n). P w) (mortal_op m)"
  by (auto simp: keeps_def mortal_op_def split_beta split: option.split nat.split)

text \<open>What every switch on a backend keeps, one that is cut off keeps.\<close>

lemma mortal_tunnel_ops:
  assumes "tunnel_ops ops P"
  shows "tunnel_ops (mortal ops) (\<lambda>(w, n). P w)"
  using assms unfolding tunnel_ops_def mortal_def by (simp add: keeps_mortal_op)

subsection \<open>The signal handler\<close>

text \<open>
  The handler prints a line, removes the socket, whatever comes of it, and exits with 0.
\<close>

definition signal_line :: string where
  "signal_line = newline # ''wirefinderd: signal received, exiting (tunnel left as-is)''"

definition on_signal :: "host_env \<Rightarrow> (sock_call list, string \<times> nat) action" where
  "on_signal h = bindS (ignoreS (syscall h (RemoveFile socket_path))) (\<lambda>_. retS (signal_line, 0))"

subsection \<open>One life after the other\<close>

record 'w machine =
  m_disk :: file_system
  m_wg :: 'w
  m_modes :: "string \<Rightarrow> nat option"

definition after_calls :: "sock_call list \<Rightarrow> 'w machine \<Rightarrow> 'w machine" where
  "after_calls log m = m\<lparr>m_modes := fold call_effect log (m_modes m)\<rparr>"

text \<open>The machine as a daemon leaves it.\<close>

definition left_by :: "host_env \<Rightarrow> ('w \<times> nat option) daemon \<Rightarrow> 'w machine \<Rightarrow> 'w machine" where
  "left_by h d m =
     after_calls (snd (bind_socket h [])) (m\<lparr>m_disk := d_disk d, m_wg := fst (d_wg d)\<rparr>)"

text \<open>
  \<open>life dp cd boot m reqs m'\<close>: one life of the process, in which it handled the requests \<open>reqs\<close>,
  takes the machine from \<open>m\<close> to \<open>m'\<close>. The last request is perhaps not handled to its end.
  \<open>boot\<close> is what a restart of the machine makes of the kernel's state.
\<close>

inductive life ::
  "('k, 'w \<times> nat option) deps \<Rightarrow> codec \<Rightarrow> ('w \<Rightarrow> 'w) \<Rightarrow> 'w machine \<Rightarrow> request list \<Rightarrow> 'w machine \<Rightarrow> bool"
  for dp cd boot where
  no_start: "default_state_path h = dep_store dp
     \<Longrightarrow> daemon_main dp cd h f (m_disk m) (m_wg m, None) xs = (Some c, log, cs, None)
     \<Longrightarrow> life dp cd boot m [] m"
| ended: "default_state_path h = dep_store dp
     \<Longrightarrow> daemon_main dp cd h f (m_disk m) (m_wg m, None) xs = (Some c, log, cs, Some d)
     \<Longrightarrow> life dp cd boot m (map snd (requests cd xs)) (left_by h d m)"
| signalled: "default_state_path h = dep_store dp
     \<Longrightarrow> daemon_main dp cd h f (m_disk m) (m_wg m, None) xs = (None, log, cs, Some d)
     \<Longrightarrow> on_signal h [] = (r, calls)
     \<Longrightarrow> life dp cd boot m (map snd (requests cd xs)) (after_calls calls (left_by h d m))"
| killed_during: "default_state_path h = dep_store dp
     \<Longrightarrow> daemon_main dp cd h f (m_disk m) (m_wg m, None) xs = (None, log, cs, Some d)
     \<Longrightarrow> handle dp ev req (d\<lparr>d_wg := (fst (d_wg d), Some n)\<rparr>) = (x, d')
     \<Longrightarrow> calls = [] \<or> on_signal h [] = (r, calls)
     \<Longrightarrow> life dp cd boot m (map snd (requests cd xs) @ [req]) (after_calls calls (left_by h d' m))"
| power_lost: "default_state_path h = dep_store dp
     \<Longrightarrow> daemon_main dp cd h f (m_disk m) (m_wg m, None) xs = (None, log, cs, Some d)
     \<Longrightarrow> handle dp ev req (d\<lparr>d_wg := (fst (d_wg d), n)\<rparr>) = (x, d')
     \<Longrightarrow> crash (d_disk d') disk
     \<Longrightarrow> life dp cd boot m (map snd (requests cd xs) @ [req])
          \<lparr>m_disk = disk, m_wg = boot (fst (d_wg d')), m_modes = (\<lambda>p. None)\<rparr>"

inductive lives ::
  "('k, 'w \<times> nat option) deps \<Rightarrow> codec \<Rightarrow> ('w \<Rightarrow> 'w) \<Rightarrow> 'w machine \<Rightarrow> request list \<Rightarrow> 'w machine \<Rightarrow> bool"
  for dp cd boot where
  none_yet: "lives dp cd boot m [] m"
| one_more: "lives dp cd boot m reqs m' \<Longrightarrow> life dp cd boot m' reqs' m''
     \<Longrightarrow> lives dp cd boot m (reqs @ reqs') m''"

subsection \<open>What a request keeps of the tunnel\<close>

text \<open>
  A handler reaches the kernel through the three methods of the backend; what status and switch
  keep, every request but a disconnect keeps.
\<close>

lemma keeps_on_wg: "keeps P m \<Longrightarrow> keeps (\<lambda>d. P (d_wg d)) (on_wg m)"
  by (simp add: keeps_def on_wg_def split_beta)

lemma list_servers_wg:
  assumes "keeps P (wg_status (dep_wg dp))" "P (d_wg d)"
  shows "P (d_wg (snd (list_servers dp ev d)))"
  using keepsD [OF keeps_on_wg [OF assms(1)], of d] assms(2) by (simp add: list_servers_def split_beta)

lemma reply_servers_wg:
  assumes "keeps P (wg_status (dep_wg dp))" "P (d_wg (snd x))"
  shows "P (d_wg (snd (reply_servers dp ev x)))"
  using list_servers_wg [OF assms(1)] assms(2)
  by (cases x; cases "fst x") (auto simp: reply_servers_def split_beta)

lemma store_server_wg: "keeps (\<lambda>d. P (d_wg d)) (store_server dp ev s)"
  unfolding store_server_def
  by (intro keeps_bindS keeps_liftR) (simp_all add: keeps_def upsert_into_def)

lemma edit_server_wg:
  fixes P :: "'w \<Rightarrow> bool"
  assumes "keeps P (wg_status (dep_wg dp))"
  shows "keeps (\<lambda>d. P (d_wg d)) (edit_server dp ev spec)"
proof
  fix d :: "'w daemon" assume p: "P (d_wg d)"
  have a: "P (d_wg (snd (active_public_key dp d)))"
    using keepsD [OF keeps_on_wg [OF assms], of d] p by (simp add: active_public_key_def split_beta)
  show "P (d_wg (snd (edit_server dp ev spec d)))"
    using p a keepsD [OF store_server_wg [of P dp ev]]
    by (auto simp: edit_server_def bindS_def Let_def liftR_def split: prod.split sum.split)
qed

lemma handle_keeps_wg:
  assumes st: "keeps P (wg_status (dep_wg dp))" and sw: "\<And>r s. keeps P (wg_switch (dep_wg dp) r s)"
    and req: "req \<noteq> ReqDisconnect" and p: "P (d_wg d)"
  shows "P (d_wg (snd (handle dp ev req d)))"
proof -
  have add: "P (d_wg (snd (add_server dp ev spec d)))" for spec
    using p keepsD [OF store_server_wg [of P dp ev]] by (simp add: add_server_def Let_def)
  show ?thesis
  proof (cases req)
    case ReqStatus
    have "keeps (\<lambda>d. P (d_wg d)) (read_status dp ev)"
      unfolding read_status_def by (intro keeps_bindS keeps_on_wg st) (simp add: keeps_def)
    with p ReqStatus show ?thesis by (auto simp: split_beta dest: keepsD split: sum.split)
  next
    case (ReqListServers q)
    with list_servers_wg [OF st p] show ?thesis by (simp add: split_beta)
  next
    case (ReqGetServer name)
    with p show ?thesis by (simp split: sum.split)
  next
    case (ReqAddServer spec)
    with reply_servers_wg [OF st add] show ?thesis by (simp add: split_beta)
  next
    case (ReqEditServer spec)
    with reply_servers_wg [OF st keepsD [OF edit_server_wg [OF st] p]] show ?thesis by (simp add: split_beta)
  next
    case (ReqImportServer name conf)
    have "P (d_wg (snd (import_server dp ev name conf d)))"
      using p add by (simp add: import_server_def split_beta split: sum.split)
    with list_servers_wg [OF st, of "snd (import_server dp ev name conf d)" ev] ReqImportServer
    show ?thesis by (auto simp: split_beta split: sum.split fail.split)
  next
    case (ReqRemoveServer name)
    have "P (d_wg (snd (remove_from dp ev name d)))"
      using p by (auto simp: remove_from_def split_beta Let_def)
    with reply_servers_wg [OF st] ReqRemoveServer show ?thesis by (simp add: split_beta)
  next
    case (ReqSwitchServer name)
    have "P (d_wg (snd (on_wg (wg_switch (dep_wg dp) r s) d)))" for r s
      using keepsD [OF keeps_on_wg [OF sw]] p by simp
    moreover have "d_wg (switched dp ev name a d1) = d_wg d1" for a d1
      by (auto simp: switched_def Let_def mark_connecting_def split: option.split)
    ultimately show ?thesis
      using p ReqSwitchServer by (auto simp: switch_server_def split_beta split: option.split sum.split)
  next
    case ReqDisconnect
    with req show ?thesis by simp
  qed
qed

lemma handles_keep_wg:
  assumes "keeps P (wg_status (dep_wg dp))" "\<And>r s. keeps P (wg_switch (dep_wg dp) r s)"
    and "ReqDisconnect \<notin> snd ` set rs" "P (d_wg d)"
  shows "P (d_wg (fold (\<lambda>(ev, req) d. snd (handle dp ev req d)) rs d))"
  using assms(3,4)
proof (induction rs arbitrary: d)
  case (Cons r rs)
  obtain ev req where r: "r = (ev, req)" by (cases r)
  with Cons.prems have "P (d_wg (snd (handle dp ev req d)))" using handle_keeps_wg [OF assms(1,2)] by fastforce
  with Cons r show ?case by simp
qed simp

text \<open>The daemon at the end of a \<open>main\<close> that started one.\<close>

lemma daemon_main_daemon:
  assumes "daemon_main dp cd h f disk w xs = (code, log, cs, Some d)" "default_state_path h = dep_store dp"
  obtains d0 rs where "daemon_load dp f disk w = Inr d0" "set rs \<subseteq> set (requests cd xs)"
    "d = fold (\<lambda>(ev, req) d. snd (handle dp ev req d)) rs d0"
proof -
  have dp: "dp\<lparr>dep_store := default_state_path h\<rparr> = dp" using assms(2) by simp
  from assms(1) obtain d0 where l: "daemon_load dp f disk w = Inr d0"
    unfolding daemon_main_def dp by (auto split: sum.splits)
  obtain log' cs' where s: "serve dp cd xs d0
      = (log', cs', None, fold (\<lambda>(ev, req) d. snd (handle dp ev req d)) (requests cd xs) d0)"
    using serve_daemon [of dp cd xs d0] by (metis prod.collapse)
  obtain b calls where b: "bind_socket h [] = (b, calls)" by fastforce
  have "d = fold (\<lambda>(ev, req) d. snd (handle dp ev req d)) [] d0
      \<or> d = fold (\<lambda>(ev, req) d. snd (handle dp ev req d)) (requests cd xs) d0"
    using assms(1) s by (cases b) (auto simp: daemon_main_def dp l b)
  then show thesis
    using that [of d0 "[]", OF l] that [of d0 "requests cd xs", OF l] by auto
qed

lemma daemon_load_wg: "daemon_load dp f disk w = Inr d \<Longrightarrow> d_wg d = w"
  by (auto simp: daemon_load_def)

text \<open>What a life without a disconnect keeps of the kernel's state.\<close>

lemma life_keeps_wg:
  assumes "life dp cd boot m reqs m'" "ReqDisconnect \<notin> set reqs"
    and st: "keeps (\<lambda>(w, n). P w) (wg_status (dep_wg dp))"
    and sw: "\<And>r s. keeps (\<lambda>(w, n). P w) (wg_switch (dep_wg dp) r s)"
    and boot: "\<And>w. P w \<Longrightarrow> P (boot w)" and "P (m_wg m)"
  shows "P (m_wg m')"
proof -
  have main: "P (fst (d_wg d))"
    if "daemon_main dp cd h f (m_disk m) (m_wg m, None) xs = (c, log, cs, Some d)"
      "default_state_path h = dep_store dp" "ReqDisconnect \<notin> set (map snd (requests cd xs))" for h f xs c log cs d
    using that(1,2)
  proof (rule daemon_main_daemon)
    fix d0 rs
    assume l: "daemon_load dp f (m_disk m) (m_wg m, None) = Inr d0" and rs: "set rs \<subseteq> set (requests cd xs)"
      and d: "d = fold (\<lambda>(ev, req) d. snd (handle dp ev req d)) rs d0"
    have "ReqDisconnect \<notin> snd ` set rs" using that(3) rs by auto
    moreover have "(\<lambda>(w, n). P w) (d_wg d0)" using daemon_load_wg [OF l] assms(6) by simp
    ultimately have "(\<lambda>(w, n). P w) (d_wg d)" unfolding d by (rule handles_keep_wg [OF st sw])
    then show ?thesis by (simp add: split_beta)
  qed
  have hd: "P (fst (d_wg d'))" if "handle dp ev req (d\<lparr>d_wg := (fst (d_wg d), n)\<rparr>) = (x, d')"
    "req \<noteq> ReqDisconnect" "P (fst (d_wg d))" for ev req d n x d'
  proof -
    have "(\<lambda>(w, n). P w) (d_wg (snd (handle dp ev req (d\<lparr>d_wg := (fst (d_wg d), n)\<rparr>))))"
      using that(3) by (intro handle_keeps_wg [OF st sw that(2)]) simp
    with that(1) show ?thesis by (simp add: split_beta)
  qed
  from assms(1,2) show ?thesis
  proof cases
    case no_start
    with assms(6) show ?thesis by simp
  next
    case (ended h f xs c log cs d)
    with main [OF ended(4,3)] assms(2) show ?thesis by (simp add: left_by_def after_calls_def)
  next
    case (signalled h f xs log cs d r calls)
    with main [OF signalled(4,3)] assms(2) show ?thesis by (simp add: left_by_def after_calls_def)
  next
    case (killed_during h f xs log cs d ev req n x d' calls r)
    with main [OF killed_during(4,3)] hd [OF killed_during(5)] assms(2)
    have "P (fst (d_wg d'))" by auto
    with killed_during show ?thesis by (simp add: left_by_def after_calls_def)
  next
    case (power_lost h f xs log cs d ev req n x d' disk)
    with main [OF power_lost(4,3)] hd [OF power_lost(5)] assms(2) have "P (fst (d_wg d'))" by auto
    with power_lost boot show ?thesis by simp
  qed
qed

subsection \<open>What every life keeps of the state file\<close>

text \<open>
  The next start finds a file it can load, or none: every text a crash can leave there is valid
  UTF-8 and decodes to a well-formed configuration.
\<close>

definition disk_loads :: "('k, 'w) deps \<Rightarrow> file_system \<Rightarrow> bool" where
  "disk_loads dp disk \<longleftrightarrow> disk_ok dp disk \<and> (\<forall>t. Some t \<in> possible disk (dep_store dp) \<longrightarrow> utf8_valid t)"

lemma handle_disk_loads:
  assumes codec: "codec_ok (dep_enc dp) (dep_dec dp)"
    and "config_ok (dep_dg dp) (d_cfg d)" "disk_loads dp (d_disk d)"
  shows "config_ok (dep_dg dp) (d_cfg (snd (handle dp ev req d)))
    \<and> disk_loads dp (d_disk (snd (handle dp ev req d)))"
proof -
  have "daemon_step dp d (snd (handle dp ev req d))" by (rule daemon_step.request [OF surjective_pairing])
  from step_ok [OF codec this assms(2)] assms(3)
  have "config_ok (dep_dg dp) (d_cfg (snd (handle dp ev req d)))
      \<and> disk_ok dp (d_disk (snd (handle dp ev req d)))" by (simp add: disk_loads_def)
  moreover have "utf8_valid t" if "Some t \<in> possible (d_disk (snd (handle dp ev req d))) (dep_store dp)" for t
    using that conjunct2 [OF handle_disk [of dp d ev req]] assms(3) codec
    unfolding disk_loads_def disk_ok_def codec_ok_def by fastforce
  ultimately show ?thesis by (simp add: disk_loads_def)
qed

lemma handles_disk_loads:
  assumes codec: "codec_ok (dep_enc dp) (dep_dec dp)"
    and "config_ok (dep_dg dp) (d_cfg d)" "disk_loads dp (d_disk d)"
  shows "config_ok (dep_dg dp) (d_cfg (fold (\<lambda>(ev, req) d. snd (handle dp ev req d)) rs d))
    \<and> disk_loads dp (d_disk (fold (\<lambda>(ev, req) d. snd (handle dp ev req d)) rs d))"
  using assms(2,3)
proof (induction rs arbitrary: d)
  case (Cons r rs)
  obtain ev req where r: "r = (ev, req)" by (cases r)
  with Cons handle_disk_loads [OF codec] show ?case by simp
qed simp

lemma crash_disk_loads: "disk_loads dp disk \<Longrightarrow> crash disk disk' \<Longrightarrow> disk_loads dp disk'"
  using possible_crash [of disk disk'] disk_ok_crash unfolding disk_loads_def by (metis singletonD)

lemma loads_loads:
  assumes "disk_loads dp disk"
  shows "\<exists>d. daemon_load dp no_faults disk w = Inr d \<and> config_ok (dep_dg dp) (d_cfg d)"
proof -
  have p: "file_text disk (dep_store dp) \<in> possible disk (dep_store dp)" by (rule possible_live)
  show ?thesis
  proof (cases "file_text disk (dep_store dp)")
    case None
    then show ?thesis
      by (simp add: daemon_load_def load_def read_to_string_def no_faults_def config_ok_default)
  next
    case (Some t)
    with p assms obtain c where "dep_dec dp t = Inr c" "config_ok (dep_dg dp) c" "utf8_valid t"
      unfolding disk_loads_def disk_ok_def by fastforce
    with Some show ?thesis by (simp add: daemon_load_def load_def read_to_string_def no_faults_def)
  qed
qed

lemma life_keeps_disk:
  assumes "life dp cd boot m reqs m'" and codec: "codec_ok (dep_enc dp) (dep_dec dp)"
    and "disk_loads dp (m_disk m)"
  shows "disk_loads dp (m_disk m')"
proof -
  have main: "config_ok (dep_dg dp) (d_cfg d) \<and> disk_loads dp (d_disk d)"
    if "daemon_main dp cd h f (m_disk m) (m_wg m, None) xs = (c, log, cs, Some d)"
      "default_state_path h = dep_store dp" for h f xs c log cs d
    using that
  proof (rule daemon_main_daemon)
    fix d0 rs
    assume l: "daemon_load dp f (m_disk m) (m_wg m, None) = Inr d0"
      and d: "d = fold (\<lambda>(ev, req) d. snd (handle dp ev req d)) rs d0"
    from l have disk: "d_disk d0 = m_disk m" by (auto simp: daemon_load_def)
    from loaded_ok [OF l] assms(3) have "config_ok (dep_dg dp) (d_cfg d0)" by (simp add: disk_loads_def)
    with handles_disk_loads [OF codec] assms(3) show ?thesis unfolding d disk [symmetric] by blast
  qed
  have hd: "disk_loads dp (d_disk d')"
    if "handle dp ev req (d\<lparr>d_wg := v\<rparr>) = (x, d')" "config_ok (dep_dg dp) (d_cfg d)" "disk_loads dp (d_disk d)"
    for ev req v x d d'
    using handle_disk_loads [OF codec, of "d\<lparr>d_wg := v\<rparr>" ev req] that by simp
  from assms(1) show ?thesis
  proof cases
    case no_start
    with assms(3) show ?thesis by simp
  next
    case (ended h f xs c log cs d)
    with main [OF ended(4,3)] show ?thesis by (simp add: left_by_def after_calls_def)
  next
    case (signalled h f xs log cs d r calls)
    with main [OF signalled(4,3)] show ?thesis by (simp add: left_by_def after_calls_def)
  next
    case (killed_during h f xs log cs d ev req n x d' calls r)
    with main [OF killed_during(4,3)] hd [OF killed_during(5)]
    show ?thesis by (simp add: left_by_def after_calls_def)
  next
    case (power_lost h f xs log cs d ev req n x d' disk)
    with main [OF power_lost(4,3)] hd [OF power_lost(5)] crash_disk_loads [OF _ power_lost(6)]
    show ?thesis by simp
  qed
qed

lemma lives_keep_disk:
  assumes "lives dp cd boot m reqs m'" "codec_ok (dep_enc dp) (dep_dec dp)" "disk_loads dp (m_disk m)"
  shows "disk_loads dp (m_disk m')"
  using assms by induction (auto intro: life_keeps_disk)

interpretation mortal_log: tunnel_ops "mortal (traced ops)" "\<lambda>(x, n). case x of (w, l) \<Rightarrow> teardown_calls l = ts"
  for ops :: "('k, 'w) wg_ops" and ts :: "'k kernel_call list"
  by (rule mortal_tunnel_ops [OF log.tunnel_ops_axioms])

lemma lives_keep_tunnel:
  assumes "lives dp cd (\<lambda>(w, l). (boot w, l)) m reqs m'"
    and "dep_wg dp = kernel_wireguard (dep_dg dp) (mortal (traced ops))" and "ReqDisconnect \<notin> set reqs"
  shows "teardown_calls (snd (m_wg m')) = teardown_calls (snd (m_wg m))"
  using assms(1,3)
proof induction
  case (one_more m reqs m' reqs' m'')
  let ?P = "\<lambda>(w, l). teardown_calls l = teardown_calls (snd (m_wg m'))"
  have "keeps (\<lambda>(x, n). ?P x) (wg_status (dep_wg dp))" "keeps (\<lambda>(x, n). ?P x) (wg_switch (dep_wg dp) r s)" for r s
    using mortal_log.keeps_status mortal_log.keeps_switch by (simp_all add: assms(2) kernel_wireguard_def)
  from life_keeps_wg [OF one_more(2) _ this] one_more have "?P (m_wg m'')" by (simp add: split_beta)
  with one_more show ?case by (simp add: split_beta)
qed simp

section \<open>Property of the process\<close>

text \<open>
  C3: stopping the daemon is safe, at any time. Over any number of starts, signals between two
  requests or in the middle of one, exits and losses of power, whatever kernel operations,
  system calls and file operations fail: unless a client asked to disconnect, the interface and
  its packet filter are never taken down; and the next start finds a state it can load, with
  every configuration in it well-formed.
\<close>

theorem stops_keep_tunnel_and_state:
  assumes "lives dp cd (\<lambda>(w, l). (boot w, l)) m reqs m'"
    and "dep_wg dp = kernel_wireguard (dep_dg dp) (mortal (traced ops))"
    and "codec_ok (dep_enc dp) (dep_dec dp)" and "disk_loads dp (m_disk m)"
  shows "(ReqDisconnect \<in> set reqs \<or> teardown_calls (snd (m_wg m')) = teardown_calls (snd (m_wg m)))
    \<and> (\<exists>d. daemon_load dp no_faults (m_disk m') w = Inr d \<and> config_ok (dep_dg dp) (d_cfg d))"
  using lives_keep_tunnel [OF assms(1,2)] loads_loads [OF lives_keep_disk [OF assms(1,3,4)]] by blast

definition plain_ops :: "(sample_key, sample_key host option) wg_ops" where
  "plain_ops = kernel_wg_ops sample_dg lan_dec (plain_api sample_dg) quiet_programs
     (reset_resolvconf quiet_programs bare_host) interface_name"

definition plain_deps ::
  "config \<Rightarrow> (sample_key, (sample_key host option \<times> sample_key kernel_call list) \<times> nat option) deps" where
  "plain_deps c =
     \<lparr>dep_dg = sample_dg, dep_wg = kernel_wireguard sample_dg (mortal (traced plain_ops)),
      dep_store = state_path, dep_enc = (\<lambda>c'. if c' = c then Inr ''{}'' else Inl ''unserializable''),
      dep_dec = (\<lambda>json. Inr c), dep_lower = to_ascii_lowercase\<rparr>"

definition new_machine :: "(sample_key host option \<times> sample_key kernel_call list) machine" where
  "new_machine = \<lparr>m_disk = empty_fs, m_wg = (None, []), m_modes = (\<lambda>p. None)\<rparr>"

lemma empty_disk_loads: "disk_loads (plain_deps one_server) empty_fs"
proof -
  note p = empty_possible
  have "store_wf state_path empty_fs" using empty_store_wf by simp
  then show ?thesis by (simp add: disk_loads_def disk_ok_def p plain_deps_def)
qed

text \<open>A daemon that is started, asked to add a server, and loses power before it has answered.\<close>

theorem stops_keep_tunnel_and_state_witness:
  "\<exists>m' d. lives (plain_deps one_server) sample_codec_io (\<lambda>(w, l). (None, l)) new_machine
       [ReqAddServer edge_spec] m'
     \<and> teardown_calls (snd (m_wg m')) = []
     \<and> daemon_load (plain_deps one_server) no_faults (m_disk m') ((None, []), None) = Inr d"
proof -
  let ?dp = "plain_deps one_server"
  have p: "default_state_path under_sudo = dep_store ?dp"
    by (simp add: default_state_path_def under_sudo_def plain_deps_def)
  obtain d where l: "daemon_load ?dp no_faults empty_fs ((None, []), None) = Inr d"
    using loads_loads [OF empty_disk_loads] by blast
  obtain calls where b: "bind_socket under_sudo [] = (Inr (), calls)"
    using bind_under_sudo by (metis prod.collapse)
  have "?dp\<lparr>dep_store := default_state_path under_sudo\<rparr> = ?dp" using p by simp
  then have m: "daemon_main ?dp sample_codec_io under_sudo no_faults (m_disk new_machine) (m_wg new_machine, None) []
      = (None, [ready_line d], [], Some d)"
    using l b by (simp add: daemon_main_def new_machine_def)
  obtain disk where c: "crash (d_disk (snd (handle ?dp sample_env (ReqAddServer edge_spec)
      (d\<lparr>d_wg := (fst (d_wg d), Some 0)\<rparr>)))) disk"
    using crash.crash by blast
  obtain m' where "life ?dp sample_codec_io (\<lambda>(w, l). (None, l)) new_machine [ReqAddServer edge_spec] m'"
    using life.power_lost [OF p m surjective_pairing c] by auto
  from lives.one_more [OF lives.none_yet this] have s: "lives ?dp sample_codec_io (\<lambda>(w, l). (None, l)) new_machine
      [ReqAddServer edge_spec] m'" by simp
  have w: "dep_wg ?dp = kernel_wireguard (dep_dg ?dp) (mortal (traced plain_ops))"
    and cd: "codec_ok (dep_enc ?dp) (dep_dec ?dp)"
    using sample_codec by (simp_all add: plain_deps_def sample_deps_def)
  have "disk_loads ?dp (m_disk new_machine)" using empty_disk_loads by (simp add: new_machine_def)
  from stops_keep_tunnel_and_state [OF s w cd this, of "((None, []), None)"] s show ?thesis
    by (auto simp: new_machine_def teardown_calls_def)
qed

end
