(* ===== verification/Cli.thy ===== *)
theory Cli
  imports Server
begin

section \<open>The command-line client (\<open>cli/src/main.rs\<close>)\<close>

text \<open>
  Arguments to requests, and responses to text. What the client prints is a list of lines for
  each of the two output streams and an exit code. A slice that would cut a character is a
  panic, the \<open>Inl\<close> of the printing functions. The \<open>Debug\<close> of a string, whose escapes rest on
  a Unicode table, is the parameter \<open>debug\<close>; reading a file and asking the daemon are too.
\<close>

record cli_out =
  co_out :: "string list"
  co_err :: "string list"
  co_exit :: nat

definition printed :: "string list \<Rightarrow> cli_out" where
  "printed ls = \<lparr>co_out = ls, co_err = [], co_exit = 0\<rparr>"

definition failed_with :: "nat \<Rightarrow> string list \<Rightarrow> cli_out" where
  "failed_with code ls = \<lparr>co_out = [], co_err = ls, co_exit = code\<rparr>"

text \<open>The characters of the output beyond ASCII, in UTF-8.\<close>

definition ellipsis :: string where "ellipsis = [CHR 0xE2, CHR 0x80, CHR 0xA6]"
definition em_dash :: string where "em_dash = [CHR 0xE2, CHR 0x80, CHR 0x94]"
definition check_mark :: string where "check_mark = [CHR 0xE2, CHR 0x9C, CHR 0x93]"
definition down_arrow :: string where "down_arrow = [CHR 0xE2, CHR 0x86, CHR 0x93]"
definition up_arrow :: string where "up_arrow = [CHR 0xE2, CHR 0x86, CHR 0x91]"
definition bullet :: string where "bullet = [CHR 0xE2, CHR 0x97, CHR 0x8F]"

subsection \<open>Sizes\<close>

text \<open>Division rounded to the nearest, ties to even: of \<open>f64\<close> conversions and of \<open>{:.1}\<close>.\<close>

definition div_half_even :: "nat \<Rightarrow> nat \<Rightarrow> nat" where
  "div_half_even a b =
     (let q = a div b; r = a mod b
      in if 2 * r < b then q else if b < 2 * r then Suc q else q + q mod 2)"

fun bit_length :: "nat \<Rightarrow> nat" where
  "bit_length n = (if n = 0 then 0 else Suc (bit_length (n div 2)))"

declare bit_length.simps [simp del]

text \<open>\<open>bytes as f64\<close>: 53 significant bits. The value is an integer.\<close>

definition f64_of :: "nat \<Rightarrow> nat" where
  "f64_of n = (let e = bit_length n - 53 in 2 ^ e * div_half_even n (2 ^ e))"

text \<open>
  The loop over the units. \<open>value\<close> is \<open>m / 1024 ^ k\<close>: dividing an \<open>f64\<close> by 1024 is exact.
\<close>

fun humanize_units :: "string list \<Rightarrow> nat \<Rightarrow> nat \<Rightarrow> string \<Rightarrow> nat \<times> string" where
  "humanize_units [] m k unit_name = (k, unit_name)"
| "humanize_units (next_unit # us) m k unit_name =
     (if m < 1024 * 1024 ^ k then (k, unit_name) else humanize_units us m (Suc k) next_unit)"

definition show_tenths :: "nat \<Rightarrow> string" where
  "show_tenths t = show_nat (t div 10) @ ''.'' @ show_nat (t mod 10)"

definition humanize :: "u64 \<Rightarrow> string" where
  "humanize bytes =
     (if unat bytes < 1024 then show_nat (unat bytes) @ '' B''
      else
        (let m = f64_of (unat bytes); (k, u) = humanize_units [''KiB'', ''MiB'', ''GiB''] m 0 ''B''
         in show_tenths (div_half_even (10 * m) (1024 ^ k)) @ '' '' @ u))"

subsection \<open>Printing\<close>

text \<open>\<open>&s[..n]\<close>.\<close>

definition slice_to :: "string \<Rightarrow> nat \<Rightarrow> string + string" where
  "slice_to s n =
     (if is_char_boundary s n then Inr (take n s) else Inl ''byte index is not a char boundary'')"

definition peer_state_text :: "peer_status \<Rightarrow> string" where
  "peer_state_text p =
     (let age = show_nat (case ps_handshake_age_secs p of None \<Rightarrow> 0 | Some a \<Rightarrow> unat a)
      in (case ps_state p of
            Alive \<Rightarrow> ''ALIVE '' @ check_mark @ '', '' @ age @ ''s ago''
          | Connecting \<Rightarrow> ''connecting'' @ ellipsis
          | Stale \<Rightarrow> ''STALE, '' @ age @ ''s ago''
          | Never \<Rightarrow> ''never connected''))"

definition print_peer :: "peer_status \<Rightarrow> string + string list" where
  "print_peer p =
     bindR (slice_to (ps_public_key p) (min 12 (length (ps_public_key p)))) (\<lambda>key. Inr
       [''peer      '' @ key @ ellipsis,
        ''endpoint  '' @ (case ps_endpoint p of None \<Rightarrow> ''-'' | Some e \<Rightarrow> e),
        ''allowed   '' @ join '', '' (ps_allowed_ips p),
        ''handshake '' @ peer_state_text p,
        ''traffic   '' @ down_arrow @ '' '' @ humanize (ps_rx_bytes p) @ ''  '' @ up_arrow @ '' ''
          @ humanize (ps_tx_bytes p),
        []])"

text \<open>\<open>{:<12}\<close>.\<close>

definition pad_to :: "nat \<Rightarrow> string \<Rightarrow> string" where
  "pad_to n s = s @ replicate (n - char_count s) (CHR '' '')"

definition server_lines :: "server_info \<Rightarrow> string list" where
  "server_lines s =
     [(if info_active s then bullet else '' '') @ '' '' @ pad_to 12 (info_name s) @ '' '' @ info_endpoint s,
      ''    address  '' @ join '', '' (info_addresses s),
      ''    pubkey   '' @ info_public_key s]"

definition print_servers ::
  "(string \<Rightarrow> string) \<Rightarrow> server_info list \<Rightarrow> string option \<Rightarrow> string list" where
  "print_servers debug l query =
     (if l = [] then
        (case query of
           Some q \<Rightarrow> [''no servers match '' @ debug q]
         | None \<Rightarrow> [''no servers configured '' @ em_dash @ '' add one with `wirefinder add '' @ ellipsis
             @ ''` or `import`''])
      else ''servers:'' # concat (map server_lines l))"

definition print_detail :: "server_detail \<Rightarrow> string list" where
  "print_detail d =
     [detail_name d,
      ''    peer pubkey  '' @ detail_public_key d,
      ''    endpoint     '' @ detail_endpoint d,
      ''    addresses    '' @ join '', '' (detail_addresses d),
      ''    allowed ips  '' @ join '', '' (detail_allowed_ips d)]
     @ (case detail_listen_port d of None \<Rightarrow> [] | Some p \<Rightarrow> [''    listen port  '' @ show_nat (unat p)])
     @ (case detail_mtu d of None \<Rightarrow> [] | Some m \<Rightarrow> [''    mtu          '' @ show_nat (unat m)])
     @ (case detail_keepalive d of None \<Rightarrow> [] | Some k \<Rightarrow> [''    keepalive    '' @ show_nat (unat k) @ ''s''])
     @ (if detail_dns d = [] then [] else [''    dns          '' @ join '', '' (detail_dns d)])
     @ (if detail_has_preshared_key d then [''    preshared    (set)''] else [])"

definition usage :: "string list" where
  "usage =
     [''usage:'',
      ''  wirefinder add <name> <pubkey> <endpoint> <address> [allowed_ips]'',
      ''                                                  add a server (generates a key)'',
      ''  wirefinder import <file.conf> [name]            import a wg-quick config'',
      ''  wirefinder remove <name>                        forget a server'',
      ''  wirefinder servers [query]                      list servers (optionally filtered)'',
      ''  wirefinder get <name>                           show a server's editable detail'',
      ''  wirefinder switch <name>                        connect to a server'',
      ''  wirefinder disconnect                           tear the tunnel down'',
      ''  wirefinder info                                 live tunnel status'']"

subsection \<open>Arguments\<close>

definition parse_allowed_ips :: "string list \<Rightarrow> string list" where
  "parse_allowed_ips rest =
     (case rest of [ips] \<Rightarrow> map trim (split_on CHR '','' ips) | _ \<Rightarrow> [''0.0.0.0/0'', ''::/0''])"

definition parse_request :: "string list \<Rightarrow> request option" where
  "parse_request args =
     (case args of
        [cmd] \<Rightarrow>
          if cmd = ''info'' then Some ReqStatus
          else if cmd = ''servers'' then Some (ReqListServers None)
          else if cmd = ''disconnect'' then Some ReqDisconnect
          else None
      | [cmd, x] \<Rightarrow>
          if cmd = ''servers'' then Some (ReqListServers (Some x))
          else if cmd = ''switch'' then Some (ReqSwitchServer x)
          else if cmd = ''remove'' then Some (ReqRemoveServer x)
          else if cmd = ''get'' then Some (ReqGetServer x)
          else None
      | cmd # name # pubkey # endpoint # address # rest \<Rightarrow>
          if cmd = ''add'' then
            Some (ReqAddServer
              \<lparr>spec_name = name, spec_private_key = None, spec_public_key = pubkey,
               spec_endpoint = endpoint, spec_addresses = [address],
               spec_allowed_ips = parse_allowed_ips rest, spec_listen_port = None, spec_mtu = None,
               spec_keepalive = Some 25, spec_preshared_key = None, spec_dns = []\<rparr>)
          else None
      | _ \<Rightarrow> None)"

definition file_stem :: "string \<Rightarrow> string" where
  "file_stem path =
     (case Option.bind (path_file_stem path) (\<lambda>s. if utf8_valid s then Some s else None) of
        Some s \<Rightarrow> s | None \<Rightarrow> ''imported'')"

definition import_request ::
  "(string \<Rightarrow> string result) \<Rightarrow> string \<Rightarrow> string option \<Rightarrow> request result" where
  "import_request read file name =
     bindR (map_err (\<lambda>e. file @ '': '' @ e) (read file)) (\<lambda>conf.
       Inr (ReqImportServer (case name of Some n \<Rightarrow> n | None \<Rightarrow> file_stem file) conf))"

definition request_of_args :: "(string \<Rightarrow> string result) \<Rightarrow> string list \<Rightarrow> request result" where
  "request_of_args read args =
     (case args of
        [cmd, file] \<Rightarrow>
          if cmd = ''import'' then import_request read file None else ok_or (parse_request args) []
      | [cmd, file, name] \<Rightarrow>
          if cmd = ''import'' then import_request read file (Some name) else ok_or (parse_request args) []
      | _ \<Rightarrow> ok_or (parse_request args) [])"

subsection \<open>\<open>main\<close>\<close>

definition render ::
  "(string \<Rightarrow> string) \<Rightarrow> response \<Rightarrow> string option \<Rightarrow> string + cli_out" where
  "render debug response query =
     (case response of
        RespStatus s \<Rightarrow>
          bindR (collectR (map print_peer (is_peers s))) (\<lambda>peers.
            Inr (printed ([''interface '' @ is_name s @ ''  port '' @ show_nat (unat (is_listen_port s)), []]
              @ concat peers)))
      | RespServers l \<Rightarrow> Inr (printed (print_servers debug l query))
      | RespServerDetail d \<Rightarrow> Inr (printed (print_detail d))
      | RespSwitched name \<Rightarrow> Inr (printed [''switched to '' @ name])
      | RespDisconnected \<Rightarrow> Inr (printed [''disconnected '' @ em_dash @ '' interface is down''])
      | RespError e \<Rightarrow> Inr (failed_with 1 [''daemon error: '' @ e]))"

definition list_query :: "request \<Rightarrow> string option" where
  "list_query req = (case req of ReqListServers q \<Rightarrow> q | _ \<Rightarrow> None)"

definition cli_main ::
  "(string \<Rightarrow> string) \<Rightarrow> (string \<Rightarrow> string result) \<Rightarrow> (request \<Rightarrow> ('w, response) action)
     \<Rightarrow> string list \<Rightarrow> 'w \<Rightarrow> (string + cli_out) \<times> 'w" where
  "cli_main debug read send args w =
     (case request_of_args read args of
        Inl e \<Rightarrow> (Inr (if e \<noteq> [] then failed_with 2 [e] else (printed usage)\<lparr>co_exit := 2\<rparr>), w)
      | Inr req \<Rightarrow>
          (case send req w of
             (Inl e, w') \<Rightarrow> (Inr (failed_with 1 [''Error: '' @ debug e]), w')
           | (Inr response, w') \<Rightarrow> (render debug response (list_query req), w')))"

subsection \<open>Rounding\<close>

lemma div_half_even_close:
  assumes "0 < b"
  shows "2 * \<bar>int a - int (b * div_half_even a b)\<bar> \<le> int b"
proof -
  define q r where "q = a div b" and "r = a mod b"
  have a: "int a = int b * int q + int r" unfolding q_def r_def by (simp flip: of_nat_mult of_nat_add)
  have r: "r < b" unfolding r_def using assms by simp
  show ?thesis
  proof (cases "2 * r" b rule: linorder_cases)
    case less
    then have "div_half_even a b = q" by (simp add: div_half_even_def q_def r_def)
    with a less show ?thesis by simp
  next
    case greater
    then have "div_half_even a b = Suc q" by (simp add: div_half_even_def q_def r_def)
    with a greater r show ?thesis by (simp add: algebra_simps)
  next
    case equal
    then have "div_half_even a b = q \<or> div_half_even a b = Suc q"
      by (cases "even q") (auto simp: div_half_even_def q_def r_def mod2_eq_if)
    with a equal show ?thesis by (auto simp: algebra_simps)
  qed
qed

lemma bit_length_le: "n < 2 ^ k \<Longrightarrow> bit_length n \<le> k"
proof (induction n arbitrary: k rule: bit_length.induct)
  case (1 n)
  show ?case
  proof (cases "n = 0")
    case True
    then show ?thesis by (simp add: bit_length.simps)
  next
    case False
    with "1.prems" obtain j where k: "k = Suc j" by (cases k) auto
    with "1.prems" have "n div 2 < 2 ^ j" by auto
    with "1.IH" [OF False] have "bit_length (n div 2) \<le> j" by blast
    with False k show ?thesis by (simp add: bit_length.simps [of n])
  qed
qed

lemma f64_of_exact: "n < 2 ^ 53 \<Longrightarrow> f64_of n = n"
  using bit_length_le [of n 53] by (simp add: f64_of_def div_half_even_def)

lemma f64_of_close:
  assumes "n < 2 ^ 64"
  shows "2 * \<bar>int n - int (f64_of n)\<bar> \<le> (if n < 2 ^ 53 then 0 else 2048)"
proof (cases "n < 2 ^ 53")
  case True
  then show ?thesis by (simp add: f64_of_exact)
next
  case False
  have "bit_length n - 53 \<le> 11" using bit_length_le [OF assms] by simp
  then have "(2::nat) ^ (bit_length n - 53) \<le> 2 ^ 11" by (intro power_increasing) auto
  then have "int (2 ^ (bit_length n - 53)) \<le> int 2048" by (subst of_nat_le_iff) simp
  moreover have "2 * \<bar>int n - int (f64_of n)\<bar> \<le> int (2 ^ (bit_length n - 53))"
    unfolding f64_of_def Let_def by (rule div_half_even_close) simp
  ultimately show ?thesis using False by simp
qed

lemma div_half_even_mono_bound: "0 < b \<Longrightarrow> a < c * b \<Longrightarrow> div_half_even a b \<le> c"
  by (auto simp: div_half_even_def Let_def less_mult_imp_div_less Suc_leI mod2_eq_if
      intro: less_imp_le)

lemma div_half_even_lower: "0 < b \<Longrightarrow> c * b \<le> a \<Longrightarrow> c \<le> div_half_even a b"
  using div_le_mono [of "c * b" a b] by (auto simp: div_half_even_def Let_def)

lemma humanize_units_cases:
  assumes "1024 \<le> m"
  obtains k u where "humanize_units [''KiB'', ''MiB'', ''GiB''] m 0 ''B'' = (k, u)"
    "(k, u) \<in> {(1, ''KiB''), (2, ''MiB''), (3, ''GiB'')}" "1024 ^ k \<le> m" "k < 3 \<longrightarrow> m < 1024 * 1024 ^ k"
proof -
  consider "m < 1024 ^ 2" | "1024 ^ 2 \<le> m" "m < 1024 ^ 3" | "1024 ^ 3 \<le> m" by linarith
  then show thesis
  proof cases
    case 1
    with assms show thesis by (intro that [of 1 "''KiB''"]) simp_all
  next
    case 2
    with assms show thesis by (intro that [of 2 "''MiB''"]) simp_all
  next
    case 3
    with assms show thesis by (intro that [of 3 "''GiB''"]) simp_all
  qed
qed

section \<open>Properties of the command-line client\<close>

text \<open>
  C39: the sizes the client prints. From 1024 bytes on it prints tenths of a unit, of KiB, MiB or
  GiB; they are the nearest to the number of bytes (above \<open>2 ^ 53\<close> up to the rounding of the
  conversion to \<open>f64\<close>), at least 1.0, and below the largest unit at most 1024.0.
\<close>

theorem humanize_nearest:
  assumes "1024 \<le> unat bytes"
  shows "\<exists>t k u. humanize bytes = show_tenths t @ '' '' @ u
    \<and> (k, u) \<in> {(1, ''KiB''), (2, ''MiB''), (3, ''GiB'')}
    \<and> 10 \<le> t \<and> (k < 3 \<longrightarrow> t \<le> 10240)
    \<and> 2 * \<bar>10 * int (unat bytes) - int (1024 ^ k * t)\<bar>
        \<le> int (1024 ^ k) + (if unat bytes < 2 ^ 53 then 0 else 20480)"
proof -
  define n m where "n = unat bytes" and "m = f64_of n"
  have "n < 2 ^ LENGTH(64)" unfolding n_def by (rule unsigned_less)
  then have c: "2 * \<bar>int n - int m\<bar> \<le> (if n < 2 ^ 53 then 0 else 2048)"
    unfolding m_def by (intro f64_of_close) simp
  then have "1024 \<le> m" using assms unfolding n_def [symmetric] by (auto split: if_splits)
  then obtain k u where u: "humanize_units [''KiB'', ''MiB'', ''GiB''] m 0 ''B'' = (k, u)"
    "(k, u) \<in> {(1, ''KiB''), (2, ''MiB''), (3, ''GiB'')}" "1024 ^ k \<le> m" "k < 3 \<longrightarrow> m < 1024 * 1024 ^ k"
    by (rule humanize_units_cases)
  define t where "t = div_half_even (10 * m) (1024 ^ k)"
  have "humanize bytes = show_tenths t @ '' '' @ u"
    using assms by (simp add: humanize_def Let_def u(1) n_def [symmetric] m_def [symmetric] t_def del: humanize_units.simps)
  moreover have "10 \<le> t" unfolding t_def using u(3) by (intro div_half_even_lower) auto
  moreover have "k < 3 \<longrightarrow> t \<le> 10240" unfolding t_def using u(4) by (intro impI div_half_even_mono_bound) auto
  moreover have "2 * \<bar>int (10 * m) - int (1024 ^ k * t)\<bar> \<le> int (1024 ^ k)"
    unfolding t_def by (rule div_half_even_close) simp
  then have "2 * \<bar>10 * int n - int (1024 ^ k * t)\<bar> \<le> int (1024 ^ k) + (if n < 2 ^ 53 then 0 else 20480)"
  proof -
    have far: "2 * \<bar>10 * x - y\<bar> \<le> p + 20480" if "2 * \<bar>10 * z - y\<bar> \<le> p" "2 * \<bar>x - z\<bar> \<le> 2048" for x y z p :: int
      using that by (simp add: abs_if split: if_splits)
    assume *: "2 * \<bar>int (10 * m) - int (1024 ^ k * t)\<bar> \<le> int (1024 ^ k)"
    show ?thesis
    proof (cases "n < 2 ^ 53")
      case True
      with c have "m = n" by simp
      with * True show ?thesis by simp
    next
      case False
      then have "2 * \<bar>int n - int m\<bar> \<le> 2048" using c by (simp only: if_False)
      moreover have "2 * \<bar>10 * int m - int (1024 ^ k * t)\<bar> \<le> int (1024 ^ k)" using * by simp
      ultimately have "2 * \<bar>10 * int n - int (1024 ^ k * t)\<bar> \<le> int (1024 ^ k) + 20480"
        by (intro far)
      then show ?thesis using False by (simp only: if_False)
    qed
  qed
  ultimately show ?thesis using u(2) unfolding n_def by blast
qed

theorem humanize_nearest_witness:
  "humanize 1048575 = ''1024.0 KiB'' \<and> (\<exists>t k u. humanize 1048575 = show_tenths t @ '' '' @ u
    \<and> 10 \<le> t \<and> (k < 3 \<longrightarrow> t \<le> 10240) \<and> (k, u) \<in> {(1, ''KiB''), (2::nat, ''MiB''), (3, ''GiB'')})"
proof -
  have "f64_of 1048575 = 1048575" by (rule f64_of_exact) simp
  then have "humanize 1048575 = ''1024.0 KiB''"
    by (simp add: humanize_def div_half_even_def show_tenths_def show_nat.simps digit_char_def char_of_def bit_0)
  moreover have "1024 \<le> unat (1048575 :: u64)" by simp
  ultimately show ?thesis using humanize_nearest [of 1048575] by blast
qed

subsection \<open>The requests the command line can express\<close>

definition expressible :: "request \<Rightarrow> bool" where
  "expressible req \<longleftrightarrow>
     (case req of
        ReqEditServer s \<Rightarrow> False
      | ReqImportServer n conf \<Rightarrow> False
      | ReqAddServer s \<Rightarrow>
          spec_private_key s = None \<and> spec_listen_port s = None \<and> spec_mtu s = None
          \<and> spec_keepalive s = Some 25 \<and> spec_preshared_key s = None \<and> spec_dns s = []
          \<and> length (spec_addresses s) = 1 \<and> spec_allowed_ips s \<noteq> []
          \<and> (\<forall>a \<in> set (spec_allowed_ips s). trimmed a \<and> CHR '','' \<notin> set a)
      | _ \<Rightarrow> True)"

text \<open>The arguments that express a request.\<close>

definition argv_of :: "request \<Rightarrow> string list" where
  "argv_of req =
     (case req of
        ReqStatus \<Rightarrow> [''info'']
      | ReqListServers q \<Rightarrow> ''servers'' # (case q of None \<Rightarrow> [] | Some x \<Rightarrow> [x])
      | ReqGetServer n \<Rightarrow> [''get'', n]
      | ReqRemoveServer n \<Rightarrow> [''remove'', n]
      | ReqSwitchServer n \<Rightarrow> [''switch'', n]
      | ReqDisconnect \<Rightarrow> [''disconnect'']
      | ReqAddServer s \<Rightarrow>
          [''add'', spec_name s, spec_public_key s, spec_endpoint s] @ spec_addresses s
          @ [join '','' (spec_allowed_ips s)]
      | _ \<Rightarrow> [])"

lemma parse_allowed_ips_ok:
  "parse_allowed_ips rest \<noteq> [] \<and> (\<forall>a \<in> set (parse_allowed_ips rest). trimmed a \<and> CHR '','' \<notin> set a)"
proof -
  have "trimmed ''0.0.0.0/0'' \<and> trimmed ''::/0''" by (simp add: trimmed_graphic graphic_def)
  moreover have "trimmed (trim p) \<and> CHR '','' \<notin> set (trim p)" if "p \<in> set (split_on CHR '','' s)" for p s
    using split_on_pieces [OF that] set_trim_subset [of p] by auto
  ultimately show ?thesis
    by (auto simp: parse_allowed_ips_def split: list.split)
qed

lemma parse_allowed_ips_join:
  assumes "ips \<noteq> []" "\<forall>a \<in> set ips. trimmed a \<and> CHR '','' \<notin> set a"
  shows "parse_allowed_ips [join '','' ips] = ips"
  using assms by (simp add: parse_allowed_ips_def split_on_join trim_trimmed map_idI)

lemma parse_request_expressible: "parse_request args = Some req \<Longrightarrow> expressible req"
  using parse_allowed_ips_ok
  by (auto simp: parse_request_def expressible_def split: list.splits if_splits)

lemma parse_argv_of:
  assumes "expressible req"
  shows "parse_request (argv_of req) = Some req"
proof (cases req)
  case (ReqAddServer s)
  with assms obtain a where "spec_addresses s = [a]"
    by (auto simp: expressible_def length_Suc_conv)
  with assms ReqAddServer show ?thesis
    by (cases s) (simp add: expressible_def argv_of_def parse_request_def parse_allowed_ips_join)
qed (use assms in \<open>auto simp: expressible_def argv_of_def parse_request_def split: option.split\<close>)

text \<open>
  C38: the requests the command line can express, apart from imports, are all but edits, and of
  the additions those with a key generated by the daemon, a keepalive of 25 seconds, one address
  and at least one route; every one of them is what parsing its arguments gives.
\<close>

theorem cli_expresses:
  "{req. \<exists>args. parse_request args = Some req} = {req. expressible req}
   \<and> {req. parse_request (argv_of req) = Some req} = {req. expressible req}"
  using parse_request_expressible parse_argv_of by blast

text \<open>With two or more arguments after the address the routes asked for are dropped silently.\<close>

lemma cli_add_extra:
  "parse_request ([''add'', n, k, e, a] @ x # y # rest) = parse_request [''add'', n, k, e, a]"
  by (simp add: parse_request_def parse_allowed_ips_def)

subsection \<open>From the command line to the daemon and back\<close>

definition ascii_keys :: "response \<Rightarrow> bool" where
  "ascii_keys resp \<longleftrightarrow>
     (case resp of
        RespStatus s \<Rightarrow> (\<forall>p \<in> set (is_peers s). \<forall>c \<in> set (ps_public_key p). (of_char c :: nat) < 128)
      | _ \<Rightarrow> True)"

lemma ascii_boundary: "\<forall>c \<in> set s. (of_char c :: nat) < 128 \<Longrightarrow> n \<le> length s \<Longrightarrow> is_char_boundary s n"
  by (auto simp: is_char_boundary_def is_continuation_def not_le dest: nth_mem)

lemma print_peer_ascii:
  "\<forall>c \<in> set (ps_public_key p). (of_char c :: nat) < 128 \<Longrightarrow> is_ok (print_peer p)"
  by (simp add: print_peer_def slice_to_def ascii_boundary)

definition exit_code :: "response \<Rightarrow> nat" where
  "exit_code resp = (case resp of RespError e \<Rightarrow> 1 | _ \<Rightarrow> 0)"

lemma render_ok:
  assumes "ascii_keys resp"
  shows "\<exists>out. render debug resp q = Inr out \<and> co_exit out = exit_code resp"
proof (cases resp)
  case (RespStatus s)
  with assms have "is_ok (collectR (map print_peer (is_peers s)))"
    by (simp add: collectR_is_ok print_peer_ascii ascii_keys_def)
  with RespStatus show ?thesis
    by (auto simp: render_def printed_def exit_code_def is_ok_iff)
qed (auto simp: render_def printed_def failed_with_def exit_code_def)

text \<open>
  A command that is not understood, or an import of a file that cannot be read, has exit code 2
  and asks the daemon nothing.
\<close>

lemma cli_usage_error:
  "request_of_args read args = Inl e \<Longrightarrow>
   \<exists>out. cli_main debug read send args w = (Inr out, w) \<and> co_exit out = 2"
  by (auto simp: cli_main_def failed_with_def printed_def)

text \<open>
  C37: from the command line to the daemon and back. A command that is understood makes the
  daemon handle the request it stands for, exactly once, and prints the daemon's answer without
  a panic; the exit code is 1 if the answer is an error and 0 otherwise. It needs serde to read
  back what it wrote, and the keys in a status to be ASCII.
\<close>

theorem cli_over_socket:
  assumes "request_of_args read args = Inr req" and "handle dp ev req d = (Inr resp, d')"
    and "line_codec (cd_enc_request cd) (cd_dec_request cd) req json" and "length json < 65536"
    and "line_codec (cd_enc_response cd) (cd_dec_response cd) resp json'" and "ascii_keys resp"
  shows "\<exists>c' out. cli_main debug read
      (ipc_request (socket_ipc dp cd ev) (cd_enc_request cd) (cd_dec_response cd)) args (c, d)
        = (Inr out, c', d')
     \<and> render debug resp (list_query req) = Inr out \<and> co_exit out = exit_code resp"
  using ipc_over_socket [OF assms(2-5), of c] render_ok [OF assms(6), of debug "list_query req"]
  by (auto simp: cli_main_def assms(1))

text \<open>A codec for one request and one response.\<close>

definition one_codec :: "request \<Rightarrow> response \<Rightarrow> codec" where
  "one_codec req resp =
     \<lparr>cd_enc_request = (\<lambda>r. if r = req then Inr ''q'' else Inl ''not in the sample''),
      cd_dec_request = (\<lambda>s. if s = ''q'' @ [newline] then Inr req else Inl ''expected value''),
      cd_enc_response = (\<lambda>r. if r = resp then Inr ''r'' else Inl ''not in the sample''),
      cd_dec_response = (\<lambda>s. if s = ''r'' @ [newline] then Inr resp else Inl ''expected value'')\<rparr>"

lemma one_codec_lines:
  "line_codec (cd_enc_request (one_codec req resp)) (cd_dec_request (one_codec req resp)) req ''q''"
  "line_codec (cd_enc_response (one_codec req resp)) (cd_dec_response (one_codec req resp)) resp ''r''"
  by (simp_all add: line_codec_def one_codec_def newline_def utf8_valid_ascii)

lemma edge_conf_args:
  "request_of_args (\<lambda>f. Inr (render_conf sample_conf)) [''import'', ''/home/u/edge.conf'']
     = Inr (ReqImportServer ''edge'' (render_conf sample_conf))"
proof -
  have "file_stem ''/home/u/edge.conf'' = ''edge''" by code_simp
  then show ?thesis by (simp add: request_of_args_def import_request_def)
qed

theorem cli_over_socket_witness:
  "\<exists>req resp d' c' out. handle (sample_deps one_server) sample_env req (sample_daemon config_default) = (Inr resp, d')
     \<and> cli_main id (\<lambda>f. Inr (render_conf sample_conf))
        (ipc_request (socket_ipc (sample_deps one_server) (one_codec req resp) sample_env)
          (cd_enc_request (one_codec req resp)) (cd_dec_response (one_codec req resp)))
        [''import'', ''/home/u/edge.conf''] (noise, sample_daemon config_default) = (Inr out, c', d')
     \<and> co_exit out = exit_code resp"
proof -
  let ?req = "ReqImportServer ''edge'' (render_conf sample_conf)"
  obtain resp d' where h: "handle (sample_deps one_server) sample_env ?req (sample_daemon config_default) = (Inr resp, d')"
    and "fits ?req resp"
    using handle_fits [of "sample_deps one_server" sample_env ?req "sample_daemon config_default"]
    by (metis prod.collapse)
  then have "ascii_keys resp" by (cases resp) (simp_all add: fits_def ascii_keys_def)
  with h cli_over_socket [OF edge_conf_args h one_codec_lines(1) _ one_codec_lines(2), of id noise]
  show ?thesis by fastforce
qed

end
