(* ===== verification/Ui.thy ===== *)
theory Ui
  imports Server
begin

section \<open>The commands of the desktop client (\<open>ui/src-tauri/src/lib.rs\<close>)\<close>

text \<open>
  Each command asks the daemon and unwraps its response into what the frontend wants; a
  response of another kind is an error of its own. How the daemon is asked is the parameter
  \<open>send\<close>. The window and the tray are in \<open>Desktop\<close>.
\<close>

definition unexpected :: string where
  "unexpected = ''unexpected response from daemon''"

definition servers_or_error :: "response \<Rightarrow> server_info list result" where
  "servers_or_error r =
     (case r of RespServers s \<Rightarrow> Inr s | RespError e \<Rightarrow> Inl e | _ \<Rightarrow> Inl unexpected)"

type_synonym 'w sender = "request \<Rightarrow> ('w, response) action"

definition ui_add_server :: "'w sender \<Rightarrow> server_spec \<Rightarrow> ('w, server_info list) action" where
  "ui_add_server send server = bindS (send (ReqAddServer server)) (\<lambda>r. liftR (servers_or_error r))"

definition ui_edit_server :: "'w sender \<Rightarrow> server_spec \<Rightarrow> ('w, server_info list) action" where
  "ui_edit_server send server = bindS (send (ReqEditServer server)) (\<lambda>r. liftR (servers_or_error r))"

definition ui_get_server :: "'w sender \<Rightarrow> string \<Rightarrow> ('w, server_detail) action" where
  "ui_get_server send name = bindS (send (ReqGetServer name)) (\<lambda>r. liftR
     (case r of RespServerDetail d \<Rightarrow> Inr d | RespError e \<Rightarrow> Inl e | _ \<Rightarrow> Inl unexpected))"

definition ui_import_server :: "'w sender \<Rightarrow> string \<Rightarrow> string \<Rightarrow> ('w, server_info list) action" where
  "ui_import_server send name conf =
     bindS (send (ReqImportServer name conf)) (\<lambda>r. liftR (servers_or_error r))"

definition ui_remove_server :: "'w sender \<Rightarrow> string \<Rightarrow> ('w, server_info list) action" where
  "ui_remove_server send name = bindS (send (ReqRemoveServer name)) (\<lambda>r. liftR (servers_or_error r))"

definition ui_list_servers :: "'w sender \<Rightarrow> string option \<Rightarrow> ('w, server_info list) action" where
  "ui_list_servers send query = bindS (send (ReqListServers query)) (\<lambda>r. liftR (servers_or_error r))"

definition ui_status :: "'w sender \<Rightarrow> ('w, interface_status option) action" where
  "ui_status send = bindS (send ReqStatus) (\<lambda>r. liftR
     (case r of RespStatus s \<Rightarrow> Inr (Some s) | RespDisconnected \<Rightarrow> Inr None
      | RespError e \<Rightarrow> Inl e | _ \<Rightarrow> Inl unexpected))"

definition ui_disconnect :: "'w sender \<Rightarrow> ('w, unit) action" where
  "ui_disconnect send = bindS (send ReqDisconnect) (\<lambda>r. liftR
     (case r of RespDisconnected \<Rightarrow> Inr () | RespError e \<Rightarrow> Inl e | _ \<Rightarrow> Inl unexpected))"

definition ui_switch_server :: "'w sender \<Rightarrow> string \<Rightarrow> ('w, string) action" where
  "ui_switch_server send name = bindS (send (ReqSwitchServer name)) (\<lambda>r. liftR
     (case r of RespSwitched n \<Rightarrow> Inr n | RespError e \<Rightarrow> Inl e | _ \<Rightarrow> Inl unexpected))"

subsection \<open>Against the daemon\<close>

text \<open>
  A sender that reaches the daemon: what comes back is what its handler answers. A panic of the
  daemon would be an error of the transport.
\<close>

definition ask :: "('k, 'w) deps \<Rightarrow> 'k env \<Rightarrow> 'w daemon sender" where
  "ask dp ev req = handle dp ev req"

definition errors :: "('w, 'a) action \<Rightarrow> 'w \<Rightarrow> string set" where
  "errors m w = {e. fst (m w) = Inl e}"

definition refusals :: "('k, 'w) deps \<Rightarrow> 'k env \<Rightarrow> request \<Rightarrow> 'w daemon \<Rightarrow> string set" where
  "refusals dp ev req d = {e. fst (handle dp ev req d) = Inr (RespError e)}"

lemma ask_bind:
  "errors (bindS (ask dp ev req) (\<lambda>r. liftR (f r))) d =
   {e. \<exists>r. fst (handle dp ev req d) = Inr r \<and> fits req r \<and> f r = Inl e}"
proof -
  obtain r d' where h: "handle dp ev req d = (Inr r, d')" and "fits req r"
    using handle_fits [of dp ev req d] by (metis prod.collapse)
  then show ?thesis by (auto simp: errors_def bindS_def ask_def)
qed

lemma errors_refused:
  assumes "\<And>r e. fits req r \<Longrightarrow> f r = Inl e \<longleftrightarrow> r = RespError e"
  shows "errors (bindS (ask dp ev req) (\<lambda>r. liftR (f r))) d = refusals dp ev req d"
  using assms handle_fits [of dp ev req d] by (fastforce simp: ask_bind refusals_def)

lemma errors_none:
  assumes "\<And>r e. fits req r \<Longrightarrow> f r \<noteq> Inl e"
  shows "errors (bindS (ask dp ev req) (\<lambda>r. liftR (f r))) d = {}"
  using assms by (auto simp: ask_bind)

lemmas ui_defs = ui_add_server_def ui_edit_server_def ui_get_server_def ui_import_server_def
  ui_remove_server_def ui_list_servers_def ui_status_def ui_disconnect_def ui_switch_server_def

section \<open>Properties of the desktop client's commands\<close>

text \<open>
  C40: the daemon and the desktop client agree about the protocol. No command ever ends in
  "unexpected response": the only errors the frontend sees are those the daemon answered with,
  and asking for the list or the status has none.
\<close>

theorem ui_never_unexpected:
  "errors (ui_add_server (ask dp ev) spec) d = refusals dp ev (ReqAddServer spec) d
   \<and> errors (ui_edit_server (ask dp ev) spec) d = refusals dp ev (ReqEditServer spec) d
   \<and> errors (ui_get_server (ask dp ev) name) d = refusals dp ev (ReqGetServer name) d
   \<and> errors (ui_import_server (ask dp ev) name conf) d = refusals dp ev (ReqImportServer name conf) d
   \<and> errors (ui_remove_server (ask dp ev) name) d = refusals dp ev (ReqRemoveServer name) d
   \<and> errors (ui_switch_server (ask dp ev) name) d = refusals dp ev (ReqSwitchServer name) d
   \<and> errors (ui_disconnect (ask dp ev)) d = refusals dp ev ReqDisconnect d
   \<and> errors (ui_list_servers (ask dp ev) query) d = {}
   \<and> errors (ui_status (ask dp ev)) d = {}"
  unfolding ui_defs
  by (intro conjI errors_refused errors_none)
    (auto simp: fits_def servers_or_error_def split: response.splits)

end
