(* ===== verification/Desktop.thy ===== *)
theory Desktop
  imports Ui
begin

section \<open>The tray and the window of the desktop client (\<open>ui/src-tauri/src/lib.rs\<close>)\<close>

text \<open>
  The closures \<open>run\<close> gives to Tauri: the setup that builds the tray and its menu, the handlers of
  the menu, of the tray icon and of a second launch, and the command that rewrites the header of
  the menu. Tauri is the record \<open>tauri\<close> of the calls made of it, over its state \<open>'a\<close> and the
  handles \<open>'i\<close> of menu items and \<open>'m\<close> of menus. Delivering the events is Tauri's, and so is
  finding a command by its name.
\<close>

record ('a, 'i, 'm) tauri =
  new_item :: "string \<Rightarrow> string \<Rightarrow> bool \<Rightarrow> ('a, 'i) action"
  new_separator :: "('a, 'i) action"
  new_menu :: "'i list \<Rightarrow> ('a, 'm) action"
  manage_status :: "'i \<Rightarrow> 'a \<Rightarrow> 'a"
  managed_status :: "'a \<Rightarrow> 'i option"
  has_window_icon :: "'a \<Rightarrow> bool"
  build_tray :: "string \<Rightarrow> string \<Rightarrow> 'm \<Rightarrow> ('a, unit) action"
  has_tray :: "string \<Rightarrow> 'a \<Rightarrow> bool"
  set_tooltip :: "string \<Rightarrow> string \<Rightarrow> ('a, unit) action"
  item_set_text :: "'i \<Rightarrow> string \<Rightarrow> ('a, unit) action"
  has_window :: "string \<Rightarrow> 'a \<Rightarrow> bool"
  unminimize :: "string \<Rightarrow> ('a, unit) action"
  show_window :: "string \<Rightarrow> ('a, unit) action"
  set_focus :: "string \<Rightarrow> ('a, unit) action"
  exit_app :: "int \<Rightarrow> 'a \<Rightarrow> 'a"

subsection \<open>The handlers\<close>

text \<open>\<open>get_webview_window\<close> names the window; each call's failure is ignored.\<close>

definition show_main :: "('a, 'i, 'm) tauri \<Rightarrow> 'a \<Rightarrow> 'a" where
  "show_main t a =
     (if has_window t ''main'' a
      then (let a1 = snd (unminimize t ''main'' a); a2 = snd (show_window t ''main'' a1)
            in snd (set_focus t ''main'' a2))
      else a)"

text \<open>\<open>app.state\<close> panics when nothing was managed: the command then ends in a panic.\<close>

definition set_tray_summary ::
  "('a, 'i, 'm) tauri \<Rightarrow> string \<Rightarrow> 'a \<Rightarrow> (fail + unit) \<times> 'a" where
  "set_tray_summary t summary a =
     (let a1 = (if has_tray t ''main'' a then snd (set_tooltip t ''main'' summary a) else a)
      in case managed_status t a1 of
           None \<Rightarrow> (Inl (Panic ''state not managed''), a1)
         | Some header \<Rightarrow>
             (case item_set_text t header summary a1 of
                (Inl e, a2) \<Rightarrow> (Inl (Err e), a2)
              | (Inr u, a2) \<Rightarrow> (Inr (), a2)))"

definition on_menu_event :: "('a, 'i, 'm) tauri \<Rightarrow> string \<Rightarrow> 'a \<Rightarrow> 'a" where
  "on_menu_event t event_id a =
     (if event_id = ''quit'' then exit_app t 0 a
      else if event_id = ''show'' then show_main t a
      else a)"

datatype mouse_button = Left_Button | Right_Button | Middle_Button

datatype button_state = Button_Up | Button_Down

datatype tray_icon_event = Click mouse_button button_state | Other_Tray_Event

definition on_tray_icon_event :: "('a, 'i, 'm) tauri \<Rightarrow> tray_icon_event \<Rightarrow> 'a \<Rightarrow> 'a" where
  "on_tray_icon_event t event a =
     (case event of
        Click Left_Button Button_Up \<Rightarrow> show_main t a
      | _ \<Rightarrow> a)"

definition on_second_launch :: "('a, 'i, 'm) tauri \<Rightarrow> 'a \<Rightarrow> 'a" where
  "on_second_launch t a = show_main t a"

subsection \<open>The setup\<close>

text \<open>The header reads "Wirefinder", a dash, "starting" and an ellipsis, in UTF-8.\<close>

definition starting_text :: string where
  "starting_text = ''Wirefinder '' @ [CHR 0xE2, CHR 0x80, CHR 0x94] @ '' starting'' @ [CHR 0xE2, CHR 0x80, CHR 0xA6]"

definition tray_setup :: "('a, 'i, 'm) tauri \<Rightarrow> 'a \<Rightarrow> (fail + unit) \<times> 'a" where
  "tray_setup t a =
     (case bindS (new_item t ''status'' starting_text False) (\<lambda>status.
           bindS (new_separator t) (\<lambda>sep.
           bindS (new_item t ''show'' ''Show Wirefinder'' True) (\<lambda>show.
           bindS (new_item t ''quit'' ''Quit'' True) (\<lambda>quit.
           bindS (new_menu t [status, sep, show, quit]) (\<lambda>menu.
             retS (status, menu)))))) a of
        (Inl e, a1) \<Rightarrow> (Inl (Err e), a1)
      | (Inr (status, menu), a1) \<Rightarrow>
          (let a2 = manage_status t status a1
           in if \<not> has_window_icon t a2
              then (Inl (Panic ''called `Option::unwrap()` on a `None` value''), a2)
              else (case build_tray t ''main'' ''Wirefinder'' menu a2 of
                      (Inl e, a3) \<Rightarrow> (Inl (Err e), a3)
                    | (Inr u, a3) \<Rightarrow> (Inr (), a3))))"

subsection \<open>A desktop\<close>

text \<open>
  Tauri as documented, on a desktop of one tray and at most one window: a call does what its name
  says, or fails and changes nothing. Which calls fail is part of the state, by name.
\<close>

record item =
  it_id :: string
  it_text :: string
  it_enabled :: bool

record window =
  win_minimized :: bool
  win_visible :: bool
  win_focused :: bool

record desktop =
  dk_items :: "item option list"
  dk_status :: "nat option"
  dk_tray :: "(string \<times> string \<times> nat list) option"
  dk_window :: "window option"
  dk_icon :: bool
  dk_exit :: "int option"
  dk_failing :: "string list"

definition may_fail :: "string \<Rightarrow> (desktop \<Rightarrow> 'b \<times> desktop) \<Rightarrow> (desktop, 'b) action" where
  "may_fail name f d =
     (if name \<in> set (dk_failing d) then (Inl name, d) else (case f d of (x, d') \<Rightarrow> (Inr x, d')))"

definition on_window :: "(window \<Rightarrow> window) \<Rightarrow> desktop \<Rightarrow> unit \<times> desktop" where
  "on_window f d = ((), d\<lparr>dk_window := map_option f (dk_window d)\<rparr>)"

definition desktop_tauri :: "(desktop, nat, nat list) tauri" where
  "desktop_tauri =
     \<lparr>new_item = (\<lambda>i text on. may_fail ''new_item'' (\<lambda>d. (length (dk_items d),
        d\<lparr>dk_items := dk_items d @ [Some \<lparr>it_id = i, it_text = text, it_enabled = on\<rparr>]\<rparr>))),
      new_separator = may_fail ''separator'' (\<lambda>d. (length (dk_items d), d\<lparr>dk_items := dk_items d @ [None]\<rparr>)),
      new_menu = (\<lambda>items. may_fail ''new_menu'' (\<lambda>d. (items, d))),
      manage_status = (\<lambda>i d. d\<lparr>dk_status := Some i\<rparr>),
      managed_status = dk_status,
      has_window_icon = dk_icon,
      build_tray = (\<lambda>i tip menu. may_fail ''build'' (\<lambda>d. ((), d\<lparr>dk_tray := Some (i, tip, menu)\<rparr>))),
      has_tray = (\<lambda>i d. case dk_tray d of Some (j, _) \<Rightarrow> i = j | None \<Rightarrow> False),
      set_tooltip = (\<lambda>i tip. may_fail ''set_tooltip'' (\<lambda>d. ((), d\<lparr>dk_tray := map_option (\<lambda>(i, _, menu). (i, tip, menu)) (dk_tray d)\<rparr>))),
      item_set_text = (\<lambda>i text. may_fail ''set_text'' (\<lambda>d. ((),
        d\<lparr>dk_items := (dk_items d)[i := map_option (it_text_update (\<lambda>_. text)) (dk_items d ! i)]\<rparr>))),
      has_window = (\<lambda>name d. name = ''main'' \<and> dk_window d \<noteq> None),
      unminimize = (\<lambda>_. may_fail ''unminimize'' (on_window (win_minimized_update (\<lambda>_. False)))),
      show_window = (\<lambda>_. may_fail ''show'' (on_window (win_visible_update (\<lambda>_. True)))),
      set_focus = (\<lambda>_. may_fail ''set_focus'' (on_window (win_focused_update (\<lambda>_. True)))),
      exit_app = (\<lambda>code d. d\<lparr>dk_exit := Some code\<rparr>)\<rparr>"

text \<open>A freshly started desktop, and the one the setup leaves.\<close>

definition blank_desktop :: "window option \<Rightarrow> bool \<Rightarrow> string list \<Rightarrow> desktop" where
  "blank_desktop w icon broken =
     \<lparr>dk_items = [], dk_status = None, dk_tray = None, dk_window = w, dk_icon = icon, dk_exit = None,
      dk_failing = broken\<rparr>"

lemmas desktop_ops = desktop_tauri_def may_fail_def on_window_def

text \<open>The setup succeeds exactly if no call it makes fails and there is an icon.\<close>

lemma tray_setup_desktop:
  "fst (tray_setup desktop_tauri (blank_desktop w icon broken)) = Inr () \<longleftrightarrow>
   icon \<and> {''new_item'', ''separator'', ''new_menu'', ''build''} \<inter> set broken = {}"
  by (simp add: tray_setup_def desktop_ops blank_desktop_def bindS_def retS_def Let_def)

definition running_desktop :: "window option \<Rightarrow> string list \<Rightarrow> desktop" where
  "running_desktop w broken = snd (tray_setup desktop_tauri (blank_desktop w True broken))"

lemma running_desktop_state:
  assumes "{''new_item'', ''separator'', ''new_menu'', ''build''} \<inter> set broken = {}"
  shows "running_desktop w broken =
    \<lparr>dk_items = [Some \<lparr>it_id = ''status'', it_text = starting_text, it_enabled = False\<rparr>, None,
       Some \<lparr>it_id = ''show'', it_text = ''Show Wirefinder'', it_enabled = True\<rparr>,
       Some \<lparr>it_id = ''quit'', it_text = ''Quit'', it_enabled = True\<rparr>],
     dk_status = Some 0, dk_tray = Some (''main'', ''Wirefinder'', [0, 1, 2, 3]), dk_window = w, dk_icon = True,
     dk_exit = None, dk_failing = broken\<rparr>"
  using assms by (simp add: running_desktop_def tray_setup_def desktop_ops blank_desktop_def bindS_def retS_def Let_def)

subsection \<open>Runs of events\<close>

datatype desktop_event =
    Second_Launch
  | Menu_Event string
  | Tray_Event tray_icon_event
  | Summary string

primrec desktop_step :: "desktop_event \<Rightarrow> desktop \<Rightarrow> desktop" where
  "desktop_step Second_Launch = on_second_launch desktop_tauri"
| "desktop_step (Menu_Event i) = on_menu_event desktop_tauri i"
| "desktop_step (Tray_Event e) = on_tray_icon_event desktop_tauri e"
| "desktop_step (Summary s) = (\<lambda>d. snd (set_tray_summary desktop_tauri s d))"

text \<open>The events that bring the window up, those that show a text in the header.\<close>

definition surfaces :: "desktop_event \<Rightarrow> bool" where
  "surfaces e \<longleftrightarrow> e \<in> {Second_Launch, Menu_Event ''show'', Tray_Event (Click Left_Button Button_Up)}"

lemma show_main_desktop:
  "show_main desktop_tauri d = d\<lparr>dk_window := map_option (\<lambda>w.
     \<lparr>win_minimized = win_minimized w \<and> ''unminimize'' \<in> set (dk_failing d),
      win_visible = (win_visible w \<or> ''show'' \<notin> set (dk_failing d)),
      win_focused = (win_focused w \<or> ''set_focus'' \<notin> set (dk_failing d))\<rparr>) (dk_window d)\<rparr>"
  by (cases "dk_window d") (simp_all add: show_main_def desktop_ops Let_def)

lemma desktop_step_cases:
  "desktop_step e d = (if surfaces e then show_main desktop_tauri d
     else case e of Menu_Event i \<Rightarrow> if i = ''quit'' then d\<lparr>dk_exit := Some 0\<rparr> else d
       | Summary s \<Rightarrow> snd (set_tray_summary desktop_tauri s d) | _ \<Rightarrow> d)"
  by (cases e)
    (auto simp: surfaces_def on_second_launch_def on_menu_event_def on_tray_icon_event_def desktop_ops
      split: tray_icon_event.splits mouse_button.splits button_state.splits)

definition header :: "desktop \<Rightarrow> string option" where
  "header d = (case dk_status d of None \<Rightarrow> None | Some i \<Rightarrow> map_option it_text (dk_items d ! i))"

text \<open>A desktop whose tray was set up: the header is the first entry of the menu.\<close>

definition set_up :: "string list \<Rightarrow> desktop \<Rightarrow> bool" where
  "set_up broken d \<longleftrightarrow>
     dk_status d = Some 0 \<and> dk_failing d = broken
     \<and> (\<exists>text. dk_items d = [Some \<lparr>it_id = ''status'', it_text = text, it_enabled = False\<rparr>, None,
          Some \<lparr>it_id = ''show'', it_text = ''Show Wirefinder'', it_enabled = True\<rparr>,
          Some \<lparr>it_id = ''quit'', it_text = ''Quit'', it_enabled = True\<rparr>])
     \<and> (\<exists>tip. dk_tray d = Some (''main'', tip, [0, 1, 2, 3]))"

lemma set_up_start:
  "{''new_item'', ''separator'', ''new_menu'', ''build''} \<inter> set broken = {} \<Longrightarrow>
   set_up broken (running_desktop w broken)"
  by (simp add: set_up_def running_desktop_state)

text \<open>A summary: its result is the header's, whatever becomes of the tooltip.\<close>

lemma set_tray_summary_desktop:
  assumes "set_up broken d"
  shows "fst (set_tray_summary desktop_tauri s d) = (if ''set_text'' \<in> set broken then Inl (Err ''set_text'') else Inr ())"
    and "header (snd (set_tray_summary desktop_tauri s d)) = (if ''set_text'' \<in> set broken then header d else Some s)"
    and "set_up broken (snd (set_tray_summary desktop_tauri s d))"
    and "dk_exit (snd (set_tray_summary desktop_tauri s d)) = dk_exit d"
    and "dk_window (snd (set_tray_summary desktop_tauri s d)) = dk_window d"
  using assms by (auto simp: set_up_def set_tray_summary_def desktop_ops header_def Let_def)

lemma show_main_others:
  "set_up broken d \<Longrightarrow> set_up broken (show_main desktop_tauri d)"
  "header (show_main desktop_tauri d) = header d" "dk_exit (show_main desktop_tauri d) = dk_exit d"
  by (simp_all add: show_main_desktop set_up_def header_def cong: option.case_cong)

text \<open>The last summary of a run.\<close>

fun last_summary :: "desktop_event list \<Rightarrow> string option" where
  "last_summary [] = None"
| "last_summary (Summary s # es) = (case last_summary es of None \<Rightarrow> Some s | Some t \<Rightarrow> Some t)"
| "last_summary (_ # es) = last_summary es"

text \<open>
  Along every run: the menu keeps its entries, its header shows the last summary, the client
  exits exactly if "quit" was chosen, with the code 0, and no event hides the window again once
  one has brought it up.
\<close>

definition up :: "string list \<Rightarrow> window \<Rightarrow> bool" where
  "up broken w \<longleftrightarrow> (win_minimized w \<longrightarrow> ''unminimize'' \<in> set broken)
     \<and> (win_visible w \<or> ''show'' \<in> set broken) \<and> (win_focused w \<or> ''set_focus'' \<in> set broken)"

lemma desktop_step_keeps:
  assumes "set_up broken d"
  shows "set_up broken (desktop_step e d)"
    "dk_exit (desktop_step e d) = (if e = Menu_Event ''quit'' then Some 0 else dk_exit d)"
    "''set_text'' \<notin> set broken \<Longrightarrow>
      header (desktop_step e d) = (case last_summary [e] of Some s \<Rightarrow> Some s | None \<Rightarrow> header d)"
    "dk_window (desktop_step e d) = None \<longleftrightarrow> dk_window d = None"
    "dk_window d = Some w \<Longrightarrow> surfaces e \<or> up broken w \<Longrightarrow> dk_window (desktop_step e d) = Some w' \<Longrightarrow> up broken w'"
  using assms set_tray_summary_desktop [OF assms] show_main_others(1) [OF assms] show_main_others(2,3) [of d]
  by (auto simp: desktop_step_cases surfaces_def up_def show_main_desktop set_up_def header_def
      split: desktop_event.splits if_splits)

lemma desktop_run:
  assumes "set_up broken d"
  shows "set_up broken (fold desktop_step es d)"
    "dk_exit (fold desktop_step es d) = (if Menu_Event ''quit'' \<in> set es then Some 0 else dk_exit d)"
    "''set_text'' \<notin> set broken \<Longrightarrow>
      header (fold desktop_step es d) = (case last_summary es of Some s \<Rightarrow> Some s | None \<Rightarrow> header d)"
  using assms
proof (induction es arbitrary: d)
  case Nil
  {
    case 1 then show ?case by simp
  next
    case 2 then show ?case by simp
  next
    case 3 then show ?case by simp
  }
next
  case (Cons e es)
  {
    case 1 then show ?case using Cons.IH(1) desktop_step_keeps(1) by (simp del: desktop_step.simps)
  next
    case 2 then show ?case using Cons.IH(2) desktop_step_keeps(1,2) by (auto simp del: desktop_step.simps)
  next
    case 3 then show ?case
      using Cons.IH(3) [of "desktop_step e d"] desktop_step_keeps(1,3) [of broken d e]
      by (cases e) (auto simp del: desktop_step.simps split: option.split)
  }
qed

lemma desktop_run_surfaces:
  assumes "set_up broken d" "dk_window d = Some w" "up broken w \<or> (\<exists>e \<in> set es. surfaces e)"
  shows "\<exists>w'. dk_window (fold desktop_step es d) = Some w' \<and> up broken w'"
  using assms
proof (induction es arbitrary: d w)
  case (Cons e es)
  obtain w1 where w1: "dk_window (desktop_step e d) = Some w1"
    using desktop_step_keeps(4) [OF Cons.prems(1), of e] Cons.prems(2) by auto
  with desktop_step_keeps(5) [OF Cons.prems(1,2)] Cons.prems(3) have "up broken w1 \<or> (\<exists>e \<in> set es. surfaces e)"
    by auto
  with Cons.IH [OF desktop_step_keeps(1) [OF Cons.prems(1)] w1] show ?case by simp
qed simp

end
