(* ===== verification/Literals.thy ===== *)
theory Literals
  imports Wgconf
begin

section \<open>Evaluation on literal text\<close>

text \<open>
  The tests of the repository run its functions on literal strings. The facts here let the
  simplifier do the same: trimming of ASCII text, lower case letter by letter, the texts of
  small numbers, and the text of a list of lines.
\<close>

named_theorems literal_simps "evaluation of the string functions on literals"

definition ascii_blank :: "char \<Rightarrow> bool" where
  "ascii_blank c \<longleftrightarrow> [c] \<in> set ascii_ws"

definition ascii_char :: "char \<Rightarrow> bool" where
  "ascii_char c \<longleftrightarrow> (of_char c :: nat) < 128"

lemma ascii_ws_blanks: "ascii_ws = map (\<lambda>c. [c]) [CHR 0x20, CHR 0x09, CHR 0x0A, CHR 0x0B, CHR 0x0C, CHR 0x0D]"
  by (simp add: ascii_ws_def)

lemma wide_ws_ends: "\<forall>w \<in> set wide_ws. w \<noteq> [] \<and> \<not> ascii_char (hd w) \<and> \<not> ascii_char (last w)"
  by (simp add: wide_ws_def ascii_char_def)

lemma find_single: "find (\<lambda>w. w \<noteq> [] \<and> prefix w (c # s)) (map (\<lambda>d. [d]) ds @ ws)
    = (if c \<in> set ds then Some [c] else find (\<lambda>w. w \<noteq> [] \<and> prefix w (c # s)) ws)"
  by (induction ds) auto

lemma find_blank_ascii:
  assumes "ascii_char c" "ws = white_space \<or> ws = map rev white_space"
  shows "find (\<lambda>w. w \<noteq> [] \<and> prefix w (c # s)) ws = (if ascii_blank c then Some [c] else None)"
proof -
  have blank: "ascii_blank c \<longleftrightarrow> c \<in> set [CHR 0x20, CHR 0x09, CHR 0x0A, CHR 0x0B, CHR 0x0C, CHR 0x0D]"
    unfolding ascii_blank_def ascii_ws_blanks by auto
  have wide: "find (\<lambda>w. w \<noteq> [] \<and> prefix w (c # s)) vs = None"
    if "vs = wide_ws \<or> vs = map rev wide_ws" for vs
  proof -
    have "\<forall>w \<in> set vs. w \<noteq> [] \<and> \<not> ascii_char (hd w)"
      using that wide_ws_ends by (auto simp: hd_rev)
    then show ?thesis
      unfolding find_None_iff using assms(1) by (auto simp: prefix_def Cons_eq_append_conv)
  qed
  have single: "map rev ascii_ws = ascii_ws" by (simp add: ascii_ws_def)
  have "ws = ascii_ws @ wide_ws \<or> ws = ascii_ws @ map rev wide_ws"
    using assms(2) by (auto simp: white_space_def single)
  then show ?thesis
    unfolding ascii_ws_blanks blank using wide [of wide_ws] wide [of "map rev wide_ws"]
    by (elim disjE) (simp_all only: find_single simp_thms)
qed

lemma strip_front_ascii:
  assumes "ws = white_space \<or> ws = map rev white_space"
  shows "list_all ascii_char s \<Longrightarrow> strip_front ws s = dropWhile ascii_blank s"
proof (induction s)
  case Nil
  have "find (\<lambda>w. w \<noteq> [] \<and> prefix w []) ws = None" by (simp add: find_None_iff)
  then show ?case by (subst strip_front.simps) simp
next
  case (Cons c s)
  then have "find (\<lambda>w. w \<noteq> [] \<and> prefix w (c # s)) ws = (if ascii_blank c then Some [c] else None)"
    using assms find_blank_ascii [of c ws s] by simp
  with Cons show ?case by (subst strip_front.simps) simp
qed

lemma trim_ascii [literal_simps]:
  "list_all ascii_char s \<Longrightarrow> trim s = rev (dropWhile ascii_blank (rev (dropWhile ascii_blank s)))"
proof -
  assume s: "list_all ascii_char s"
  then have "list_all ascii_char (rev (dropWhile ascii_blank s))"
    by (auto simp: list_all_iff dest: set_dropWhileD)
  with s show ?thesis
    by (simp add: trim_def trim_start_def trim_end_def strip_front_ascii)
qed

lemma ascii_char_Char [literal_simps]: "ascii_char (Char a b c d e f g h) \<longleftrightarrow> \<not> h"
  by (cases a; cases b; cases c; cases d; cases e; cases f; cases g; cases h)
    (simp_all add: ascii_char_def)

lemma ascii_blank_eval [literal_simps]:
  "ascii_blank c \<longleftrightarrow> c = CHR 0x20 \<or> c = CHR 0x09 \<or> c = CHR 0x0A \<or> c = CHR 0x0B \<or> c = CHR 0x0C
     \<or> c = CHR 0x0D"
  by (simp add: ascii_blank_def ascii_ws_def)

lemma ascii_lower_letters [literal_simps]:
  "ascii_lower CHR ''A'' = CHR ''a''" "ascii_lower CHR ''B'' = CHR ''b''"
  "ascii_lower CHR ''C'' = CHR ''c''" "ascii_lower CHR ''D'' = CHR ''d''"
  "ascii_lower CHR ''E'' = CHR ''e''" "ascii_lower CHR ''F'' = CHR ''f''"
  "ascii_lower CHR ''G'' = CHR ''g''" "ascii_lower CHR ''H'' = CHR ''h''"
  "ascii_lower CHR ''I'' = CHR ''i''" "ascii_lower CHR ''J'' = CHR ''j''"
  "ascii_lower CHR ''K'' = CHR ''k''" "ascii_lower CHR ''L'' = CHR ''l''"
  "ascii_lower CHR ''M'' = CHR ''m''" "ascii_lower CHR ''N'' = CHR ''n''"
  "ascii_lower CHR ''O'' = CHR ''o''" "ascii_lower CHR ''P'' = CHR ''p''"
  "ascii_lower CHR ''Q'' = CHR ''q''" "ascii_lower CHR ''R'' = CHR ''r''"
  "ascii_lower CHR ''S'' = CHR ''s''" "ascii_lower CHR ''T'' = CHR ''t''"
  "ascii_lower CHR ''U'' = CHR ''u''" "ascii_lower CHR ''V'' = CHR ''v''"
  "ascii_lower CHR ''W'' = CHR ''w''" "ascii_lower CHR ''X'' = CHR ''x''"
  "ascii_lower CHR ''Y'' = CHR ''y''" "ascii_lower CHR ''Z'' = CHR ''z''"
  by code_simp+

text \<open>Characters with bit 6 clear or bit 5 set are no capital letters.\<close>

lemma ascii_lower_others [literal_simps]:
  "ascii_lower (Char a b c d e True g h) = Char a b c d e True g h"
  "ascii_lower (Char a b c d e f False h) = Char a b c d e f False h"
  by (cases a; cases b; cases c; cases d; cases e; cases f; cases g; cases h;
      simp add: ascii_lower_def)+

lemma show_nat_digit [literal_simps]:
  "show_nat 0 = ''0''" "show_nat 1 = ''1''" "show_nat 2 = ''2''" "show_nat 3 = ''3''" "show_nat 4 = ''4''"
  "show_nat 5 = ''5''" "show_nat 6 = ''6''" "show_nat 7 = ''7''" "show_nat 8 = ''8''"
  "show_nat 9 = ''9''"
  by (simp_all add: show_nat.simps digit_char_def char_of_def bit_0)

text \<open>The parser counts its lines with successors.\<close>

lemma show_nat_Suc [literal_simps]:
  "show_nat (Suc 0) = ''1''" "show_nat (Suc (Suc 0)) = ''2''" "show_nat (Suc (Suc (Suc 0))) = ''3''"
  "show_nat (Suc (Suc (Suc (Suc 0)))) = ''4''" "show_nat (Suc (Suc (Suc (Suc (Suc 0))))) = ''5''"
  using show_nat_digit(2-6) by (simp_all add: numeral_eq_Suc)

definition unlines :: "string list \<Rightarrow> string" where
  "unlines ls = concat (map (\<lambda>l. l @ [CHR 0x0A]) ls)"

lemma str_lines_unlines [literal_simps]:
  "list_all (\<lambda>l. CHR 0x0A \<notin> set l) ls \<Longrightarrow>
   str_lines (unlines ls) = map (\<lambda>l. or_self (strip_suffix_char CHR 0x0D l) l) ls"
  by (induction ls) (simp_all add: unlines_def str_lines_line)

lemmas [literal_simps] = to_ascii_lowercase_def eq_ignore_ascii_case_def strip_suffix_char_def
  strip_prefix_char_def or_self_def before_char_def quoted_def parse_u16_def parse_u32_def
  parse_unsigned_def is_digit_def digit_value_def digits_value_def Let_def

lemmas [literal_simps] = parse_def parse_line_def line_content_def section_header_def open_section_def
  key_value_def csv_def parse_start_def iface_default_def peer_acc_default_def interface_key_def
  peer_key_def set_scalar_def parse_num_def finish_def at_line_def

subsection \<open>The vocabulary of the tests\<close>

text \<open>
  \<open>unwrap\<close> followed by assertions, and \<open>unwrap_err\<close> followed by assertions: what the other
  outcome would make a panic fails the test.
\<close>

definition unwraps :: "'e + 'a \<Rightarrow> ('a \<Rightarrow> bool) \<Rightarrow> bool" where
  "unwraps r P \<longleftrightarrow> (case r of Inl _ \<Rightarrow> False | Inr x \<Rightarrow> P x)"

definition unwraps_err :: "'e + 'a \<Rightarrow> ('e \<Rightarrow> bool) \<Rightarrow> bool" where
  "unwraps_err r P \<longleftrightarrow> (case r of Inl e \<Rightarrow> P e | Inr _ \<Rightarrow> False)"

lemma unwraps_simps [simp]:
  "unwraps (Inr x) P \<longleftrightarrow> P x" "\<not> unwraps (Inl e) P"
  "unwraps_err (Inl e) Q \<longleftrightarrow> Q e" "\<not> unwraps_err (Inr x) Q"
  by (simp_all add: unwraps_def unwraps_err_def)

end
