(* ===== verification/Wgconf_Tests.thy ===== *)
theory Wgconf_Tests
  imports Literals
begin

section \<open>The tests of the wg-quick parser\<close>

text \<open>
  The unit tests of \<open>wgconf.rs\<close>, each as an executable proposition about the model's parser
  under the name it has there, and the proof that the model passes it. A text is the list of
  its lines.
\<close>

definition FULL :: string where
  "FULL = unlines
     [''[Interface]'', ''PrivateKey = aGVsbG8='', ''Address = 10.64.0.2/32, fc00:bbbb::2/128'',
      ''DNS = 10.64.0.1, 1.1.1.1'', ''ListenPort = 51820'', ''MTU = 1380'', '''',
      ''[Peer]'', ''PublicKey = c2VydmVy'', ''Endpoint = 1.2.3.4:51820'',
      ''AllowedIPs = 0.0.0.0/0, ::/0'', ''PresharedKey = cHNr'', ''PersistentKeepalive = 25'']"

definition parses_a_full_mullvad_style_config :: bool where
  "parses_a_full_mullvad_style_config \<longleftrightarrow> unwraps (parse FULL) (\<lambda>c.
     pc_private_key c = ''aGVsbG8='' \<and> pc_addresses c = [''10.64.0.2/32'', ''fc00:bbbb::2/128'']
     \<and> pc_dns c = [''10.64.0.1'', ''1.1.1.1''] \<and> pc_listen_port c = Some 51820
     \<and> pc_mtu c = Some 1380 \<and> pc_public_key c = ''c2VydmVy'' \<and> pc_endpoint c = ''1.2.3.4:51820''
     \<and> pc_allowed_ips c = [''0.0.0.0/0'', ''::/0''] \<and> pc_preshared_key c = Some ''cHNr''
     \<and> pc_keepalive c = Some 25)"

definition parses_a_minimal_client_config :: bool where
  "parses_a_minimal_client_config \<longleftrightarrow>
     unwraps (parse (unlines
       [''[Interface]'', ''PrivateKey = k'', ''Address = 10.0.0.2/24'',
        ''[Peer]'', ''PublicKey = p'', ''Endpoint = h:51820'', ''AllowedIPs = 0.0.0.0/0'']))
     (\<lambda>c. pc_dns c = [] \<and> pc_listen_port c = None \<and> pc_mtu c = None \<and> pc_keepalive c = None
        \<and> pc_preshared_key c = None)"

definition crlf_line :: "string \<Rightarrow> string" where
  "crlf_line l = l @ [CHR 0x0D]"

definition comments_blank_lines_and_crlf_are_handled :: bool where
  "comments_blank_lines_and_crlf_are_handled \<longleftrightarrow>
     unwraps (parse (unlines (map crlf_line
       [''# a header comment'', '''', ''[Interface]'', ''PrivateKey = k'',
        ''Address = 10.0.0.2/24 # trailing'', '''', ''[Peer]'', ''PublicKey = p'',
        ''Endpoint = h:51820'', ''AllowedIPs = 0.0.0.0/0''])))
     (\<lambda>c. pc_private_key c = ''k'' \<and> pc_addresses c = [''10.0.0.2/24''] \<and> pc_endpoint c = ''h:51820'')"

definition semicolon_is_not_a_comment_delimiter :: bool where
  "semicolon_is_not_a_comment_delimiter \<longleftrightarrow>
     unwraps (parse (unlines
       [''[Interface]'', ''PrivateKey = k;x'', ''Address = 10.0.0.2/24'',
        ''[Peer]'', ''PublicKey = p'', ''Endpoint = h:51820'', ''AllowedIPs = 0.0.0.0/0'']))
     (\<lambda>c. pc_private_key c = ''k;x'')"

definition sections_and_keys_are_case_insensitive :: bool where
  "sections_and_keys_are_case_insensitive \<longleftrightarrow>
     unwraps (parse (unlines
       [''[interface]'', ''privatekey = k'', ''ADDRESS = 10.0.0.2/24'',
        ''[PEER]'', ''PublicKey = p'', ''endPoint = h:51820'', ''allowedips = 0.0.0.0/0'']))
     (\<lambda>c. pc_private_key c = ''k'' \<and> pc_endpoint c = ''h:51820'')"

definition whitespace_and_ragged_comma_lists_are_trimmed :: bool where
  "whitespace_and_ragged_comma_lists_are_trimmed \<longleftrightarrow>
     unwraps (parse (unlines
       [''[Interface]'', ''PrivateKey   =   k'', ''Address = 10.0.0.2/24 ,10.0.0.3/24'',
        ''[Peer]'', ''PublicKey=p'', ''Endpoint=h:51820'', ''AllowedIPs = 0.0.0.0/0'']))
     (\<lambda>c. pc_addresses c = [''10.0.0.2/24'', ''10.0.0.3/24''])"

definition list_keys_accumulate_across_repeats :: bool where
  "list_keys_accumulate_across_repeats \<longleftrightarrow>
     unwraps (parse (unlines
       [''[Interface]'', ''PrivateKey = k'', ''Address = 10.0.0.2/24'',
        ''[Peer]'', ''PublicKey = p'', ''Endpoint = h:51820'',
        ''AllowedIPs = 0.0.0.0/0'', ''AllowedIPs = ::/0'']))
     (\<lambda>c. pc_allowed_ips c = [''0.0.0.0/0'', ''::/0''])"

definition unknown_keys_are_ignored :: bool where
  "unknown_keys_are_ignored \<longleftrightarrow>
     unwraps (parse (unlines
       [''[Interface]'', ''PrivateKey = k'', ''Address = 10.0.0.2/24'', ''Table = off'', ''PostUp = true'',
        ''[Peer]'', ''PublicKey = p'', ''Endpoint = h:51820'', ''AllowedIPs = 0.0.0.0/0'']))
     (\<lambda>c. pc_private_key c = ''k'')"

definition missing_allowed_ips_defaults_to_full_tunnel :: bool where
  "missing_allowed_ips_defaults_to_full_tunnel \<longleftrightarrow>
     unwraps (parse (unlines
       [''[Interface]'', ''PrivateKey = k'', ''Address = 10.0.0.2/24'',
        ''[Peer]'', ''PublicKey = p'', ''Endpoint = h:51820'']))
     (\<lambda>c. pc_allowed_ips c = [''0.0.0.0/0''])"

subsection \<open>Rejected texts\<close>

text \<open>The helper \<open>err\<close> of the tests followed by \<open>contains\<close>; a panic is no error message.\<close>

definition err_contains :: "string \<Rightarrow> string \<Rightarrow> bool" where
  "err_contains text part \<longleftrightarrow>
     unwraps_err (parse text) (\<lambda>f. case f of Err e \<Rightarrow> str_contains e part | Panic _ \<Rightarrow> False)"

definition structural_errors_are_named :: bool where
  "structural_errors_are_named \<longleftrightarrow>
     err_contains (unlines []) ''missing [Interface]''
     \<and> err_contains (unlines [''[Peer]'', ''PublicKey = p'', ''Endpoint = h:1'']) ''missing [Interface]''
     \<and> err_contains (unlines [''[Interface]'', ''PrivateKey = k'', ''Address = a'']) ''missing [Peer]''
     \<and> err_contains
         (unlines [''[Interface]'', ''Address = a'', ''[Peer]'', ''PublicKey = p'', ''Endpoint = h:1''])
         ''missing PrivateKey''
     \<and> err_contains
         (unlines [''[Interface]'', ''PrivateKey = k'', ''[Peer]'', ''PublicKey = p'', ''Endpoint = h:1''])
         ''missing Address''
     \<and> err_contains
         (unlines [''[Interface]'', ''PrivateKey = k'', ''Address = a'', ''[Peer]'', ''Endpoint = h:1''])
         ''missing PublicKey''
     \<and> err_contains
         (unlines [''[Interface]'', ''PrivateKey = k'', ''Address = a'', ''[Peer]'', ''PublicKey = p''])
         ''missing Endpoint''"

definition multiple_peers_are_rejected :: bool where
  "multiple_peers_are_rejected \<longleftrightarrow>
     err_contains
       (unlines [''[Interface]'', ''PrivateKey = k'', ''Address = a'',
          ''[Peer]'', ''PublicKey = p1'', ''Endpoint = h:1'', ''AllowedIPs = 0.0.0.0/0'',
          ''[Peer]'', ''PublicKey = p2'', ''Endpoint = h:2'', ''AllowedIPs = 0.0.0.0/0''])
       ''one peer per config''"

definition multiple_interfaces_are_rejected :: bool where
  "multiple_interfaces_are_rejected \<longleftrightarrow>
     err_contains (unlines [''[Interface]'', ''PrivateKey = k'', ''[Interface]'']) ''multiple [Interface]''"

definition unknown_section_is_rejected :: bool where
  "unknown_section_is_rejected \<longleftrightarrow> err_contains (unlines [''[Bogus]'', ''x = y'']) ''unknown section''"

definition key_value_before_a_section_is_rejected :: bool where
  "key_value_before_a_section_is_rejected \<longleftrightarrow>
     err_contains (unlines [''PrivateKey = k'']) ''before any section''"

definition a_line_without_equals_is_rejected :: bool where
  "a_line_without_equals_is_rejected \<longleftrightarrow>
     err_contains (unlines [''[Interface]'', ''PrivateKey foo''])
       (''expected '' @ [CHR 0x27] @ ''key = value'' @ [CHR 0x27])"

definition non_numeric_port_is_rejected :: bool where
  "non_numeric_port_is_rejected \<longleftrightarrow>
     err_contains
       (unlines [''[Interface]'', ''PrivateKey = k'', ''Address = a'', ''ListenPort = abc'',
          ''[Peer]'', ''PublicKey = p'', ''Endpoint = h:1'', ''AllowedIPs = 0.0.0.0/0''])
       ''must be a number''"

definition duplicate_scalar_key_is_rejected :: bool where
  "duplicate_scalar_key_is_rejected \<longleftrightarrow>
     err_contains
       (unlines [''[Interface]'', ''PrivateKey = k'', ''PrivateKey = k2'', ''Address = a'',
          ''[Peer]'', ''PublicKey = p'', ''Endpoint = h:1''])
       (''duplicate '' @ [CHR 0x27] @ ''PrivateKey'' @ [CHR 0x27])"

definition junk_input_errors_without_panicking :: bool where
  "junk_input_errors_without_panicking \<longleftrightarrow>
     list_all (\<lambda>text. unwraps_err (parse text) (\<lambda>f. case f of Err _ \<Rightarrow> True | Panic _ \<Rightarrow> False))
       [''hello world'', [CHR 0x00, CHR 0x00, CHR 0x00]]"

subsection \<open>The model passes them\<close>

lemma parses_a_full_mullvad_style_config_passes: parses_a_full_mullvad_style_config
  by (simp add: parses_a_full_mullvad_style_config_def FULL_def literal_simps)

lemma parses_a_minimal_client_config_passes: parses_a_minimal_client_config
  by (simp add: parses_a_minimal_client_config_def literal_simps)

lemma comments_blank_lines_and_crlf_are_handled_passes: comments_blank_lines_and_crlf_are_handled
  by (simp add: comments_blank_lines_and_crlf_are_handled_def crlf_line_def literal_simps)

lemma semicolon_is_not_a_comment_delimiter_passes: semicolon_is_not_a_comment_delimiter
  by (simp add: semicolon_is_not_a_comment_delimiter_def literal_simps)

lemma sections_and_keys_are_case_insensitive_passes: sections_and_keys_are_case_insensitive
  by (simp add: sections_and_keys_are_case_insensitive_def literal_simps)

lemma whitespace_and_ragged_comma_lists_are_trimmed_passes:
  whitespace_and_ragged_comma_lists_are_trimmed
  by (simp add: whitespace_and_ragged_comma_lists_are_trimmed_def literal_simps)

lemma list_keys_accumulate_across_repeats_passes: list_keys_accumulate_across_repeats
  by (simp add: list_keys_accumulate_across_repeats_def literal_simps)

lemma unknown_keys_are_ignored_passes: unknown_keys_are_ignored
  by (simp add: unknown_keys_are_ignored_def literal_simps)

lemma missing_allowed_ips_defaults_to_full_tunnel_passes: missing_allowed_ips_defaults_to_full_tunnel
  by (simp add: missing_allowed_ips_defaults_to_full_tunnel_def literal_simps)

lemma structural_errors_are_named_passes: structural_errors_are_named
  by (simp add: structural_errors_are_named_def err_contains_def literal_simps)

lemma multiple_peers_are_rejected_passes: multiple_peers_are_rejected
  by (simp add: multiple_peers_are_rejected_def err_contains_def literal_simps)

lemma multiple_interfaces_are_rejected_passes: multiple_interfaces_are_rejected
  by (simp add: multiple_interfaces_are_rejected_def err_contains_def literal_simps)

lemma unknown_section_is_rejected_passes: unknown_section_is_rejected
  by (simp add: unknown_section_is_rejected_def err_contains_def literal_simps)

lemma key_value_before_a_section_is_rejected_passes: key_value_before_a_section_is_rejected
  by (simp add: key_value_before_a_section_is_rejected_def err_contains_def literal_simps)

lemma a_line_without_equals_is_rejected_passes: a_line_without_equals_is_rejected
  by (simp add: a_line_without_equals_is_rejected_def err_contains_def literal_simps)

lemma non_numeric_port_is_rejected_passes: non_numeric_port_is_rejected
  by (simp add: non_numeric_port_is_rejected_def err_contains_def literal_simps)

lemma duplicate_scalar_key_is_rejected_passes: duplicate_scalar_key_is_rejected
  by (simp add: duplicate_scalar_key_is_rejected_def err_contains_def literal_simps)

lemma junk_input_errors_without_panicking_passes: junk_input_errors_without_panicking
  by (simp add: junk_input_errors_without_panicking_def literal_simps str_lines_def)

end
