(* ===== verification/Cli_Tests.thy ===== *)
theory Cli_Tests
  imports Cli Literals
begin

section \<open>The tests of the command-line client\<close>

text \<open>
  The unit tests of \<open>cli/src/main.rs\<close>, each as an executable proposition about the model under
  the name it has there, and the proof that the model passes it. The temporary directory of
  the import test is any directory.
\<close>

definition parses_simple_commands :: bool where
  "parses_simple_commands \<longleftrightarrow>
     parse_request [''info''] = Some ReqStatus
     \<and> parse_request [''servers''] = Some (ReqListServers None)
     \<and> parse_request [''servers'', ''nyc''] = Some (ReqListServers (Some ''nyc''))
     \<and> parse_request [''disconnect''] = Some ReqDisconnect
     \<and> parse_request [''switch'', ''nexus''] = Some (ReqSwitchServer ''nexus'')
     \<and> parse_request [''remove'', ''decoy''] = Some (ReqRemoveServer ''decoy'')"

definition removed_commands_are_no_longer_recognized :: bool where
  "removed_commands_are_no_longer_recognized \<longleftrightarrow>
     parse_request [''connect''] = None
     \<and> parse_request [''setup''] = None
     \<and> parse_request [''configure'', ''51820''] = None"

text \<open>\<open>let Request::AddServer \{ server \} = ... else panic\<close>, followed by assertions.\<close>

definition adds :: "request option \<Rightarrow> (server_spec \<Rightarrow> bool) \<Rightarrow> bool" where
  "adds r P \<longleftrightarrow> (case r of Some (ReqAddServer server) \<Rightarrow> P server | _ \<Rightarrow> False)"

definition add_generates_a_key_takes_an_address_and_splits_allowed_ips :: bool where
  "add_generates_a_key_takes_an_address_and_splits_allowed_ips \<longleftrightarrow>
     adds (parse_request [''add'', ''edge'', ''PUBKEY'', ''h:51820'', ''10.0.0.2/24'']) (\<lambda>server.
       spec_private_key server = None \<and> spec_addresses server = [''10.0.0.2/24'']
       \<and> spec_allowed_ips server = [''0.0.0.0/0'', ''::/0''])
     \<and> adds (parse_request [''add'', ''edge'', ''PUBKEY'', ''h:51820'', ''10.0.0.2/24'',
         ''10.0.0.0/24,192.168.1.0/24'']) (\<lambda>server.
       spec_allowed_ips server = [''10.0.0.0/24'', ''192.168.1.0/24''])"

definition unknown_and_malformed_commands_are_rejected :: bool where
  "unknown_and_malformed_commands_are_rejected \<longleftrightarrow>
     parse_request [''bogus''] = None
     \<and> parse_request [''switch''] = None
     \<and> parse_request [''add'', ''edge'', ''PUBKEY'', ''h:51820''] = None"

text \<open>A file system that holds one file.\<close>

definition one_file :: "string \<Rightarrow> string \<Rightarrow> string \<Rightarrow> string result" where
  "one_file path content p =
     (if p = path then Inr content else Inl ''No such file or directory (os error 2)'')"

definition import_reads_a_file_and_defaults_the_name_to_the_stem :: "string \<Rightarrow> bool" where
  "import_reads_a_file_and_defaults_the_name_to_the_stem dir \<longleftrightarrow>
     (let path = dir @ ''/'' @ ''mullvad-nyc.conf''; read = one_file path (''[Interface]'' @ [CHR 0x0A])
      in unwraps (import_request read path None) (\<lambda>r.
           r = ReqImportServer ''mullvad-nyc'' (''[Interface]'' @ [CHR 0x0A]))
         \<and> unwraps (import_request read path (Some ''work'')) (\<lambda>r.
           case r of ReqImportServer name conf \<Rightarrow> name = ''work'' | _ \<Rightarrow> False))"

definition import_of_a_missing_file_errors :: "string \<Rightarrow> bool" where
  "import_of_a_missing_file_errors path \<longleftrightarrow>
     unwraps_err (import_request (one_file path []) ''/no/such/file.conf'' None) (\<lambda>_. True)"

subsection \<open>The model passes them\<close>

lemma parses_simple_commands_passes: parses_simple_commands
  by (simp add: parses_simple_commands_def parse_request_def)

lemma removed_commands_are_no_longer_recognized_passes: removed_commands_are_no_longer_recognized
  by (simp add: removed_commands_are_no_longer_recognized_def parse_request_def)

lemma add_generates_a_key_takes_an_address_and_splits_allowed_ips_passes:
  add_generates_a_key_takes_an_address_and_splits_allowed_ips
  by (simp add: add_generates_a_key_takes_an_address_and_splits_allowed_ips_def adds_def
      parse_request_def parse_allowed_ips_def literal_simps)

lemma unknown_and_malformed_commands_are_rejected_passes: unknown_and_malformed_commands_are_rejected
  by (simp add: unknown_and_malformed_commands_are_rejected_def parse_request_def)

lemma stem_of_the_imported_file: "file_stem (dir @ CHR ''/'' # ''mullvad-nyc.conf'') = ''mullvad-nyc''"
proof -
  have "last_component (dir @ CHR ''/'' # ''mullvad-nyc.conf'') = ''mullvad-nyc.conf''"
    by (rule last_component_append) simp_all
  moreover have "utf8_valid ''mullvad-nyc''"
    by (rule utf8_valid_ascii) simp
  ultimately show ?thesis
    by (simp add: file_stem_def path_file_stem_def file_name_def stem_of_def Let_def)
qed

lemma import_reads_a_file_and_defaults_the_name_to_the_stem_passes:
  "import_reads_a_file_and_defaults_the_name_to_the_stem dir"
  by (simp add: import_reads_a_file_and_defaults_the_name_to_the_stem_def import_request_def
      one_file_def stem_of_the_imported_file)

lemma import_of_a_missing_file_errors_passes:
  "path \<noteq> ''/no/such/file.conf'' \<Longrightarrow> import_of_a_missing_file_errors path"
  by (auto simp: import_of_a_missing_file_errors_def import_request_def one_file_def)

end
