(* ===== verification/Crate_Fixtures.thy ===== *)
theory Crate_Fixtures
  imports Kernel Literals
begin

section \<open>The WireGuard crate in the tests\<close>

text \<open>
  The tests of the daemon run the real crate on a few literals. What they rely on is the
  hypothesis \<open>crate_fixtures\<close>: the crate's general laws, and that it parses and prints these keys
  and prefixes and refuses these texts. The two base64 keys are \<open>kp\<close> and \<open>ko\<close>. An instance shows
  that it can hold.
\<close>

definition peer_key_text :: string where
  "peer_key_text = ''HIgo9xNzJMWLKASShiTqIybxZ0U3wGLiUeJ1PKf8ykw=''"

definition other_key_text :: string where
  "other_key_text = ''XhbwkaURz3Tcc2A7TmV89aB+cHOJayNRiSH2My/r1Bk=''"

definition prefix4 :: "u32 \<Rightarrow> u8 \<Rightarrow> ip_addr_mask" where
  "prefix4 a n = \<lparr>im_address = V4 a, im_cidr = n\<rparr>"

definition prefix6 :: "u128 \<Rightarrow> u8 \<Rightarrow> ip_addr_mask" where
  "prefix6 a n = \<lparr>im_address = V6 a, im_cidr = n\<rparr>"

definition fixture_prefixes :: "(string \<times> ip_addr_mask) list" where
  "fixture_prefixes =
     [(''10.0.0.2/24'', prefix4 0x0A000002 24), (''10.0.0.2/32'', prefix4 0x0A000002 32),
      (''10.0.0.4/24'', prefix4 0x0A000004 24), (''0.0.0.0/0'', prefix4 0 0), (''::/0'', prefix6 0 0),
      (''192.168.1.0/24'', prefix4 0xC0A80100 24), (''192.168.1.5/24'', prefix4 0xC0A80105 24),
      (''192.168.50.5/24'', prefix4 0xC0A83205 24), (''10.1.2.3/8'', prefix4 0x0A010203 8),
      (''10.0.0.0/8'', prefix4 0x0A000000 8), (''10.5.5.5/32'', prefix4 0x0A050505 32),
      (''10.8.0.0/16'', prefix4 0x0A080000 16), (''172.16.0.0/12'', prefix4 0xAC100000 12),
      (''10.10.0.2/32'', prefix4 0x0A0A0002 32), (''10.20.0.2/32'', prefix4 0x0A140002 32),
      (''fd00::2/128'', prefix6 0xFD000000000000000000000000000002 128),
      (''fd00::/48'', prefix6 0xFD000000000000000000000000000000 48),
      (''fd00:beef::/48'', prefix6 0xFD00BEEF000000000000000000000000 48),
      (''fd00:beef::1/48'', prefix6 0xFD00BEEF000000000000000000000001 48)]"

definition bad_key_texts :: "string list" where
  "bad_key_texts = [''not-base64!!'', ''garbage'', ''nope'', ''not-a-key'', ''corrupted'']"

definition crate_fixtures :: "'k defguard \<Rightarrow> 'k \<Rightarrow> 'k \<Rightarrow> bool" where
  "crate_fixtures dg kp ko \<longleftrightarrow>
     key_text_ok dg \<and> peer_new_ok dg \<and> mask_ok dg
     \<and> key_from_str dg peer_key_text = Inr kp \<and> key_to_string dg kp = peer_key_text
     \<and> key_from_str dg other_key_text = Inr ko \<and> key_to_string dg ko = other_key_text
     \<and> list_all (\<lambda>s. \<not> is_ok (key_from_str dg s)) bad_key_texts
     \<and> list_all (\<lambda>(s, m). mask_from_str dg s = Inr m \<and> mask_to_string dg m = s) fixture_prefixes
     \<and> mask_from_str dg ''10.5.5.5'' = Inr (prefix4 0x0A050505 32)
     \<and> \<not> is_ok (mask_from_str dg ''not-a-cidr'') \<and> \<not> is_ok (mask_from_str dg ''default'')"

subsection \<open>An instance\<close>

datatype test_key = Peer_Key | Other_Key | Generated nat

text \<open>A generated key of four digits has the length of a real one.\<close>

definition generated_prefix :: string where
  "generated_prefix = replicate 40 CHR ''A''"

primrec test_key_text :: "test_key \<Rightarrow> string" where
  "test_key_text Peer_Key = peer_key_text"
| "test_key_text Other_Key = other_key_text"
| "test_key_text (Generated n) = generated_prefix @ show_nat n"

definition test_key_parse :: "string \<Rightarrow> test_key result" where
  "test_key_parse s =
     (if s = peer_key_text then Inr Peer_Key else if s = other_key_text then Inr Other_Key
      else if prefix generated_prefix s
      then ok_or (map_option Generated (parse_unsigned (digits_value 10 (drop 40 s)) (drop 40 s))) ''bad key''
      else Inl ''bad key'')"

primrec test_key_public :: "test_key \<Rightarrow> test_key" where
  "test_key_public Peer_Key = Generated 0"
| "test_key_public Other_Key = Generated 1"
| "test_key_public (Generated n) = Generated (n + 1000)"

definition test_mask_from_str :: "string \<Rightarrow> ip_addr_mask result" where
  "test_mask_from_str s =
     ok_or (map_of (fixture_prefixes @ [(''10.5.5.5'', prefix4 0x0A050505 32)]) s) ''bad prefix''"

definition test_mask_to_string :: "ip_addr_mask \<Rightarrow> string" where
  "test_mask_to_string m =
     (case find (\<lambda>(s, n). n = m) fixture_prefixes of Some (s, n) \<Rightarrow> s | None \<Rightarrow> sample_mask_to_string m)"

definition test_dg :: "test_key defguard" where
  "test_dg =
     \<lparr>key_from_str = test_key_parse, key_to_string = test_key_text, key_public_key = test_key_public,
      mask_from_str = test_mask_from_str, mask_to_string = test_mask_to_string, mask_mask = netmask,
      peer_new = blank_peer\<rparr>"

lemma generated_text_starts: "length generated_prefix = 40" "generated_prefix @ t = CHR ''A'' # replicate 39 CHR ''A'' @ t"
  by (simp_all add: generated_prefix_def numeral_eq_Suc)

lemma test_key_roundtrip: "test_key_parse (test_key_text k) = Inr k"
proof (cases k)
  case (Generated n)
  have "generated_prefix @ show_nat n \<noteq> peer_key_text" "generated_prefix @ show_nat n \<noteq> other_key_text"
    unfolding generated_text_starts by (simp_all add: peer_key_text_def other_key_text_def)
  then show ?thesis by (simp add: Generated test_key_parse_def parse_unsigned_show_nat generated_text_starts(1))
qed (simp_all add: test_key_parse_def peer_key_text_def other_key_text_def)

lemma generated_graphic: "\<forall>c \<in> set (generated_prefix @ show_nat n). graphic c"
  using show_nat_graphic [of n] by (auto simp: generated_prefix_def graphic_def)

lemma test_key_text_ok: "key_text_ok test_dg"
proof -
  have "test_key_text k \<noteq> [] \<and> trimmed (test_key_text k)" for k
  proof (cases k)
    case (Generated n)
    let ?t = "generated_prefix @ show_nat n"
    have "?t \<noteq> []" by (simp add: generated_text_starts(2))
    then have "graphic (hd ?t)" "graphic (last ?t)" using generated_graphic [of n] by (metis hd_in_set, metis last_in_set)
    then have "trim ?t = ?t" by (intro trim_graphic) blast
    with \<open>?t \<noteq> []\<close> show ?thesis by (simp only: Generated test_key_text.simps trimmed_iff simp_thms)
  qed (simp_all add: trimmed_iff peer_key_text_def other_key_text_def trim_graphic graphic_def)
  then show ?thesis by (simp add: key_text_ok_def test_dg_def test_key_roundtrip)
qed

lemma test_prefixes:
  "list_all (\<lambda>(s, m). test_mask_from_str s = Inr m \<and> test_mask_to_string m = s) fixture_prefixes"
  by (simp add: test_mask_from_str_def test_mask_to_string_def fixture_prefixes_def prefix4_def prefix6_def)

lemma test_fixtures: "crate_fixtures test_dg Peer_Key Other_Key"
  unfolding crate_fixtures_def
proof (intro conjI)
  show "key_text_ok test_dg" by (rule test_key_text_ok)
  show "peer_new_ok test_dg" by (simp add: peer_new_ok_def test_dg_def blank_peer_def)
  show "mask_ok test_dg" by (simp add: mask_ok_def test_dg_def)
  show "key_from_str test_dg peer_key_text = Inr Peer_Key"
    "key_from_str test_dg other_key_text = Inr Other_Key"
    using test_key_roundtrip [of Peer_Key] test_key_roundtrip [of Other_Key] by (simp_all add: test_dg_def)
  show "list_all (\<lambda>s. \<not> is_ok (key_from_str test_dg s)) bad_key_texts"
    by (simp add: bad_key_texts_def test_dg_def test_key_parse_def generated_prefix_def numeral_eq_Suc
        peer_key_text_def other_key_text_def)
  show "list_all (\<lambda>(s, m). mask_from_str test_dg s = Inr m \<and> mask_to_string test_dg m = s) fixture_prefixes"
    using test_prefixes by (simp add: test_dg_def)
qed (simp_all add: test_dg_def test_mask_from_str_def fixture_prefixes_def)

subsection \<open>Evaluation under the hypothesis\<close>

lemma fixture_keys:
  assumes "crate_fixtures dg kp ko"
  shows "key_from_str dg peer_key_text = Inr kp" "key_to_string dg kp = peer_key_text"
    "key_from_str dg other_key_text = Inr ko" "key_to_string dg ko = other_key_text"
    "key_from_str dg (key_to_string dg k) = Inr k" "trim (key_to_string dg k) = key_to_string dg k"
    "peer_public_key (peer_new dg k) = k" "peer_allowed_ips (peer_new dg k) = []"
    "mask_mask dg p = netmask p"
  using assms by (simp_all add: crate_fixtures_def key_text_ok_def peer_new_ok_def mask_ok_def trimmed_iff)

lemma fixture_trims:
  "trim peer_key_text = peer_key_text" "trim other_key_text = other_key_text"
  by (simp_all add: peer_key_text_def other_key_text_def trim_graphic graphic_def)

lemma fixture_bad_key:
  assumes "crate_fixtures dg kp ko" "s \<in> set bad_key_texts"
  obtains e where "key_from_str dg s = Inl e"
  using assms by (cases "key_from_str dg s") (auto simp: crate_fixtures_def list_all_iff)

lemma fixture_bad_prefix:
  assumes "crate_fixtures dg kp ko" "s \<in> {''not-a-cidr'', ''default''}"
  obtains e where "mask_from_str dg s = Inl e"
  using assms by (cases "mask_from_str dg s") (auto simp: crate_fixtures_def)

lemma fixture_masks:
  assumes "crate_fixtures dg kp ko" "(s, m) \<in> set fixture_prefixes"
  shows "mask_from_str dg s = Inr m" "mask_to_string dg m = s"
  using assms by (auto simp: crate_fixtures_def list_all_iff)

lemma fixture_prefix_eval:
  assumes "crate_fixtures dg kp ko"
  shows "list_all (\<lambda>(s, m). mask_from_str dg s = Inr m \<and> mask_to_string dg m = s) fixture_prefixes"
    "mask_from_str dg ''10.5.5.5'' = Inr (prefix4 0x0A050505 32)"
  using assms by (simp_all add: crate_fixtures_def)

end
