(* ===== verification/Wireguard_Tests.thy ===== *)
theory Wireguard_Tests
  imports Crate_Fixtures
begin

section \<open>The tests of validation and switching\<close>

text \<open>
  Unit tests of \<open>wireguard.rs\<close>, each as an executable proposition about the model under the
  name it has there, and the proof that the model passes it, on every crate that meets the
  fixtures (\<open>crate_fixtures\<close>), with any generated keys and any resolver.
\<close>

definition valid_server :: "'k defguard \<Rightarrow> 'k \<Rightarrow> server_config" where
  "valid_server dg fresh =
     \<lparr>sc_name = ''edge'', sc_private_key = generate_private_key dg fresh,
      sc_public_key = peer_key_text, sc_endpoint = ''198.51.100.10:51820'',
      sc_resolved_endpoint = None, sc_addresses = [''10.0.0.2/24''], sc_allowed_ips = [''0.0.0.0/0''],
      sc_listen_port = 51820, sc_mtu = None, sc_keepalive = Some 25, sc_preshared_key = None,
      sc_dns = []\<rparr>"

subsection \<open>Pure validation\<close>

definition valid_server_passes_validation :: "'k defguard \<Rightarrow> resolver \<Rightarrow> 'k \<Rightarrow> bool" where
  "valid_server_passes_validation dg r k \<longleftrightarrow> is_ok (validate_server dg r (valid_server dg k))"

definition bad_public_key_is_rejected :: "'k defguard \<Rightarrow> resolver \<Rightarrow> 'k \<Rightarrow> bool" where
  "bad_public_key_is_rejected dg r k \<longleftrightarrow>
     unwraps_err (validate_server dg r ((valid_server dg k)\<lparr>sc_public_key := ''not-base64!!''\<rparr>))
       (\<lambda>e. str_contains e ''public_key'')"

definition bad_server_address_is_rejected :: "'k defguard \<Rightarrow> resolver \<Rightarrow> 'k \<Rightarrow> bool" where
  "bad_server_address_is_rejected dg r k \<longleftrightarrow>
     unwraps_err (validate_server dg r ((valid_server dg k)\<lparr>sc_addresses := [''not-a-cidr'']\<rparr>))
       (\<lambda>e. str_contains e ''address'')"

definition empty_addresses_are_rejected :: "'k defguard \<Rightarrow> resolver \<Rightarrow> 'k \<Rightarrow> bool" where
  "empty_addresses_are_rejected dg r k \<longleftrightarrow>
     unwraps_err (validate_server dg r ((valid_server dg k)\<lparr>sc_addresses := []\<rparr>))
       (\<lambda>e. str_contains e ''at least one address'')"

definition bad_private_key_is_rejected :: "'k defguard \<Rightarrow> resolver \<Rightarrow> 'k \<Rightarrow> bool" where
  "bad_private_key_is_rejected dg r k \<longleftrightarrow>
     unwraps_err (validate_server dg r ((valid_server dg k)\<lparr>sc_private_key := ''garbage''\<rparr>))
       (\<lambda>e. str_contains e ''private_key'')"

definition bad_allowed_ip_is_rejected :: "'k defguard \<Rightarrow> resolver \<Rightarrow> 'k \<Rightarrow> bool" where
  "bad_allowed_ip_is_rejected dg r k \<longleftrightarrow>
     unwraps_err (validate_server dg r ((valid_server dg k)\<lparr>sc_allowed_ips := [''not-a-cidr'']\<rparr>))
       (\<lambda>e. str_contains e ''allowed_ip'')"

definition bad_dns_is_rejected :: "'k defguard \<Rightarrow> resolver \<Rightarrow> 'k \<Rightarrow> bool" where
  "bad_dns_is_rejected dg r k \<longleftrightarrow>
     unwraps_err (validate_server dg r ((valid_server dg k)\<lparr>sc_dns := [''999.999.999.999'']\<rparr>))
       (\<lambda>e. str_contains e ''dns'')"

definition bad_preshared_key_is_rejected :: "'k defguard \<Rightarrow> resolver \<Rightarrow> 'k \<Rightarrow> bool" where
  "bad_preshared_key_is_rejected dg r k \<longleftrightarrow>
     unwraps_err (validate_server dg r ((valid_server dg k)\<lparr>sc_preshared_key := Some ''nope''\<rparr>))
       (\<lambda>e. str_contains e ''preshared_key'')"

subsection \<open>Endpoint resolution\<close>

definition validate_returns_the_resolved_endpoint_for_caching ::
  "'k defguard \<Rightarrow> resolver \<Rightarrow> 'k \<Rightarrow> bool" where
  "validate_returns_the_resolved_endpoint_for_caching dg r k \<longleftrightarrow>
     unwraps (validate_server dg r (valid_server dg k)) (\<lambda>addr. show_sock addr = ''198.51.100.10:51820'')"

definition an_ip_literal_endpoint_never_touches_the_resolver ::
  "'k defguard \<Rightarrow> resolver \<Rightarrow> 'k \<Rightarrow> bool" where
  "an_ip_literal_endpoint_never_touches_the_resolver dg r k \<longleftrightarrow>
     unwraps (resolve_endpoint r ((valid_server dg k)\<lparr>sc_endpoint := ''[2001:db8::1]:51820''\<rparr>))
       (\<lambda>addr. show_sock addr = ''[2001:db8::1]:51820'')"

definition a_failed_resolution_falls_back_to_the_cached_address :: bool where
  "a_failed_resolution_falls_back_to_the_cached_address \<longleftrightarrow>
     unwraps (or_cached (Inl ''temporary failure in name resolution'') (Some ''198.51.100.10:51820''))
       (\<lambda>addr. show_sock addr = ''198.51.100.10:51820'')"

definition a_failed_resolution_with_no_usable_cache_keeps_the_original_error :: bool where
  "a_failed_resolution_with_no_usable_cache_keeps_the_original_error \<longleftrightarrow>
     (let err = ''temporary failure in name resolution''
      in unwraps_err (or_cached (Inl err) None) (\<lambda>e. e = err)
         \<and> unwraps_err (or_cached (Inl err) (Some ''not-an-addr'')) (\<lambda>e. e = err))"

definition a_fresh_resolution_wins_over_the_cache :: bool where
  "a_fresh_resolution_wins_over_the_cache \<longleftrightarrow>
     unwraps (ok_or (parse_sock ''203.0.113.7:51820'') sock_syntax_error) (\<lambda>fresh.
       unwraps (or_cached (Inr fresh) (Some ''198.51.100.10:51820''))
         (\<lambda>addr. show_sock addr = ''203.0.113.7:51820''))"

subsection \<open>The order of a switch\<close>

text \<open>\<open>Host::new\<close> with the generated key \<open>own\<close>, then the mark and one peer; a bad key panics.\<close>

definition live_host :: "'k defguard \<Rightarrow> 'k \<Rightarrow> u32 option \<Rightarrow> string \<Rightarrow> 'k host result" where
  "live_host dg own fwmark remote =
     bindR (key_from_str dg remote) (\<lambda>key.
       Inr \<lparr>host_private_key = Some own, host_listen_port = 51820, host_fwmark = fwmark,
            host_peers = [peer_new dg key]\<rparr>)"

definition recording_new :: "'k host result list \<Rightarrow> 'k recording" where
  "recording_new reads = \<lparr>rec_calls = [], rec_reads = reads, rec_reset_dns_err = False\<rparr>"

text \<open>The recorded calls of a switch that must succeed.\<close>

definition run_switch ::
  "'k defguard \<Rightarrow> resolver \<Rightarrow> 'k host result list \<Rightarrow> server_config \<Rightarrow> rec_call list result" where
  "run_switch dg r reads server =
     (case kernel_switch dg (recording_wg dg) r server (recording_new reads) of
        (res, w) \<Rightarrow> bindR res (\<lambda>_. Inr (rec_calls w)))"

text \<open>The warm tests: the device is up with the given mark.\<close>

definition warm_run ::
  "'k defguard \<Rightarrow> resolver \<Rightarrow> 'k \<Rightarrow> u32 option \<Rightarrow> server_config \<Rightarrow> rec_call list result" where
  "warm_run dg r own fwmark server =
     bindR (live_host dg own fwmark other_key_text) (\<lambda>host. run_switch dg r [Inr host] server)"

fun index_of :: "rec_call list \<Rightarrow> (rec_call \<Rightarrow> bool) \<Rightarrow> nat option" where
  "index_of [] P = None"
| "index_of (c # cs) P = (if P c then Some 0 else map_option Suc (index_of cs P))"

text \<open>Both indices exist, and they are in order.\<close>

definition in_order :: "rec_call list \<Rightarrow> (rec_call \<Rightarrow> bool) \<Rightarrow> (rec_call \<Rightarrow> bool) \<Rightarrow> bool" where
  "in_order calls P Q \<longleftrightarrow>
     (case (index_of calls P, index_of calls Q) of (Some i, Some j) \<Rightarrow> i < j | _ \<Rightarrow> False)"

text \<open>The patterns \<open>matches!(c, WgCall::...)\<close> of the tests.\<close>

fun is_configure :: "rec_call \<Rightarrow> bool" where
  "is_configure (RecConfigureInterface prvkey addresses port mtu peer_keys fwmark) \<longleftrightarrow> True"
| "is_configure _ \<longleftrightarrow> False"

fun is_routing :: "rec_call \<Rightarrow> bool" where
  "is_routing (RecConfigurePeerRouting peer_keys) \<longleftrightarrow> True"
| "is_routing _ \<longleftrightarrow> False"

fun is_split_routes :: "rec_call \<Rightarrow> bool" where
  "is_split_routes (RecSyncSplitRoutes ps) \<longleftrightarrow> True"
| "is_split_routes _ \<longleftrightarrow> False"

fun is_firewall :: "rec_call \<Rightarrow> bool" where
  "is_firewall (RecApplyFirewall addresses fwmark) \<longleftrightarrow> True"
| "is_firewall _ \<longleftrightarrow> False"

fun is_dns :: "rec_call \<Rightarrow> bool" where
  "is_dns (RecConfigureDns dns) \<longleftrightarrow> True"
| "is_dns _ \<longleftrightarrow> False"

text \<open>The fields of the first \<open>ConfigureInterface\<close>.\<close>

definition configured ::
  "rec_call list \<Rightarrow> (string \<Rightarrow> string list \<Rightarrow> u16 \<Rightarrow> u32 option \<Rightarrow> string list \<Rightarrow> u32 option \<Rightarrow> bool) \<Rightarrow> bool" where
  "configured calls P \<longleftrightarrow>
     (case find is_configure calls of
        Some (RecConfigureInterface prvkey addresses port mtu peer_keys fwmark) \<Rightarrow>
          P prvkey addresses port mtu peer_keys fwmark
      | _ \<Rightarrow> False)"

definition warm_switch_never_removes_or_recreates_the_interface ::
  "'k defguard \<Rightarrow> resolver \<Rightarrow> 'k \<Rightarrow> 'k \<Rightarrow> bool" where
  "warm_switch_never_removes_or_recreates_the_interface dg r k own \<longleftrightarrow>
     unwraps (warm_run dg r own (Some 51820) (valid_server dg k)) (\<lambda>calls.
       RecRemoveInterface \<notin> set calls \<and> RecCreateInterface \<notin> set calls)"

definition warm_switch_preserves_the_fwmark_read_from_the_device ::
  "'k defguard \<Rightarrow> resolver \<Rightarrow> 'k \<Rightarrow> 'k \<Rightarrow> bool" where
  "warm_switch_preserves_the_fwmark_read_from_the_device dg r k own \<longleftrightarrow>
     unwraps (warm_run dg r own (Some 51820) (valid_server dg k)) (\<lambda>calls.
       configured calls (\<lambda>prvkey addresses port mtu peer_keys fwmark. fwmark = Some 51820))"

definition warm_switch_reads_then_configures_then_routes ::
  "'k defguard \<Rightarrow> resolver \<Rightarrow> 'k \<Rightarrow> 'k \<Rightarrow> bool" where
  "warm_switch_reads_then_configures_then_routes dg r k own \<longleftrightarrow>
     unwraps (warm_run dg r own (Some 51820) (valid_server dg k)) (\<lambda>calls.
       in_order calls (\<lambda>c. c = RecReadInterfaceData) is_configure
       \<and> in_order calls is_configure is_routing)"

definition warm_switch_sets_exactly_the_servers_address_and_peer ::
  "'k defguard \<Rightarrow> resolver \<Rightarrow> 'k \<Rightarrow> 'k \<Rightarrow> bool" where
  "warm_switch_sets_exactly_the_servers_address_and_peer dg r k own \<longleftrightarrow>
     (let server = valid_server dg k
      in unwraps (warm_run dg r own (Some 51820) server) (\<lambda>calls.
        configured calls (\<lambda>prvkey addresses port mtu peer_keys fwmark.
          addresses = [''10.0.0.2/24''] \<and> peer_keys = [sc_public_key server])))"

definition switch_threads_all_addresses_for_a_dual_stack_tunnel ::
  "'k defguard \<Rightarrow> resolver \<Rightarrow> 'k \<Rightarrow> 'k \<Rightarrow> bool" where
  "switch_threads_all_addresses_for_a_dual_stack_tunnel dg r k own \<longleftrightarrow>
     (let server = (valid_server dg k)\<lparr>sc_addresses := [''10.0.0.2/32'', ''fd00::2/128'']\<rparr>
      in unwraps (warm_run dg r own (Some 51820) server) (\<lambda>calls.
        configured calls (\<lambda>prvkey addresses port mtu peer_keys fwmark.
          addresses = [''10.0.0.2/32'', ''fd00::2/128''])))"

definition switch_uses_the_tunnels_own_key_port_and_mtu ::
  "'k defguard \<Rightarrow> resolver \<Rightarrow> 'k \<Rightarrow> 'k \<Rightarrow> bool" where
  "switch_uses_the_tunnels_own_key_port_and_mtu dg r k own \<longleftrightarrow>
     (let server = (valid_server dg k)\<lparr>sc_listen_port := 12345, sc_mtu := Some 1380\<rparr>
      in unwraps (warm_run dg r own (Some 51820) server) (\<lambda>calls.
        configured calls (\<lambda>prvkey addresses port mtu peer_keys fwmark.
          prvkey = sc_private_key server \<and> port = 12345 \<and> mtu = Some 1380)))"

definition cold_switch_creates_then_configures_then_routes_with_no_fwmark ::
  "'k defguard \<Rightarrow> resolver \<Rightarrow> 'k \<Rightarrow> bool" where
  "cold_switch_creates_then_configures_then_routes_with_no_fwmark dg r k \<longleftrightarrow>
     unwraps (run_switch dg r [Inl ''interface down''] (valid_server dg k)) (\<lambda>calls.
       RecRemoveInterface \<notin> set calls
       \<and> in_order calls (\<lambda>c. c = RecCreateInterface) is_configure
       \<and> in_order calls is_configure is_routing
       \<and> configured calls (\<lambda>prvkey addresses port mtu peer_keys fwmark. fwmark = None))"

definition switch_with_dns_configures_the_resolver_after_routing ::
  "'k defguard \<Rightarrow> resolver \<Rightarrow> 'k \<Rightarrow> 'k \<Rightarrow> bool" where
  "switch_with_dns_configures_the_resolver_after_routing dg r k own \<longleftrightarrow>
     unwraps (warm_run dg r own (Some 51820) ((valid_server dg k)\<lparr>sc_dns := [''10.0.0.1'']\<rparr>)) (\<lambda>calls.
       in_order calls is_routing is_dns \<and> RecResetDns \<notin> set calls)"

definition switch_to_a_server_without_dns_resets_the_resolver ::
  "'k defguard \<Rightarrow> resolver \<Rightarrow> 'k \<Rightarrow> 'k \<Rightarrow> bool" where
  "switch_to_a_server_without_dns_resets_the_resolver dg r k own \<longleftrightarrow>
     unwraps (warm_run dg r own (Some 51820) (valid_server dg k)) (\<lambda>calls.
       RecResetDns \<in> set calls \<and> \<not> list_ex is_dns calls)"

definition switch_returns_the_endpoint_it_configured :: "'k defguard \<Rightarrow> resolver \<Rightarrow> 'k \<Rightarrow> bool" where
  "switch_returns_the_endpoint_it_configured dg r k \<longleftrightarrow>
     unwraps (fst (kernel_switch dg (recording_wg dg) r (valid_server dg k)
         (recording_new [Inl ''interface down''])))
       (\<lambda>addr. show_sock addr = ''198.51.100.10:51820'')"

definition a_switch_whose_input_is_invalid_touches_no_kernel_ops ::
  "'k defguard \<Rightarrow> resolver \<Rightarrow> 'k \<Rightarrow> bool" where
  "a_switch_whose_input_is_invalid_touches_no_kernel_ops dg r k \<longleftrightarrow>
     (case kernel_switch dg (recording_wg dg) r ((valid_server dg k)\<lparr>sc_public_key := ''not-a-key''\<rparr>)
        (recording_new []) of (res, w) \<Rightarrow> \<not> is_ok res \<and> rec_calls w = [])"

definition disconnect_removes_the_interface_then_clears_the_firewall :: "'k defguard \<Rightarrow> bool" where
  "disconnect_removes_the_interface_then_clears_the_firewall dg \<longleftrightarrow>
     (case kernel_disconnect (recording_wg dg) (recording_new []) of (res, w) \<Rightarrow>
        is_ok res \<and> rec_calls w = [RecRemoveInterface, RecClearFirewall])"

definition a_failed_dns_reset_does_not_fail_the_switch ::
  "'k defguard \<Rightarrow> resolver \<Rightarrow> 'k \<Rightarrow> 'k \<Rightarrow> bool" where
  "a_failed_dns_reset_does_not_fail_the_switch dg r k own \<longleftrightarrow>
     unwraps (live_host dg own (Some 51820) other_key_text) (\<lambda>host.
       case kernel_switch dg (recording_wg dg) r (valid_server dg k)
          ((recording_new [Inr host])\<lparr>rec_reset_dns_err := True\<rparr>) of (res, w) \<Rightarrow>
         is_ok res \<and> RecResetDns \<in> set (rec_calls w))"

subsection \<open>The model passes them\<close>

lemma test_endpoints [literal_simps]:
  "parse_sock ''198.51.100.10:51820'' = Some (SockV4 0xC633640A 51820)"
  "parse_sock ''203.0.113.7:51820'' = Some (SockV4 0xCB007107 51820)"
  "parse_sock ''not-an-addr'' = None"
  by (simp_all add: parser_evals read_sock_v6_def)

lemma test_endpoint_texts:
  "show_sock (SockV4 0xC633640A 51820) = ''198.51.100.10:51820''"
  "show_sock (SockV4 0xCB007107 51820) = ''203.0.113.7:51820''"
  by (simp_all add: show_ipv4_def join_def octet_def show_nat.simps digit_char_def char_of_def bit_0
      unat_drop_bit_eq)

lemma test_trims [literal_simps]:
  "trim ''198.51.100.10:51820'' = ''198.51.100.10:51820''" "trim ''10.0.0.2/24'' = ''10.0.0.2/24''"
  "trim ''0.0.0.0/0'' = ''0.0.0.0/0''"
  by (simp_all add: trim_graphic graphic_def)

lemmas validation_defs = validate_server_def check_private_key_def build_peer_def endpoint_addr_def
  resolve_endpoint_def or_cached_def check_preshared_key_def parse_dns_def parse_addresses_def
  Let_def about_server_def

lemma valid_prefixes:
  assumes "crate_fixtures dg kp ko"
  shows "mask_from_str dg ''10.0.0.2/24'' = Inr (prefix4 0x0A000002 24)"
    "mask_to_string dg (prefix4 0x0A000002 24) = ''10.0.0.2/24''"
    "mask_from_str dg ''0.0.0.0/0'' = Inr (prefix4 0 0)"
  using fixture_prefix_eval(1) [OF assms] by (simp_all add: fixture_prefixes_def)

lemma valid_server_validates:
  assumes "crate_fixtures dg kp ko"
  shows "validate_server dg r (valid_server dg k) = Inr (SockV4 0xC633640A 51820)"
  using fixture_keys [OF assms] valid_prefixes [OF assms]
  by (simp add: validation_defs valid_server_def generate_private_key_def literal_simps(1) test_trims
      test_endpoints fixture_trims)

text \<open>One more group of an IPv6 address, where the number of groups left is a literal.\<close>

lemma read_groups_numeral:
  "read_groups i (numeral n) s =
     (case (if pred_numeral n = 0 then None else read_separated CHR '':'' i read_ipv4 s) of
        Some (a, r) \<Rightarrow> ([unat a div 65536, unat a mod 65536], True, r)
      | None \<Rightarrow>
          (case read_separated CHR '':'' i (read_number 16 (Some 4) True 65535) s of
             None \<Rightarrow> ([], False, s)
           | Some (g, r) \<Rightarrow>
               (case read_groups (Suc i) (pred_numeral n) r of (gs, q, r') \<Rightarrow> (g # gs, q, r'))))"
  by (simp only: numeral_eq_Suc read_groups.simps)

lemma valid_server_passes_validation_passes:
  "crate_fixtures dg kp ko \<Longrightarrow> valid_server_passes_validation dg r k"
  by (simp add: valid_server_passes_validation_def valid_server_validates)

lemma bad_public_key_is_rejected_passes:
  assumes "crate_fixtures dg kp ko"
  shows "bad_public_key_is_rejected dg r k"
proof -
  obtain e where "key_from_str dg ''not-base64!!'' = Inl e"
    using fixture_bad_key [OF assms] by (auto simp: bad_key_texts_def)
  then show ?thesis
    using fixture_keys [OF assms]
    by (simp add: bad_public_key_is_rejected_def validation_defs valid_server_def
        generate_private_key_def literal_simps)
qed

lemma bad_server_address_is_rejected_passes:
  assumes "crate_fixtures dg kp ko"
  shows "bad_server_address_is_rejected dg r k"
proof -
  obtain e where "mask_from_str dg ''not-a-cidr'' = Inl e"
    using fixture_bad_prefix [OF assms, of "''not-a-cidr''"] by auto
  then show ?thesis
    using fixture_keys [OF assms] valid_prefixes [OF assms]
    by (simp add: bad_server_address_is_rejected_def validation_defs valid_server_def
        generate_private_key_def fixture_trims literal_simps)
qed

lemma empty_addresses_are_rejected_passes:
  assumes "crate_fixtures dg kp ko"
  shows "empty_addresses_are_rejected dg r k"
  using fixture_keys [OF assms] valid_prefixes [OF assms]
  by (simp add: empty_addresses_are_rejected_def validation_defs valid_server_def
      generate_private_key_def fixture_trims literal_simps)

lemma bad_private_key_is_rejected_passes:
  assumes "crate_fixtures dg kp ko"
  shows "bad_private_key_is_rejected dg r k"
proof -
  obtain e where "key_from_str dg ''garbage'' = Inl e"
    using fixture_bad_key [OF assms] by (auto simp: bad_key_texts_def)
  then show ?thesis
    by (simp add: bad_private_key_is_rejected_def validation_defs valid_server_def literal_simps)
qed

lemma bad_allowed_ip_is_rejected_passes:
  assumes "crate_fixtures dg kp ko"
  shows "bad_allowed_ip_is_rejected dg r k"
proof -
  obtain e where "mask_from_str dg ''not-a-cidr'' = Inl e"
    using fixture_bad_prefix [OF assms, of "''not-a-cidr''"] by auto
  then show ?thesis
    using fixture_keys [OF assms]
    by (simp add: bad_allowed_ip_is_rejected_def validation_defs valid_server_def
        generate_private_key_def fixture_trims literal_simps)
qed

lemma bad_dns_is_rejected_passes:
  assumes "crate_fixtures dg kp ko"
  shows "bad_dns_is_rejected dg r k"
proof -
  have "parse_ip ''999.999.999.999'' = None"
    by (simp add: parser_evals read_ipv6_def read_groups_numeral)
  then show ?thesis
    using fixture_keys [OF assms] valid_prefixes [OF assms]
    by (simp add: bad_dns_is_rejected_def validation_defs valid_server_def
        generate_private_key_def fixture_trims literal_simps)
qed

lemma bad_preshared_key_is_rejected_passes:
  assumes "crate_fixtures dg kp ko"
  shows "bad_preshared_key_is_rejected dg r k"
proof -
  obtain e where "key_from_str dg ''nope'' = Inl e"
    using fixture_bad_key [OF assms] by (auto simp: bad_key_texts_def)
  then show ?thesis
    using fixture_keys [OF assms] valid_prefixes [OF assms]
    by (simp add: bad_preshared_key_is_rejected_def validation_defs valid_server_def
        generate_private_key_def fixture_trims literal_simps)
qed

lemma validate_returns_the_resolved_endpoint_for_caching_passes:
  "crate_fixtures dg kp ko \<Longrightarrow> validate_returns_the_resolved_endpoint_for_caching dg r k"
  by (simp add: validate_returns_the_resolved_endpoint_for_caching_def valid_server_validates
      test_endpoint_texts del: show_sock.simps)

lemma an_ip_literal_endpoint_never_touches_the_resolver_passes:
  "an_ip_literal_endpoint_never_touches_the_resolver dg r k"
proof -
  have t: "''[2001:db8::1]:51820'' = show_sock (SockV6 0x20010DB8000000000000000000000001 51820 0 0)"
    by (simp add: show_ipv6_def is_ipv4_mapped_def segments_def segment_def unat_drop_bit_eq
        drop_bit_eq_div fmt_subslice_def join_def show_hex.simps hex_char_def char_of_def bit_0
        show_nat.simps digit_char_def)
  have "trim ''[2001:db8::1]:51820'' = ''[2001:db8::1]:51820''" by (simp add: trim_graphic graphic_def)
  moreover have "parse_sock ''[2001:db8::1]:51820'' = Some (SockV6 0x20010DB8000000000000000000000001 51820 0 0)"
    unfolding t parse_sock_show by simp
  ultimately show ?thesis
    by (simp add: an_ip_literal_endpoint_never_touches_the_resolver_def resolve_endpoint_def
        valid_server_def t [symmetric] del: show_sock.simps)
qed

lemma a_failed_resolution_falls_back_to_the_cached_address_passes:
  a_failed_resolution_falls_back_to_the_cached_address
  by (simp add: a_failed_resolution_falls_back_to_the_cached_address_def or_cached_def test_endpoints
      test_endpoint_texts del: show_sock.simps)

lemma a_failed_resolution_with_no_usable_cache_keeps_the_original_error_passes:
  a_failed_resolution_with_no_usable_cache_keeps_the_original_error
  by (simp add: a_failed_resolution_with_no_usable_cache_keeps_the_original_error_def or_cached_def
      test_endpoints)

lemma a_fresh_resolution_wins_over_the_cache_passes: a_fresh_resolution_wins_over_the_cache
  by (simp add: a_fresh_resolution_wins_over_the_cache_def or_cached_def test_endpoints
      test_endpoint_texts del: show_sock.simps)

subsection \<open>What a switch records\<close>

lemmas recording_defs = recording_wg_def recording_new_def push_call_def scripted_read_def
  bindS_def liftR_def retS_def ignoreS_def

text \<open>The recorded calls of a switch to a server whose parts parse.\<close>

definition recorded_switch ::
  "'k defguard \<Rightarrow> 'k host option \<Rightarrow> server_config \<Rightarrow> 'k peer \<Rightarrow> ip_addr_mask list \<Rightarrow> ip_addr list
     \<Rightarrow> rec_call list" where
  "recorded_switch dg live s p addresses dns =
     (let mark = Option.bind live host_fwmark;
          keys = [key_to_string dg (peer_public_key p)];
          texts = map (mask_to_string dg) addresses;
          configure = RecConfigureInterface (trim (sc_private_key s)) texts (sc_listen_port s) (sc_mtu s)
            keys mark
      in [RecReadInterfaceData]
         @ (case live of None \<Rightarrow> [RecCreateInterface, configure] | Some _ \<Rightarrow> [configure])
         @ [RecConfigurePeerRouting keys,
            RecSyncSplitRoutes (map (mask_to_string dg) (split_route_prefixes dg p)),
            RecReadInterfaceData, RecApplyFirewall texts (nonzero mark),
            if dns = [] then RecResetDns else RecConfigureDns (map show_ip dns)])"

lemma recorded_switch_runs:
  assumes "build_peer dg r s = Inr p" "parse_dns s = Inr dns" "parse_addresses dg s = Inr as"
    "peer_endpoint p = Some a" "check_private_key dg s = Inr key"
  shows "kernel_switch dg (recording_wg dg) r s (recording_new [Inr host]) =
      (Inr a, (recording_new [Inr host])\<lparr>rec_calls := recorded_switch dg (Some host) s p as dns\<rparr>)"
    and "kernel_switch dg (recording_wg dg) r s (recording_new [Inl e]) =
      (Inr a, (recording_new [Inl e])\<lparr>rec_calls := recorded_switch dg None s p as dns\<rparr>)"
    and "kernel_switch dg (recording_wg dg) r s ((recording_new [Inr host])\<lparr>rec_reset_dns_err := b\<rparr>) =
      (Inr a, (recording_new [Inr host])\<lparr>rec_reset_dns_err := b,
         rec_calls := recorded_switch dg (Some host) s p as dns\<rparr>)"
  using assms
  by (simp_all add: kernel_switch_def reconfigure_def build_interface_config_def bring_up_with_def
      guard_tunnel_def apply_dns_def recorded_switch_def recording_defs Let_def)

text \<open>A server with the peer, the endpoint and the key of \<open>valid_server\<close>, and texts that parse.\<close>

definition like_valid ::
  "'k defguard \<Rightarrow> 'k \<Rightarrow> server_config \<Rightarrow> ip_addr_mask list \<Rightarrow> ip_addr_mask list \<Rightarrow> ip_addr list \<Rightarrow> bool" where
  "like_valid dg k s ips as dns \<longleftrightarrow>
     sc_public_key s = peer_key_text \<and> sc_endpoint s = ''198.51.100.10:51820''
     \<and> sc_private_key s = key_to_string dg k \<and> sc_preshared_key s = None
     \<and> map (\<lambda>ip. mask_from_str dg (trim ip)) (sc_allowed_ips s) = map Inr ips
     \<and> as \<noteq> [] \<and> map (\<lambda>a. mask_from_str dg (trim a)) (sc_addresses s) = map Inr as
     \<and> map (\<lambda>d. parse_ip (trim d)) (sc_dns s) = map Some dns"

definition valid_peer :: "'k defguard \<Rightarrow> 'k \<Rightarrow> server_config \<Rightarrow> ip_addr_mask list \<Rightarrow> 'k peer" where
  "valid_peer dg kp s ips =
     (peer_new dg kp)\<lparr>peer_endpoint := Some (SockV4 0xC633640A 51820), peer_allowed_ips := ips,
        peer_keepalive := sc_keepalive s, peer_preshared_key := None\<rparr>"

lemma map_err_map_Inr: "map f xs = map Inr ys \<Longrightarrow> map (\<lambda>x. map_err (g x) (f x)) xs = map Inr ys"
  by (auto simp: list_eq_iff_nth_eq)

lemma ok_or_map_Some: "map f xs = map Some ys \<Longrightarrow> map (\<lambda>x. map_err (g x) (ok_or (f x) e)) xs = map Inr ys"
  by (auto simp: list_eq_iff_nth_eq)

lemma like_valid_parts:
  assumes "crate_fixtures dg kp ko" "like_valid dg k s ips as dns"
  shows "build_peer dg r s = Inr (valid_peer dg kp s ips)" "parse_dns s = Inr dns"
    "parse_addresses dg s = Inr as" "peer_endpoint (valid_peer dg kp s ips) = Some (SockV4 0xC633640A 51820)"
    "check_private_key dg s = Inr k" "peer_public_key (valid_peer dg kp s ips) = kp"
proof -
  note s = assms(2) [unfolded like_valid_def]
  note k = fixture_keys [OF assms(1)]
  have e: "endpoint_addr r s = Inr (SockV4 0xC633640A 51820)"
    using s by (simp add: endpoint_addr_def resolve_endpoint_def or_cached_def test_trims test_endpoints Let_def)
  have "push_allowed_ips dg s (sc_allowed_ips s) ((peer_new dg kp)\<lparr>peer_endpoint := Some (SockV4 0xC633640A 51820)\<rparr>)
      = Inr ((peer_new dg kp)\<lparr>peer_endpoint := Some (SockV4 0xC633640A 51820), peer_allowed_ips := ips\<rparr>)"
    unfolding push_allowed_ips_Inr using s k by auto
  with e show "build_peer dg r s = Inr (valid_peer dg kp s ips)"
    using s k by (simp add: build_peer_def check_preshared_key_def valid_peer_def fixture_trims)
  show "parse_dns s = Inr dns"
    unfolding parse_dns_def using s by (simp add: ok_or_map_Some)
  show "parse_addresses dg s = Inr as"
    unfolding parse_addresses_def using s by (auto simp: map_err_map_Inr)
  show "check_private_key dg s = Inr k" using s k by (simp add: check_private_key_def)
qed (simp_all add: valid_peer_def fixture_keys [OF assms(1)])

lemma like_valid_warm:
  assumes "crate_fixtures dg kp ko" "like_valid dg k s ips as dns"
  shows "\<exists>host. host_fwmark host = mark \<and> live_host dg own mark other_key_text = Inr host
    \<and> warm_run dg r own mark s = Inr (recorded_switch dg (Some host) s (valid_peer dg kp s ips) as dns)"
  using fixture_keys [OF assms(1)] recorded_switch_runs(1) [OF like_valid_parts(1-5) [OF assms]]
  by (simp add: warm_run_def run_switch_def live_host_def)

lemma like_valid_cold:
  assumes "crate_fixtures dg kp ko" "like_valid dg k s ips as dns"
  shows "run_switch dg r [Inl e] s = Inr (recorded_switch dg None s (valid_peer dg kp s ips) as dns)"
  using recorded_switch_runs(2) [OF like_valid_parts(1-5) [OF assms]] by (simp add: run_switch_def)

lemma valid_server_like:
  assumes "crate_fixtures dg kp ko"
  shows "like_valid dg k (valid_server dg k) [prefix4 0 0] [prefix4 0x0A000002 24] []"
  using valid_prefixes [OF assms]
  by (simp add: like_valid_def valid_server_def generate_private_key_def test_trims)

lemmas switch_test_defs = recorded_switch_def in_order_def configured_def Let_def valid_peer_def
  nonzero_def split_route_prefixes_def

lemma valid_warm:
  assumes "crate_fixtures dg kp ko"
  obtains host where "host_fwmark host = mark" "live_host dg own mark other_key_text = Inr host"
    "warm_run dg r own mark (valid_server dg k) = Inr (recorded_switch dg (Some host) (valid_server dg k)
       (valid_peer dg kp (valid_server dg k) [prefix4 0 0]) [prefix4 0x0A000002 24] [])"
  using like_valid_warm [OF assms valid_server_like [OF assms]] by blast

lemma zero_prefix_default [simp]:
  "is_unspecified (im_address (prefix4 0 n))" "is_unspecified (im_address (prefix6 0 n))"
  by (simp_all add: prefix4_def prefix6_def)

lemma warm_switch_never_removes_or_recreates_the_interface_passes:
  assumes "crate_fixtures dg kp ko"
  shows "warm_switch_never_removes_or_recreates_the_interface dg r k own"
  by (rule valid_warm [OF assms, of "Some 51820" own r k])
    (simp add: warm_switch_never_removes_or_recreates_the_interface_def switch_test_defs)

lemma warm_switch_preserves_the_fwmark_read_from_the_device_passes:
  assumes "crate_fixtures dg kp ko"
  shows "warm_switch_preserves_the_fwmark_read_from_the_device dg r k own"
  by (rule valid_warm [OF assms, of "Some 51820" own r k])
    (simp add: warm_switch_preserves_the_fwmark_read_from_the_device_def switch_test_defs)

lemma warm_switch_reads_then_configures_then_routes_passes:
  assumes "crate_fixtures dg kp ko"
  shows "warm_switch_reads_then_configures_then_routes dg r k own"
  by (rule valid_warm [OF assms, of "Some 51820" own r k])
    (simp add: warm_switch_reads_then_configures_then_routes_def switch_test_defs)

lemma warm_switch_sets_exactly_the_servers_address_and_peer_passes:
  assumes "crate_fixtures dg kp ko"
  shows "warm_switch_sets_exactly_the_servers_address_and_peer dg r k own"
  by (rule valid_warm [OF assms, of "Some 51820" own r k])
    (simp add: warm_switch_sets_exactly_the_servers_address_and_peer_def switch_test_defs
      valid_prefixes [OF assms] fixture_keys [OF assms] valid_server_def)

lemma switch_threads_all_addresses_for_a_dual_stack_tunnel_passes:
  assumes "crate_fixtures dg kp ko"
  shows "switch_threads_all_addresses_for_a_dual_stack_tunnel dg r k own"
proof -
  let ?s = "(valid_server dg k)\<lparr>sc_addresses := [''10.0.0.2/32'', ''fd00::2/128'']\<rparr>"
  have m: "mask_from_str dg ''10.0.0.2/32'' = Inr (prefix4 0x0A000002 32)"
    "mask_from_str dg ''fd00::2/128'' = Inr (prefix6 0xFD000000000000000000000000000002 128)"
    "mask_to_string dg (prefix4 0x0A000002 32) = ''10.0.0.2/32''"
    "mask_to_string dg (prefix6 0xFD000000000000000000000000000002 128) = ''fd00::2/128''"
    using fixture_prefix_eval(1) [OF assms] by (simp_all add: fixture_prefixes_def)
  have "like_valid dg k ?s [prefix4 0 0]
      [prefix4 0x0A000002 32, prefix6 0xFD000000000000000000000000000002 128] []"
    using valid_server_like [OF assms, of k] m(1,2)
    by (simp add: like_valid_def trim_graphic graphic_def)
  from like_valid_warm [OF assms this, of "Some 51820" own r] show ?thesis
    by (auto simp: switch_threads_all_addresses_for_a_dual_stack_tunnel_def switch_test_defs m(3,4))
qed

lemma switch_uses_the_tunnels_own_key_port_and_mtu_passes:
  assumes "crate_fixtures dg kp ko"
  shows "switch_uses_the_tunnels_own_key_port_and_mtu dg r k own"
proof -
  let ?s = "(valid_server dg k)\<lparr>sc_listen_port := 12345, sc_mtu := Some 1380\<rparr>"
  have "like_valid dg k ?s [prefix4 0 0] [prefix4 0x0A000002 24] []"
    using valid_server_like [OF assms, of k] by (simp add: like_valid_def)
  from like_valid_warm [OF assms this, of "Some 51820" own r] show ?thesis
    by (auto simp: switch_uses_the_tunnels_own_key_port_and_mtu_def switch_test_defs
        fixture_keys(6) [OF assms] valid_server_def generate_private_key_def)
qed

lemma cold_switch_creates_then_configures_then_routes_with_no_fwmark_passes:
  assumes "crate_fixtures dg kp ko"
  shows "cold_switch_creates_then_configures_then_routes_with_no_fwmark dg r k"
  using like_valid_cold [OF assms valid_server_like [OF assms]]
  by (simp add: cold_switch_creates_then_configures_then_routes_with_no_fwmark_def switch_test_defs)

lemma switch_with_dns_configures_the_resolver_after_routing_passes:
  assumes "crate_fixtures dg kp ko"
  shows "switch_with_dns_configures_the_resolver_after_routing dg r k own"
proof -
  let ?s = "(valid_server dg k)\<lparr>sc_dns := [''10.0.0.1'']\<rparr>"
  have "parse_ip ''10.0.0.1'' = Some (V4 0x0A000001)" by (simp add: parser_evals)
  then have "like_valid dg k ?s [prefix4 0 0] [prefix4 0x0A000002 24] [V4 0x0A000001]"
    using valid_server_like [OF assms, of k] by (simp add: like_valid_def trim_graphic graphic_def)
  from like_valid_warm [OF assms this, of "Some 51820" own r] show ?thesis
    by (auto simp: switch_with_dns_configures_the_resolver_after_routing_def switch_test_defs)
qed

lemma switch_to_a_server_without_dns_resets_the_resolver_passes:
  assumes "crate_fixtures dg kp ko"
  shows "switch_to_a_server_without_dns_resets_the_resolver dg r k own"
  by (rule valid_warm [OF assms, of "Some 51820" own r k])
    (simp add: switch_to_a_server_without_dns_resets_the_resolver_def switch_test_defs)

lemma switch_returns_the_endpoint_it_configured_passes:
  assumes "crate_fixtures dg kp ko"
  shows "switch_returns_the_endpoint_it_configured dg r k"
  using recorded_switch_runs(2) [OF like_valid_parts(1-5) [OF assms valid_server_like [OF assms]]]
  by (simp add: switch_returns_the_endpoint_it_configured_def test_endpoint_texts del: show_sock.simps)

lemma a_switch_whose_input_is_invalid_touches_no_kernel_ops_passes:
  assumes "crate_fixtures dg kp ko"
  shows "a_switch_whose_input_is_invalid_touches_no_kernel_ops dg r k"
proof -
  obtain e where "key_from_str dg ''not-a-key'' = Inl e"
    using fixture_bad_key [OF assms] by (auto simp: bad_key_texts_def)
  then show ?thesis
    by (simp add: a_switch_whose_input_is_invalid_touches_no_kernel_ops_def kernel_switch_def build_peer_def
        recording_defs trim_graphic graphic_def)
qed

lemma disconnect_removes_the_interface_then_clears_the_firewall_passes:
  "disconnect_removes_the_interface_then_clears_the_firewall dg"
  by (simp add: disconnect_removes_the_interface_then_clears_the_firewall_def kernel_disconnect_def
      recording_defs)

lemma a_failed_dns_reset_does_not_fail_the_switch_passes:
  assumes "crate_fixtures dg kp ko"
  shows "a_failed_dns_reset_does_not_fail_the_switch dg r k own"
proof -
  obtain host where "live_host dg own (Some 51820) other_key_text = Inr host"
    by (rule valid_warm [OF assms])
  then show ?thesis
    using recorded_switch_runs(3) [OF like_valid_parts(1-5) [OF assms valid_server_like [OF assms]]]
    by (simp add: a_failed_dns_reset_does_not_fail_the_switch_def switch_test_defs)
qed

end
