(* ===== verification/Server_Tests.thy ===== *)
theory Server_Tests
  imports Server Wireguard_Tests
begin

section \<open>The tests of the socket server\<close>

text \<open>
  The unit tests of \<open>server.rs\<close>, each as an executable proposition about the model under the
  name it has there, and the proof that the model passes it. serde's codec and the host are
  arguments; a listener that is dropped leaves its socket file behind.
\<close>

definition null_wg :: "unit wireguard" where
  "null_wg =
     \<lparr>wg_disconnect = retS (),
      wg_switch = (\<lambda>_ _. liftR (ok_or (parse_sock ''198.51.100.10:51820'') sock_syntax_error)),
      wg_status = liftR (Inl ''down'')\<rparr>"

text \<open>A daemon over an empty disk and this backend.\<close>

definition null_daemon :: "('k, unit) deps \<Rightarrow> unit daemon result" where
  "null_daemon dp = daemon_load dp no_faults empty_fs ()"

definition starts_with :: "string \<Rightarrow> string \<Rightarrow> bool" where
  "starts_with s p \<longleftrightarrow> take (length p) s = p"

definition malformed_request_becomes_a_tidy_error_not_a_dropped_connection ::
  "('k, unit) deps \<Rightarrow> codec \<Rightarrow> 'k env \<Rightarrow> bool" where
  "malformed_request_becomes_a_tidy_error_not_a_dropped_connection dp cd ev \<longleftrightarrow>
     unwraps (null_daemon (dp\<lparr>dep_wg := null_wg\<rparr>)) (\<lambda>d.
       unwraps (fst (dispatch (dp\<lparr>dep_wg := null_wg\<rparr>) cd ev (''this is not json'' @ [newline]) d)) (\<lambda>resp.
         case resp of RespError e \<Rightarrow> starts_with e ''bad request:'' | _ \<Rightarrow> False))"

definition list_servers_line :: string where
  "list_servers_line = ''{'' @ dquoted ''ListServers'' @ '':{}}'' @ [newline]"

definition a_valid_request_line_is_dispatched :: "('k, unit) deps \<Rightarrow> codec \<Rightarrow> 'k env \<Rightarrow> bool" where
  "a_valid_request_line_is_dispatched dp cd ev \<longleftrightarrow>
     unwraps (null_daemon (dp\<lparr>dep_wg := null_wg\<rparr>)) (\<lambda>d.
       unwraps (fst (dispatch (dp\<lparr>dep_wg := null_wg\<rparr>) cd ev list_servers_line d)) (\<lambda>resp.
         case resp of RespServers l \<Rightarrow> True | _ \<Rightarrow> False))"

definition run_socket :: string where
  "run_socket = ''/tmp/t/run/wirefinderd.sock''"

text \<open>The modes after the calls of a set-up that must succeed, in an empty temporary directory.\<close>

definition bind_locks_down_the_socket_directory_and_socket :: "host_env \<Rightarrow> bool" where
  "bind_locks_down_the_socket_directory_and_socket h \<longleftrightarrow>
     (case bind_at h run_socket [] of (r, log) \<Rightarrow>
        unwraps r (\<lambda>_.
          (case path_parent run_socket of None \<Rightarrow> False | Some dir \<Rightarrow>
             map_option (\<lambda>m. m mod 512) (fold call_effect log (\<lambda>_. None) dir) = Some 488)
          \<and> map_option (\<lambda>m. m mod 512) (fold call_effect log (\<lambda>_. None) run_socket) = Some 432))"

text \<open>
  What the host does about the socket file: it is there after a bind and gone after it was removed;
  a file that is not there cannot be removed, and one that is there cannot be bound to.
\<close>

definition file_exists :: "sock_call list \<Rightarrow> string \<Rightarrow> bool" where
  "file_exists log p =
     fold (\<lambda>c there. case c of BindSocket q \<Rightarrow> there \<or> q = p | RemoveFile q \<Rightarrow> there \<and> q \<noteq> p | _ \<Rightarrow> there) log False"

definition file_faults :: "sock_call list \<Rightarrow> sock_call \<Rightarrow> string option" where
  "file_faults log c =
     (case c of
        RemoveFile p \<Rightarrow> if file_exists log p then None else Some ''No such file or directory''
      | BindSocket p \<Rightarrow> if file_exists log p then Some ''Address already in use'' else None
      | _ \<Rightarrow> None)"

definition bind_replaces_a_stale_socket :: "host_env \<Rightarrow> bool" where
  "bind_replaces_a_stale_socket h \<longleftrightarrow>
     (case bind_at h ''/tmp/t/wirefinderd.sock'' [] of (r, log) \<Rightarrow>
        unwraps r (\<lambda>_. file_exists log ''/tmp/t/wirefinderd.sock''
          \<and> is_ok (fst (bind_at h ''/tmp/t/wirefinderd.sock'' log))))"

subsection \<open>The model passes them\<close>

lemma null_daemon_loads:
  "null_daemon dp = Inr \<lparr>d_cfg = config_default, d_wg = (), d_last_connect = None, d_disk = empty_fs\<rparr>"
  by (simp add: null_daemon_def daemon_load_def load_def read_to_string_def no_faults_def file_text_def
      fs_live_def empty_fs_def)

text \<open>serde refuses the line.\<close>

lemma malformed_request_becomes_a_tidy_error_not_a_dropped_connection_passes:
  "cd_dec_request cd (''this is not json'' @ [newline]) = Inl e \<Longrightarrow>
   malformed_request_becomes_a_tidy_error_not_a_dropped_connection dp cd ev"
  by (simp add: malformed_request_becomes_a_tidy_error_not_a_dropped_connection_def null_daemon_loads
      dispatch_def starts_with_def)

text \<open>serde reads a missing query as none.\<close>

lemma a_valid_request_line_is_dispatched_passes:
  "cd_dec_request cd list_servers_line = Inr (ReqListServers None) \<Longrightarrow>
   a_valid_request_line_is_dispatched dp cd ev"
  by (simp add: a_valid_request_line_is_dispatched_def null_daemon_loads dispatch_def split: prod.split)

lemma run_socket_dir: "nonempty_parent run_socket = Some ''/tmp/t/run''" "path_parent run_socket = Some ''/tmp/t/run''"
  by code_simp+

lemma bind_locks_down_the_socket_directory_and_socket_passes:
  assumes "\<And>log c. he_fault h log c = None"
  shows "bind_locks_down_the_socket_directory_and_socket h"
proof -
  have c: "\<exists>xs. chown_to_invoking_user h p log = (Inr (), log @ xs) \<and> fold call_effect xs = id" for p log
    using assms by (auto simp: chown_to_invoking_user_def syscall_def retS_def fun_eq_iff split: option.split)
  obtain xs where x: "chown_to_invoking_user h ''/tmp/t/run'' [CreateDir ''/tmp/t/run'' 488, SetMode ''/tmp/t/run'' 488]
      = (Inr (), [CreateDir ''/tmp/t/run'' 488, SetMode ''/tmp/t/run'' 488] @ xs)" "fold call_effect xs = id"
    using c by blast
  let ?log = "[CreateDir ''/tmp/t/run'' 488, SetMode ''/tmp/t/run'' 488] @ xs
      @ [RemoveFile run_socket, BindSocket run_socket, SetMode run_socket 432]"
  obtain ys where y: "chown_to_invoking_user h run_socket ?log = (Inr (), ?log @ ys)" "fold call_effect ys = id"
    using c by blast
  have "bind_at h run_socket [] = (Inr (), ?log @ ys)"
    using assms x(1) y(1) by (simp add: bind_at_def lock_directory_def run_socket_dir bindS_def syscall_def)
  moreover have "run_socket \<noteq> ''/tmp/t/run''" by (simp add: run_socket_def)
  ultimately show ?thesis
    using x(2) y(2) by (simp add: bind_locks_down_the_socket_directory_and_socket_def run_socket_dir)
qed

text \<open>A set-up succeeds whether or not there is a file, and leaves one.\<close>

lemma bind_at_replaces:
  assumes "he_fault h = file_faults"
  shows "\<exists>log'. bind_at h p log = (Inr (), log') \<and> file_exists log' p"
proof -
  have c: "\<exists>xs. chown_to_invoking_user h q l = (Inr (), l @ xs) \<and> (\<forall>r. file_exists (l @ xs) r = file_exists l r)" for q l
    using assms by (auto simp: chown_to_invoking_user_def syscall_def retS_def file_exists_def file_faults_def
        split: option.split)
  have d: "\<exists>l1. lock_directory h p log = (Inr (), l1)"
    using assms c [of _ "_ @ [_, _]"]
    by (cases "nonempty_parent p")
      (fastforce simp: lock_directory_def retS_def bindS_def syscall_def file_faults_def split: prod.split)+
  then obtain l1 where l1: "lock_directory h p log = (Inr (), l1)" by blast
  obtain l2 where l2: "ignoreS (syscall h (RemoveFile p)) l1 = (Inr (), l2)" "\<not> file_exists l2 p"
    using assms by (cases "file_exists l1 p") (auto simp: ignoreS_def syscall_def file_faults_def file_exists_def)
  let ?l3 = "l2 @ [BindSocket p, SetMode p 432]"
  have "file_exists ?l3 p" by (simp add: file_exists_def)
  moreover have "bind_at h p log = chown_to_invoking_user h p ?l3"
    using assms l1 l2 by (simp add: bind_at_def bindS_def syscall_def file_faults_def)
  ultimately show ?thesis using c [of p ?l3] by auto
qed

lemma bind_replaces_a_stale_socket_passes:
  assumes "he_fault h = file_faults"
  shows "bind_replaces_a_stale_socket h"
proof -
  obtain log where "bind_at h ''/tmp/t/wirefinderd.sock'' [] = (Inr (), log)"
    "file_exists log ''/tmp/t/wirefinderd.sock''"
    using bind_at_replaces [OF assms] by blast
  moreover obtain log' where "bind_at h ''/tmp/t/wirefinderd.sock'' log = (Inr (), log')"
    using bind_at_replaces [OF assms] by blast
  ultimately show ?thesis by (simp add: bind_replaces_a_stale_socket_def)
qed

end
