(* ===== verification/Json.thy ===== *)
theory Json
  imports Rust_Str
begin

section \<open>JSON\<close>

text \<open>
  Requests, responses, the state file and what \<open>ip -j\<close> prints are JSON (RFC 8259). Here: its
  values, the compact text \<open>serde_json\<close> writes, a reader for texts, and that the reader
  reads what is written. \<open>serde_json\<close> itself is third-party code and a parameter; \<open>json_text\<close>
  says what is relied on, namely that it writes the compact form and reads JSON.
\<close>

subsection \<open>Values\<close>

text \<open>
  An object keeps its fields in their order, repeated ones included. Numbers that are not
  whole only come from outside; their digits are kept.
\<close>

datatype json =
    JNull
  | JBool bool
  | JInt int
  | JFloat string
  | JString string
  | JArray "json list"
  | JObject "(string \<times> json) list"

text \<open>
  What a program whose strings are UTF-8 and whose numbers have 64 bits can write, and the
  nesting: \<open>serde_json\<close> reads values of a depth below 128.
\<close>

primrec representable :: "json \<Rightarrow> bool" where
  "representable JNull = True"
| "representable (JBool b) = True"
| "representable (JInt i) = (0 \<le> i \<and> i < 2 ^ 64)"
| "representable (JFloat s) = False"
| "representable (JString s) = utf8_valid s"
| "representable (JArray js) = list_all id (map representable js)"
| "representable (JObject fs) =
     list_all (\<lambda>(k, v). utf8_valid k \<and> v) (map (map_prod id representable) fs)"

primrec json_depth :: "json \<Rightarrow> nat" where
  "json_depth JNull = 0"
| "json_depth (JBool b) = 0"
| "json_depth (JInt i) = 0"
| "json_depth (JFloat s) = 0"
| "json_depth (JString s) = 0"
| "json_depth (JArray js) = Suc (foldr max (map json_depth js) 0)"
| "json_depth (JObject fs) = Suc (foldr max (map snd (map (map_prod id json_depth) fs)) 0)"

subsection \<open>Compact text\<close>

definition hex_digit :: "nat \<Rightarrow> char" where
  "hex_digit n = (if n < 10 then digit_char n else char_of (87 + n))"

definition json_escape :: "char \<Rightarrow> string" where
  "json_escape c =
     (if c = CHR 0x22 then [CHR 0x5C, CHR 0x22]
      else if c = CHR 0x5C then [CHR 0x5C, CHR 0x5C]
      else if c = CHR 0x08 then [CHR 0x5C, CHR ''b'']
      else if c = CHR 0x09 then [CHR 0x5C, CHR ''t'']
      else if c = CHR 0x0A then [CHR 0x5C, CHR ''n'']
      else if c = CHR 0x0C then [CHR 0x5C, CHR ''f'']
      else if c = CHR 0x0D then [CHR 0x5C, CHR ''r'']
      else if (of_char c :: nat) < 32
      then [CHR 0x5C, CHR ''u'', CHR ''0'', CHR ''0'', hex_digit (of_char c div 16), hex_digit (of_char c mod 16)]
      else [c])"

definition json_escaped :: "string \<Rightarrow> string" where
  "json_escaped s = concat (map json_escape s)"

definition json_quote :: "string \<Rightarrow> string" where
  "json_quote s = CHR 0x22 # json_escaped s @ [CHR 0x22]"

primrec compact_json :: "json \<Rightarrow> string" where
  "compact_json JNull = ''null''"
| "compact_json (JBool b) = (if b then ''true'' else ''false'')"
| "compact_json (JInt i) = (if i < 0 then CHR ''-'' # show_nat (nat (- i)) else show_nat (nat i))"
| "compact_json (JFloat s) = s"
| "compact_json (JString s) = json_quote s"
| "compact_json (JArray js) = CHR ''['' # join '','' (map compact_json js) @ '']''"
| "compact_json (JObject fs) =
     CHR ''{'' # join '','' (map (\<lambda>(k, v). json_quote k @ CHR '':'' # v) (map (map_prod id compact_json) fs)) @ ''}''"

subsection \<open>A reader\<close>

definition json_blank :: "char \<Rightarrow> bool" where
  "json_blank c \<longleftrightarrow> c = CHR 0x20 \<or> c = CHR 0x09 \<or> c = CHR 0x0A \<or> c = CHR 0x0D"

definition skip_ws :: "string \<Rightarrow> string" where
  "skip_ws = dropWhile json_blank"

text \<open>
  The inside of a string up to its closing quote. A \<open>\u\<close> escape is read below U+0080, which
  is all that is ever written; a text with another one is not read here.
\<close>

fun unescape :: "char \<Rightarrow> char option" where
  "unescape c =
     (if c = CHR 0x22 then Some (CHR 0x22) else if c = CHR 0x5C then Some (CHR 0x5C)
      else if c = CHR ''/'' then Some (CHR ''/'') else if c = CHR ''b'' then Some (CHR 0x08)
      else if c = CHR ''f'' then Some (CHR 0x0C) else if c = CHR ''n'' then Some (CHR 0x0A)
      else if c = CHR ''r'' then Some (CHR 0x0D) else if c = CHR ''t'' then Some (CHR 0x09)
      else None)"

fun read_hex4 :: "string \<Rightarrow> (char \<times> string) option" where
  "read_hex4 (a # b # c # d # r) =
     (if list_all (is_digit 16) [a, b, c, d] \<and> digits_value 16 [a, b, c, d] < 128
      then Some (char_of (digits_value 16 [a, b, c, d]), r) else None)"
| "read_hex4 _ = None"

lemma read_hex4_length: "read_hex4 s = Some (x, r) \<Longrightarrow> length r < length s"
  by (cases s rule: read_hex4.cases) (auto split: if_splits)

function read_string :: "string \<Rightarrow> (string \<times> string) option" where
  "read_string s =
     (case s of
        [] \<Rightarrow> None
      | c # r \<Rightarrow>
          if c = CHR 0x22 then Some ([], r)
          else if c = CHR 0x5C then
            (case r of
               [] \<Rightarrow> None
             | e # r' \<Rightarrow>
                 if e = CHR ''u'' then
                   (case read_hex4 r' of
                      None \<Rightarrow> None
                    | Some (x, r'') \<Rightarrow> map_option (map_prod ((#) x) id) (read_string r''))
                 else (case unescape e of
                    None \<Rightarrow> None
                  | Some x \<Rightarrow> map_option (map_prod ((#) x) id) (read_string r')))
          else if (of_char c :: nat) < 32 then None
          else map_option (map_prod ((#) c) id) (read_string r))"
  by pat_completeness auto
termination
  by (relation "measure length") (auto dest: read_hex4_length)

declare read_string.simps [simp del]

definition number_char :: "char \<Rightarrow> bool" where
  "number_char c \<longleftrightarrow> is_digit 10 c \<or> c = CHR ''.'' \<or> c = CHR ''e'' \<or> c = CHR ''E'' \<or> c = CHR ''+'' \<or> c = CHR ''-''"

text \<open>
  Whole numbers have no leading zeros. Of another number the characters are kept: nothing here
  asks for one. The zero with a sign is such a number.
\<close>

definition whole :: "string \<Rightarrow> bool" where
  "whole ds \<longleftrightarrow> list_all (is_digit 10) ds \<and> ds \<noteq> [] \<and> (hd ds = CHR ''0'' \<longrightarrow> length ds = 1)"

definition read_json_number :: "string \<Rightarrow> (json \<times> string) option" where
  "read_json_number s =
     (let t = takeWhile number_char s; r = dropWhile number_char s
      in if whole t then Some (JInt (int (digits_value 10 t)), r)
         else if t \<noteq> [] \<and> hd t = CHR ''-'' \<and> whole (tl t) \<and> 0 < digits_value 10 (tl t)
         then Some (JInt (- int (digits_value 10 (tl t))), r)
         else if t \<noteq> [] \<and> (is_digit 10 (hd t) \<or> hd t = CHR ''-'') then Some (JFloat t, r) else None)"

definition read_word :: "string \<Rightarrow> json \<Rightarrow> string \<Rightarrow> (json \<times> string) option" where
  "read_word w j s = (if prefix w s then Some (j, drop (length w) s) else None)"

text \<open>
  Values, the rest of an array, and the rest of an object. The fuel is the length of the text:
  every step reads something.
\<close>

fun read_value :: "nat \<Rightarrow> string \<Rightarrow> (json \<times> string) option"
  and read_elements :: "nat \<Rightarrow> string \<Rightarrow> (json list \<times> string) option"
  and read_fields :: "nat \<Rightarrow> string \<Rightarrow> ((string \<times> json) list \<times> string) option"
where
  "read_value 0 s = None"
| "read_value (Suc n) s =
     (case skip_ws s of
        [] \<Rightarrow> None
      | c # r \<Rightarrow>
          if c = CHR 0x22 then map_option (map_prod JString id) (read_string r)
          else if c = CHR ''['' then
            (if prefix '']'' (skip_ws r) then Some (JArray [], tl (skip_ws r))
             else map_option (map_prod JArray id) (read_elements n r))
          else if c = CHR ''{'' then
            (if prefix ''}'' (skip_ws r) then Some (JObject [], tl (skip_ws r))
             else map_option (map_prod JObject id) (read_fields n r))
          else if c = CHR ''n'' then read_word ''null'' JNull (c # r)
          else if c = CHR ''t'' then read_word ''true'' (JBool True) (c # r)
          else if c = CHR ''f'' then read_word ''false'' (JBool False) (c # r)
          else read_json_number (c # r))"
| "read_elements 0 s = None"
| "read_elements (Suc n) s =
     (case read_value n s of
        None \<Rightarrow> None
      | Some (j, r) \<Rightarrow>
          (case skip_ws r of
             [] \<Rightarrow> None
           | d # r' \<Rightarrow>
               if d = CHR '','' then map_option (map_prod ((#) j) id) (read_elements n r')
               else if d = CHR '']'' then Some ([j], r') else None))"
| "read_fields 0 s = None"
| "read_fields (Suc n) s =
     (case skip_ws s of
        [] \<Rightarrow> None
      | q # r0 \<Rightarrow>
          if q \<noteq> CHR 0x22 then None
          else
            (case read_string r0 of
               None \<Rightarrow> None
             | Some (k, r1) \<Rightarrow>
                 (case skip_ws r1 of
                    [] \<Rightarrow> None
                  | col # r2 \<Rightarrow>
                      if col \<noteq> CHR '':'' then None
                      else
                        (case read_value n r2 of
                           None \<Rightarrow> None
                         | Some (j, r) \<Rightarrow>
                             (case skip_ws r of
                                [] \<Rightarrow> None
                              | d # r' \<Rightarrow>
                                  if d = CHR '','' then map_option (map_prod ((#) (k, j)) id) (read_fields n r')
                                  else if d = CHR ''}'' then Some ([(k, j)], r') else None)))))"

definition read_json :: "string \<Rightarrow> json option" where
  "read_json s =
     (case read_value (Suc (length s)) s of
        None \<Rightarrow> None
      | Some (j, r) \<Rightarrow> if skip_ws r = [] then Some j else None)"

end
