(* ===== verification/Json_Roundtrip.thy ===== *)
theory Json_Roundtrip
  imports Json
begin

section \<open>What is written is read\<close>

subsection \<open>Strings\<close>

lemma hex_digit_value: "n < 16 \<Longrightarrow> digit_value 16 (hex_digit n) = Some n"
  by (auto simp: hex_digit_def digit_value_def digit_char_def Let_def)

lemma read_hex4_control:
  assumes "n < 32"
  shows "read_hex4 (CHR ''0'' # CHR ''0'' # hex_digit (n div 16) # hex_digit (n mod 16) # r) = Some (char_of n, r)"
proof -
  have z: "digit_value 16 CHR ''0'' = Some 0" by (simp add: digit_value_def)
  have d: "digit_value 16 (hex_digit (n div 16)) = Some (n div 16)" "digit_value 16 (hex_digit (n mod 16)) = Some (n mod 16)"
    using assms by (simp_all add: hex_digit_value)
  have "digits_value 16 [CHR ''0'', CHR ''0'', hex_digit (n div 16), hex_digit (n mod 16)] = n"
    by (simp add: digits_value_def z d)
  with assms show ?thesis by (simp add: is_digit_def z d)
qed

lemma read_string_plain:
  assumes "c \<noteq> CHR 0x22" "c \<noteq> CHR 0x5C" "\<not> (of_char c :: nat) < 32"
  shows "read_string (c # r) = map_option (map_prod ((#) c) id) (read_string r)"
  by (subst read_string.simps) (use assms in simp)

lemma read_string_escape:
  assumes "e \<noteq> CHR ''u''" "unescape e = Some x"
  shows "read_string (CHR 0x5C # e # r) = map_option (map_prod ((#) x) id) (read_string r)"
  by (subst read_string.simps) (use assms in \<open>simp del: unescape.simps\<close>)

lemma read_string_unicode:
  assumes "read_hex4 s = Some (x, r)"
  shows "read_string (CHR 0x5C # CHR ''u'' # s) = map_option (map_prod ((#) x) id) (read_string r)"
  by (subst read_string.simps) (simp add: assms)

lemma read_string_step:
  "read_string (json_escape c @ s) = map_option (map_prod ((#) c) id) (read_string s)"
proof -
  have e: "read_string (CHR 0x5C # e # s) = map_option (map_prod ((#) x) id) (read_string s)"
    if "(e, x) \<in> set [(CHR 0x22, CHR 0x22), (CHR 0x5C, CHR 0x5C), (CHR ''b'', CHR 0x08),
      (CHR ''t'', CHR 0x09), (CHR ''n'', CHR 0x0A), (CHR ''f'', CHR 0x0C), (CHR ''r'', CHR 0x0D)]" for e x
    using that by (intro read_string_escape) auto
  consider (short) "c \<in> set [CHR 0x22, CHR 0x5C, CHR 0x08, CHR 0x09, CHR 0x0A, CHR 0x0C, CHR 0x0D]"
    | (control) "c \<notin> set [CHR 0x22, CHR 0x5C, CHR 0x08, CHR 0x09, CHR 0x0A, CHR 0x0C, CHR 0x0D]" "(of_char c :: nat) < 32"
    | (plain) "c \<noteq> CHR 0x22" "c \<noteq> CHR 0x5C" "\<not> (of_char c :: nat) < 32"
    by fastforce
  then show ?thesis
  proof cases
    case short
    then show ?thesis by (auto simp: json_escape_def e)
  next
    case control
    then show ?thesis
      using read_string_unicode [OF read_hex4_control [OF control(2), of s]] by (simp add: json_escape_def)
  next
    case plain
    moreover from plain(3) have "c \<notin> set [CHR 0x08, CHR 0x09, CHR 0x0A, CHR 0x0C, CHR 0x0D]" by auto
    ultimately have "json_escape c = [c]" by (simp add: json_escape_def)
    with plain show ?thesis by (simp add: read_string_plain)
  qed
qed

lemma read_string_escaped: "read_string (json_escaped s @ CHR 0x22 # r) = Some (s, r)"
proof (induction s)
  case Nil
  show ?case by (subst read_string.simps) (simp add: json_escaped_def)
next
  case (Cons c s)
  then show ?case by (simp add: json_escaped_def read_string_step)
qed

subsection \<open>Numbers\<close>

lemma show_nat_hd: "hd (show_nat n) = CHR ''0'' \<longleftrightarrow> n = 0"
proof (induction n rule: show_nat.induct)
  case (1 n)
  show ?case
  proof (cases "n < 10")
    case True
    then have "hd (show_nat n) = digit_char n" by (subst show_nat.simps) simp
    moreover have "digit_char n = CHR ''0'' \<longleftrightarrow> n = 0"
    proof
      assume "digit_char n = CHR ''0''"
      with True digit_value_digit_char [of n] have "digit_value 10 CHR ''0'' = Some n" by simp
      then show "n = 0" by (simp add: digit_value_def)
    next
      assume "n = 0"
      then show "digit_char n = CHR ''0''" by (simp add: digit_char_def char_of_def bit_0)
    qed
    ultimately show ?thesis by simp
  next
    case False
    then have "hd (show_nat n) = hd (show_nat (n div 10))" by (subst show_nat.simps) simp
    with False 1 show ?thesis by simp
  qed
qed

lemma whole_show_nat: "whole (show_nat n)"
proof -
  have "hd (show_nat n) = CHR ''0'' \<Longrightarrow> length (show_nat n) = 1"
    using show_nat_hd [of n] by (simp add: show_nat.simps)
  then show ?thesis using show_nat_digits [of n] by (simp add: whole_def)
qed

definition ends_number :: "string \<Rightarrow> bool" where
  "ends_number r \<longleftrightarrow> r = [] \<or> \<not> number_char (hd r)"

lemma ends_number_simps [simp]:
  "ends_number []" "ends_number (CHR '','' # r)" "ends_number (CHR '']'' # r)" "ends_number (CHR ''}'' # r)"
  "ends_number (CHR 0x0A # r)"
  by (simp_all add: ends_number_def number_char_def is_digit_def digit_value_def)

lemma read_json_number_show:
  assumes "ends_number r"
  shows "read_json_number (show_nat n @ r) = Some (JInt (int n), r)"
proof -
  have n: "\<forall>c \<in> set (show_nat n). number_char c"
    using show_nat_digits [of n] by (simp add: number_char_def list_all_iff)
  then have "takeWhile number_char (show_nat n @ r) = show_nat n" "dropWhile number_char (show_nat n @ r) = r"
    using assms by (cases r, simp_all add: takeWhile_append2 dropWhile_append2 ends_number_def)+
  then show ?thesis by (simp add: read_json_number_def Let_def whole_show_nat)
qed

subsection \<open>Values\<close>

lemma join_simps [simp]:
  "join sep [] = []" "join sep [x] = x" "join sep (x # y # ys) = x @ sep @ join sep (y # ys)"
  by (simp_all add: join_def)

lemma compact_starts:
  assumes "representable j"
  shows "\<exists>c t. compact_json j = c # t \<and> \<not> json_blank c \<and> c \<noteq> CHR '']''"
proof (cases j)
  case (JInt i)
  obtain c t where t: "show_nat (nat i) = c # t" by (cases "show_nat (nat i)") auto
  then have "is_digit 10 c" using show_nat_digits [of "nat i"] by simp
  then have "\<not> json_blank c" "c \<noteq> CHR '']''"
    by (auto simp: is_digit_def digit_value_def json_blank_def)
  with t assms JInt show ?thesis by simp
qed (use assms in \<open>auto simp: json_blank_def json_quote_def\<close>)

lemma skip_ws_nonblank: "\<not> json_blank c \<Longrightarrow> skip_ws (c # s) = c # s"
  by (simp add: skip_ws_def)

lemma skip_ws_simps [simp]:
  "skip_ws [] = []" "skip_ws (CHR 0x22 # r) = CHR 0x22 # r" "skip_ws (CHR '','' # r) = CHR '','' # r"
  "skip_ws (CHR '':'' # r) = CHR '':'' # r" "skip_ws (CHR '']'' # r) = CHR '']'' # r"
  "skip_ws (CHR ''}'' # r) = CHR ''}'' # r" "skip_ws (CHR ''['' # r) = CHR ''['' # r"
  "skip_ws (CHR ''{'' # r) = CHR ''{'' # r"
  by (simp_all add: skip_ws_def json_blank_def)

definition reads_back :: "json \<Rightarrow> bool" where
  "reads_back j \<longleftrightarrow>
     (\<forall>n r. length (compact_json j) \<le> n \<longrightarrow> ends_number r \<longrightarrow> read_value (Suc n) (compact_json j @ r) = Some (j, r))"

lemma reads_backD:
  "reads_back j \<Longrightarrow> length (compact_json j) < n \<Longrightarrow> ends_number r \<Longrightarrow> read_value n (compact_json j @ r) = Some (j, r)"
  by (cases n) (simp_all add: reads_back_def)

lemma read_elements_compact:
  assumes "\<forall>j \<in> set js. reads_back j" "js \<noteq> []" "length (join '','' (map compact_json js)) + 1 < n"
  shows "read_elements n (join '','' (map compact_json js) @ CHR '']'' # r) = Some (js, r)"
  using assms
proof (induction js arbitrary: n)
  case Nil
  then show ?case by simp
next
  case (Cons j js)
  obtain m where n: "n = Suc m" using Cons.prems(3) by (cases n) auto
  show ?case
  proof (cases js)
    case Nil
    with Cons.prems n show ?thesis by (simp add: reads_backD)
  next
    case (Cons k ks)
    let ?rest = "join '','' (map compact_json js) @ CHR '']'' # r"
    have "read_value m (compact_json j @ CHR '','' # ?rest) = Some (j, CHR '','' # ?rest)"
      using Cons.prems n Cons by (intro reads_backD) simp_all
    moreover have "read_elements m ?rest = Some (js, r)"
      using Cons.prems n Cons by (intro Cons.IH) simp_all
    ultimately show ?thesis by (simp add: n Cons)
  qed
qed

lemma read_fields_compact:
  assumes "\<forall>(k, j) \<in> set fs. reads_back j" "fs \<noteq> []"
    and "length (join '','' (map (\<lambda>(k, j). json_quote k @ CHR '':'' # compact_json j) fs)) + 1 < n"
  shows "read_fields n (join '','' (map (\<lambda>(k, j). json_quote k @ CHR '':'' # compact_json j) fs) @ CHR ''}'' # r) = Some (fs, r)"
  using assms
proof (induction fs arbitrary: n)
  case Nil
  then show ?case by simp
next
  case (Cons f fs)
  obtain m where n: "n = Suc m" using Cons.prems(3) by (cases n) auto
  obtain k j where f: "f = (k, j)" by (cases f)
  show ?case
  proof (cases fs)
    case Nil
    have "read_value m (compact_json j @ CHR ''}'' # r) = Some (j, CHR ''}'' # r)"
      using Cons.prems n Nil f by (intro reads_backD) simp_all
    then show ?thesis by (simp add: n f Nil json_quote_def read_string_escaped)
  next
    case (Cons g gs)
    let ?rest = "join '','' (map (\<lambda>(k, j). json_quote k @ CHR '':'' # compact_json j) fs) @ CHR ''}'' # r"
    have "read_value m (compact_json j @ CHR '','' # ?rest) = Some (j, CHR '','' # ?rest)"
      using Cons.prems n Cons f by (intro reads_backD) simp_all
    moreover have "read_fields m ?rest = Some (fs, r)"
      using Cons.prems n Cons f by (intro Cons.IH) simp_all
    ultimately show ?thesis by (simp add: n f Cons json_quote_def read_string_escaped)
  qed
qed

lemma representable_reads_back: "representable j \<Longrightarrow> reads_back j"
proof (induction j)
  case (JInt i)
  have d: "read_value (Suc n) (show_nat k @ r) = read_json_number (show_nat k @ r)" for n k r
  proof -
    obtain c t where t: "show_nat k = c # t" by (cases "show_nat k") auto
    then have "is_digit 10 c" using show_nat_digits [of k] by simp
    then have "c \<notin> set [CHR 0x22, CHR ''['', CHR ''{'', CHR ''n'', CHR ''t'', CHR ''f'']" "\<not> json_blank c"
      by (auto simp: is_digit_def digit_value_def json_blank_def)
    then show ?thesis by (simp add: t skip_ws_nonblank)
  qed
  from JInt show ?case by (simp add: reads_back_def d read_json_number_show del: read_value.simps)
next
  case (JString s)
  show ?case by (simp add: reads_back_def json_quote_def read_string_escaped)
next
  case (JArray js)
  show ?case
  proof (cases js)
    case Nil
    then show ?thesis by (simp add: reads_back_def)
  next
    case (Cons k ks)
    have b: "\<forall>j \<in> set js. reads_back j" using JArray by (auto simp: list_all_iff)
    have "representable k" using JArray.prems Cons by simp
    from compact_starts [OF this] obtain c t where c: "compact_json k = c # t" "\<not> json_blank c" "c \<noteq> CHR '']''" by blast
    then obtain t' where "join '','' (map compact_json js) = c # t'" using Cons by (cases ks) simp_all
    with c have "\<not> prefix '']'' (skip_ws (join '','' (map compact_json js) @ CHR '']'' # r))" for r
      by (simp add: skip_ws_nonblank)
    moreover have "read_elements n (join '','' (map compact_json js) @ CHR '']'' # r) = Some (js, r)"
      if "length (compact_json (JArray js)) \<le> n" for n r
      using b Cons that by (intro read_elements_compact) simp_all
    ultimately show ?thesis by (simp add: reads_back_def)
  qed
next
  case (JObject fs)
  let ?fields = "join '','' (map (\<lambda>(k, j). json_quote k @ CHR '':'' # compact_json j) fs)"
  have form: "compact_json (JObject fs) = CHR ''{'' # ?fields @ ''}''"
    by (simp add: comp_def split_beta' map_prod_def case_prod_unfold)
  show ?case
  proof (cases fs)
    case Nil
    then show ?thesis by (simp add: reads_back_def)
  next
    case (Cons f gs)
    have b: "\<forall>(k, j) \<in> set fs. reads_back j"
      using JObject by (fastforce simp: list_all_iff)
    have len: "length (compact_json (JObject fs)) = length ?fields + 2" unfolding form by simp
    obtain k j where "f = (k, j)" by (cases f)
    then obtain t where "?fields = CHR 0x22 # t" using Cons by (cases gs) (simp_all add: json_quote_def)
    then have "\<not> prefix ''}'' (skip_ws (?fields @ CHR ''}'' # r))" for r by simp
    moreover have "read_fields n (?fields @ CHR ''}'' # r) = Some (fs, r)"
      if "length (compact_json (JObject fs)) \<le> n" for n r
      using b Cons that len by (intro read_fields_compact) (simp_all del: compact_json.simps)
    ultimately show ?thesis unfolding reads_back_def form by simp
  qed
qed (simp_all add: reads_back_def read_word_def skip_ws_nonblank json_blank_def)

theorem read_json_compact:
  assumes "representable j" "list_all json_blank ws"
  shows "read_json (compact_json j @ ws) = Some j"
proof -
  have "ends_number ws" 
    using assms(2) by (cases ws) (auto simp: ends_number_def number_char_def is_digit_def digit_value_def json_blank_def)
  moreover have "skip_ws ws = []" using assms(2) by (simp add: skip_ws_def list_all_iff)
  ultimately show ?thesis
    using reads_backD [OF representable_reads_back [OF assms(1)], of "Suc (length (compact_json j @ ws))" ws]
    by (simp add: read_json_def del: read_value.simps)
qed

subsection \<open>The text is one line of UTF-8\<close>

text \<open>A decoded character is a matter of its bytes alone: at most four, each there.\<close>

definition chunk_of :: "nat \<Rightarrow> nat \<Rightarrow> nat \<Rightarrow> nat \<Rightarrow> bool \<times> nat" where
  "chunk_of w x y z =
     (let cont = (\<lambda>b. 128 \<le> b \<and> b < 192)
      in if w < 128 then (True, 1)
         else if 0xC2 \<le> w \<and> w \<le> 0xDF then (if cont x then (True, 2) else (False, 1))
         else if 0xE0 \<le> w \<and> w \<le> 0xEF then
           (if \<not> (cont x \<and> (w = 0xE0 \<longrightarrow> 0xA0 \<le> x) \<and> (w = 0xED \<longrightarrow> x < 0xA0)) then (False, 1)
            else if \<not> cont y then (False, 2) else (True, 3))
         else if 0xF0 \<le> w \<and> w \<le> 0xF4 then
           (if \<not> (cont x \<and> (w = 0xF0 \<longrightarrow> 0x90 \<le> x) \<and> (w = 0xF4 \<longrightarrow> x < 0x90)) then (False, 1)
            else if \<not> cont y then (False, 2) else if \<not> cont z then (False, 3) else (True, 4))
         else (False, 1))"

abbreviation byte_at :: "string \<Rightarrow> nat \<Rightarrow> nat" where
  "byte_at s i \<equiv> if i < length s then of_char (s ! i) else 0"

lemma utf8_chunk_of: "utf8_chunk s = chunk_of (byte_at s 0) (byte_at s 1) (byte_at s 2) (byte_at s 3)"
  unfolding utf8_chunk_def chunk_of_def Let_def by (rule refl)

lemma chunk_of_bytes:
  assumes "chunk_of w x y z = (True, n)"
  shows "(2 \<le> n \<longrightarrow> 128 \<le> w \<and> 128 \<le> x) \<and> (3 \<le> n \<longrightarrow> 128 \<le> y) \<and> (4 \<le> n \<longrightarrow> 128 \<le> z) \<and> 1 \<le> n \<and> n \<le> 4"
  using assms by (simp add: chunk_of_def Let_def split: if_splits)

lemma chunk_of_cong:
  assumes "chunk_of w x y z = (True, n)" "2 \<le> n \<longrightarrow> x' = x" "3 \<le> n \<longrightarrow> y' = y" "4 \<le> n \<longrightarrow> z' = z"
  shows "chunk_of w x' y' z' = (True, n)"
  using assms by (simp add: chunk_of_def Let_def split: if_splits)

lemma utf8_chunk_bytes:
  assumes "utf8_chunk s = (True, n)" "s \<noteq> []"
  shows "1 \<le> n" "n \<le> length s" "2 \<le> n \<Longrightarrow> \<forall>c \<in> set (take n s). 128 \<le> (of_char c :: nat)"
proof -
  note n = assms(1) [unfolded utf8_chunk_of]
  have there: "i < length s" if "128 \<le> byte_at s i" for i
    using that by (cases "i < length s") simp_all
  from chunk_of_bytes [OF n] consider "n = 1" | "n = 2" "128 \<le> byte_at s 0" "128 \<le> byte_at s 1"
    | "n = 3" "128 \<le> byte_at s 0" "128 \<le> byte_at s 1" "128 \<le> byte_at s 2"
    | "n = 4" "128 \<le> byte_at s 0" "128 \<le> byte_at s 1" "128 \<le> byte_at s 2" "128 \<le> byte_at s 3"
    by linarith
  then have "1 \<le> n \<and> n \<le> length s \<and> (2 \<le> n \<longrightarrow> (\<forall>i < n. 128 \<le> byte_at s i))"
    using assms(2) there [of 1] there [of 2] there [of 3]
    by cases (simp_all add: Suc_le_eq less_Suc_eq numeral_nat)
  then show "1 \<le> n" "n \<le> length s" "2 \<le> n \<Longrightarrow> \<forall>c \<in> set (take n s). 128 \<le> (of_char c :: nat)"
    by (auto simp: all_set_conv_all_nth)
qed

lemma utf8_chunk_take:
  assumes "utf8_chunk s = (True, n)" "s \<noteq> []" "take n t = take n s"
  shows "utf8_chunk t = (True, n)"
proof -
  have l: "n \<le> length s" "1 \<le> n" using utf8_chunk_bytes [OF assms(1,2)] by simp_all
  then have "n \<le> length t" using arg_cong [OF assms(3), of length] by simp
  then have same: "byte_at t i = byte_at s i" if "Suc i \<le> n" for i
    using that l arg_cong [OF assms(3), of "\<lambda>u. u ! i"] by simp
  have "chunk_of (byte_at t 0) (byte_at t 1) (byte_at t 2) (byte_at t 3) = (True, n)"
    unfolding same [of 0, OF l(2) [unfolded One_nat_def]]
    by (rule chunk_of_cong [OF assms(1) [unfolded utf8_chunk_of]]) (use same [of 1] same [of 2] same [of 3] in simp_all)
  then show ?thesis by (simp add: utf8_chunk_of)
qed

text \<open>\<open>utf8_valid\<close> one character at a time.\<close>

lemma utf8_valid_chunk:
  assumes "utf8_chunk s = (True, n)" "s \<noteq> []"
  shows "utf8_valid (take n s @ t) \<longleftrightarrow> utf8_valid t"
proof -
  have "take n (take n s @ t) = take n s" using utf8_chunk_bytes(2) [OF assms] by simp
  from utf8_chunk_take [OF assms this] show ?thesis
    using utf8_chunk_bytes(1,2) [OF assms] assms(2) by (subst utf8_valid.simps) simp
qed

lemma utf8_cases [consumes 1, case_names Nil chunk]:
  assumes "utf8_valid s"
  obtains "s = []" | n where "s \<noteq> []" "utf8_chunk s = (True, n)" "utf8_valid (drop n s)" "length (drop n s) < length s"
proof (cases "s = []")
  case False
  with assms have "fst (utf8_chunk s) \<and> utf8_valid (drop (snd (utf8_chunk s)) s)" by (subst (asm) utf8_valid.simps) simp
  moreover have "length (drop (snd (utf8_chunk s)) s) < length s" using False utf8_chunk_pos [of s] by simp
  ultimately show ?thesis using that(2) [of "snd (utf8_chunk s)"] False by (metis prod.collapse)
qed (rule that(1))

lemma utf8_valid_Nil [simp]: "utf8_valid []"
  by (subst utf8_valid.simps) simp

lemma utf8_valid_append: "utf8_valid s \<Longrightarrow> utf8_valid (s @ r) \<longleftrightarrow> utf8_valid r"
proof (induction "length s" arbitrary: s rule: less_induct)
  case less
  from less.prems show ?case
  proof (cases rule: utf8_cases)
    case (chunk n)
    have "utf8_valid (take n s @ drop n s @ r) \<longleftrightarrow> utf8_valid (drop n s @ r)"
      by (rule utf8_valid_chunk [OF chunk(2,1)])
    with less.hyps [OF chunk(4,3)] show ?thesis by (simp flip: append_assoc)
  qed simp
qed

lemma utf8_valid_Cons_ascii: "(of_char c :: nat) < 128 \<Longrightarrow> utf8_valid (c # s) \<longleftrightarrow> utf8_valid s"
  using utf8_valid_append [of "[c]" s] by (simp add: utf8_valid_ascii)

lemma json_escape_ascii: "(of_char c :: nat) < 128 \<Longrightarrow> list_all (\<lambda>d. (of_char d :: nat) < 128) (json_escape c)"
proof -
  have "(of_char c :: nat) mod 16 < 16" by simp
  then have "(of_char c :: nat) mod 16 < 41" by linarith
  then show "(of_char c :: nat) < 128 \<Longrightarrow> ?thesis" by (simp add: json_escape_def hex_digit_def digit_char_def)
qed

lemma escaped_wide: "\<forall>c \<in> set s. 128 \<le> (of_char c :: nat) \<Longrightarrow> json_escaped s = s"
proof (induction s)
  case (Cons c s)
  then have "\<not> (of_char c :: nat) < 128" by simp
  then have "c \<notin> set [CHR 0x22, CHR 0x5C, CHR 0x08, CHR 0x09, CHR 0x0A, CHR 0x0C, CHR 0x0D]"
    "\<not> (of_char c :: nat) < 32" by auto
  then have "json_escape c = [c]" by (simp add: json_escape_def)
  with Cons show ?case by (simp add: json_escaped_def)
qed (simp add: json_escaped_def)

lemma escaped_append: "json_escaped (s @ t) = json_escaped s @ json_escaped t"
  by (simp add: json_escaped_def)

lemma utf8_valid_escaped: "utf8_valid s \<Longrightarrow> utf8_valid (json_escaped s)"
proof (induction "length s" arbitrary: s rule: less_induct)
  case less
  from less.prems show ?case
  proof (cases rule: utf8_cases)
    case Nil
    then show ?thesis by (simp add: json_escaped_def)
  next
    case (chunk n)
    have e: "json_escaped s = json_escaped (take n s) @ json_escaped (drop n s)" by (simp flip: escaped_append)
    have "utf8_valid (json_escaped (take n s) @ json_escaped (drop n s)) \<longleftrightarrow> utf8_valid (json_escaped (drop n s))"
    proof (cases "2 \<le> n")
      case True
      then show ?thesis
        using escaped_wide utf8_chunk_bytes(3) [OF chunk(2,1)] utf8_valid_chunk [OF chunk(2,1)] by simp
    next
      case False
      with utf8_chunk_bytes(1) [OF chunk(2,1)] have n: "n = 1" by simp
      obtain c t where s: "s = c # t" using chunk(1) by (cases s) auto
      have "(of_char c :: nat) < 128"
        using chunk(2) s n by (auto simp: utf8_chunk_of chunk_of_def Let_def split: if_splits)
      then show ?thesis
        using utf8_valid_append [OF utf8_valid_ascii [OF json_escape_ascii]] by (simp add: s n json_escaped_def)
    qed
    with less.hyps [OF chunk(4,3)] show ?thesis unfolding e by simp
  qed
qed

lemma utf8_valid_join:
  assumes "list_all utf8_valid ss" "utf8_valid sep"
  shows "utf8_valid (join sep ss)"
  using assms by (induction ss rule: induct_list012) (simp_all add: utf8_valid_append)

lemma utf8_valid_quote: "utf8_valid s \<Longrightarrow> utf8_valid (json_quote s)"
  by (simp add: json_quote_def utf8_valid_Cons_ascii utf8_valid_append utf8_valid_escaped)

lemma compact_fields: "map (\<lambda>(k, v). f k @ CHR '':'' # v) (map (map_prod id compact_json) fs)
    = map (\<lambda>(k, j). f k @ CHR '':'' # compact_json j) fs"
  by (simp add: comp_def case_prod_unfold)

lemma utf8_valid_compact: "representable j \<Longrightarrow> utf8_valid (compact_json j)"
proof (induction j)
  case (JInt i)
  have "list_all (\<lambda>c. (of_char c :: nat) < 128) (show_nat n)" for n
    using show_nat_digits [of n] by (auto simp: list_all_iff is_digit_def digit_value_def Let_def split: if_splits)
  then show ?case by (auto intro: utf8_valid_ascii)
next
  case (JArray js)
  then have "utf8_valid (join '','' (map compact_json js))"
    by (intro utf8_valid_join) (auto simp: list_all_iff utf8_valid_Cons_ascii)
  then show ?case by (simp add: utf8_valid_Cons_ascii utf8_valid_append)
next
  case (JObject fs)
  have "utf8_valid (json_quote k @ CHR '':'' # compact_json j)" if "(k, j) \<in> set fs" for k j
    using JObject that by (fastforce simp: list_all_iff utf8_valid_append utf8_valid_quote utf8_valid_Cons_ascii)
  then have "utf8_valid (join '','' (map (\<lambda>(k, j). json_quote k @ CHR '':'' # compact_json j) fs))"
    by (intro utf8_valid_join) (auto simp: list_all_iff utf8_valid_Cons_ascii)
  then show ?case by (simp add: utf8_valid_Cons_ascii utf8_valid_append compact_fields del: map_map)
qed (simp_all add: utf8_valid_ascii utf8_valid_quote)

lemma set_join: "set (join sep ss) \<subseteq> \<Union> (set (map set ss)) \<union> set sep"
  by (induction ss rule: induct_list012) auto

lemma hex_digit_no_newline: "n < 16 \<Longrightarrow> hex_digit n \<noteq> CHR 0x0A"
  using hex_digit_value [of n] by (auto simp: digit_value_def)

lemma escape_no_newline: "CHR 0x0A \<notin> set (json_escape c)"
proof -
  have "(of_char c :: nat) div 16 < 16" by (rule less_mult_imp_div_less) simp
  then show ?thesis
    using hex_digit_no_newline [of "of_char c div 16"] hex_digit_no_newline [of "of_char c mod 16"]
    by (simp add: json_escape_def eq_commute [of "CHR 0x0A"])
qed

lemma quote_no_newline: "CHR 0x0A \<notin> set (json_quote s)"
  using escape_no_newline by (auto simp: json_quote_def json_escaped_def)

lemma compact_no_newline: "representable j \<Longrightarrow> CHR 0x0A \<notin> set (compact_json j)"
proof (induction j)
  case (JInt i)
  have "CHR 0x0A \<notin> set (show_nat n)" for n
    using show_nat_graphic [of n] by (auto simp: graphic_def)
  with JInt show ?case by simp
next
  case (JArray js)
  then have "CHR 0x0A \<notin> \<Union> (set (map set (map compact_json js))) \<union> set '',''" by (auto simp: list_all_iff)
  then have "CHR 0x0A \<notin> set (join '','' (map compact_json js))" using set_join by blast
  then show ?case by simp
next
  case (JObject fs)
  let ?fields = "map (\<lambda>(k, j). json_quote k @ CHR '':'' # compact_json j) fs"
  have "CHR 0x0A \<notin> set (json_quote k @ CHR '':'' # compact_json j)" if "(k, j) \<in> set fs" for k j
    using JObject that quote_no_newline by (fastforce simp: list_all_iff)
  then have "CHR 0x0A \<notin> \<Union> (set (map set ?fields)) \<union> set '',''" by auto
  then have "CHR 0x0A \<notin> set (join '','' ?fields)" using set_join by blast
  then show ?case by (simp add: compact_fields del: map_map)
qed (use quote_no_newline in simp_all)

section \<open>What is relied on of the JSON library\<close>

text \<open>
  \<open>serde_json\<close>: the text of a value, compact (\<open>to_string\<close>, \<open>to_writer\<close>) and with blanks
  (\<open>to_string_pretty\<close>), the value of a text if it is one, and the message where a text is not
  of the named type that was asked for.
\<close>

record json_lib =
  jl_compact :: "json \<Rightarrow> string"
  jl_pretty :: "json \<Rightarrow> string"
  jl_read :: "string \<Rightarrow> json option"
  jl_message :: "string \<Rightarrow> string \<Rightarrow> string"

definition json_text :: "json_lib \<Rightarrow> bool" where
  "json_text jl \<longleftrightarrow>
     (\<forall>s j. utf8_valid s \<longrightarrow> read_json s = Some j \<longrightarrow> representable j \<longrightarrow> json_depth j < 128 \<longrightarrow> jl_read jl s = Some j)
   \<and> (\<forall>j. representable j \<longrightarrow> jl_compact jl j = compact_json j)
   \<and> (\<forall>j. representable j \<longrightarrow> utf8_valid (jl_pretty jl j) \<and> read_json (jl_pretty jl j) = Some j)"

lemma json_textD:
  assumes "json_text jl"
  shows "utf8_valid s \<Longrightarrow> read_json s = Some j \<Longrightarrow> representable j \<Longrightarrow> json_depth j < 128 \<Longrightarrow> jl_read jl s = Some j"
    and "representable j \<Longrightarrow> jl_compact jl j = compact_json j"
    and "representable j \<Longrightarrow> utf8_valid (jl_pretty jl j) \<and> read_json (jl_pretty jl j) = Some j"
  using assms unfolding json_text_def by blast+

text \<open>A library that does just that.\<close>

definition plain_json :: json_lib where
  "plain_json = \<lparr>jl_compact = compact_json, jl_pretty = compact_json, jl_read = read_json,
     jl_message = (\<lambda>ty s. ''expected value at line 1 column 1'')\<rparr>"

lemma plain_json_text: "json_text plain_json"
  using read_json_compact [of _ "[]"] by (simp add: json_text_def plain_json_def utf8_valid_compact)

end
