(* ===== verification/Wire.thy ===== *)
theory Wire
  imports Json_Roundtrip Config "HOL-Library.Monad_Syntax"
begin

section \<open>The types of the protocol as JSON\<close>

text \<open>
  Almost every type of \<open>proto/src/lib.rs\<close> and \<open>config.rs\<close> derives serde's \<open>Serialize\<close> and
  \<open>Deserialize\<close>. What the derivation means for a type is its declaration: the names, order and
  types of its fields or variants and the attributes \<open>#[serde(default)]\<close>. It is written out here
  for every type, with serde's documented rules as combinators: a struct is an object with its
  fields in order; an enum is externally tagged; an \<open>Option\<close> is null or the value.
\<close>

subsection \<open>Writing\<close>

definition opt_json :: "('a \<Rightarrow> json) \<Rightarrow> 'a option \<Rightarrow> json" where
  "opt_json f x = (case x of None \<Rightarrow> JNull | Some y \<Rightarrow> f y)"

definition strings_json :: "string list \<Rightarrow> json" where
  "strings_json ss = JArray (map JString ss)"

definition uint_json :: "'a :: len word \<Rightarrow> json" where
  "uint_json w = JInt (uint w)"

definition tagged :: "string \<Rightarrow> json \<Rightarrow> json" where
  "tagged tag j = JObject [(tag, j)]"

subsection \<open>Reading\<close>

text \<open>
  A value of another type is an error, whose message the program takes from the library; here
  it is \<open>None\<close>.
\<close>

definition of_string :: "json \<Rightarrow> string option" where
  "of_string j = (case j of JString s \<Rightarrow> Some s | _ \<Rightarrow> None)"

definition of_bool :: "json \<Rightarrow> bool option" where
  "of_bool j = (case j of JBool b \<Rightarrow> Some b | _ \<Rightarrow> None)"

definition of_uint :: "json \<Rightarrow> 'a :: len word option" where
  "of_uint j = (case j of
     JInt i \<Rightarrow> if 0 \<le> i \<and> i < 2 ^ LENGTH('a) then Some (word_of_int i) else None
   | _ \<Rightarrow> None)"

definition of_opt :: "(json \<Rightarrow> 'a option) \<Rightarrow> json \<Rightarrow> 'a option option" where
  "of_opt f j = (if j = JNull then Some None else map_option Some (f j))"

definition of_array :: "(json \<Rightarrow> 'a option) \<Rightarrow> json \<Rightarrow> 'a list option" where
  "of_array f j = (case j of JArray js \<Rightarrow> those (map f js) | _ \<Rightarrow> None)"

text \<open>
  A struct with the given fields: from an object, in any order and with fields of other names
  ignored, but no field twice; or from an array that has the fields in order, the last of which may
  be missing. The flag tells the two apart, the function gives the fields that are there.
\<close>

definition of_struct :: "string list \<Rightarrow> json \<Rightarrow> (bool \<times> (string \<Rightarrow> json option)) option" where
  "of_struct names j = (case j of
     JObject fs \<Rightarrow>
       if distinct (filter (\<lambda>k. k \<in> set names) (map fst fs)) then Some (True, map_of fs) else None
   | JArray js \<Rightarrow> if length js \<le> length names then Some (False, map_of (zip names js)) else None
   | _ \<Rightarrow> None)"

text \<open>
  A field that is not there is an error, unless \<open>#[serde(default)]\<close> says what it is, or it is an
  \<open>Option\<close> and the fields are given by name.
\<close>

definition required :: "(json \<Rightarrow> 'a option) \<Rightarrow> json option \<Rightarrow> 'a option" where
  "required f x = (case x of None \<Rightarrow> None | Some j \<Rightarrow> f j)"

definition defaulted :: "'a \<Rightarrow> (json \<Rightarrow> 'a option) \<Rightarrow> json option \<Rightarrow> 'a option" where
  "defaulted d f x = (case x of None \<Rightarrow> Some d | Some j \<Rightarrow> f j)"

definition optional :: "bool \<Rightarrow> (json \<Rightarrow> 'a option) \<Rightarrow> json option \<Rightarrow> 'a option option" where
  "optional by_name f x =
     (case x of None \<Rightarrow> if by_name then Some None else None | Some j \<Rightarrow> of_opt f j)"

text \<open>A variant: its name alone, or an object with its name and what it carries.\<close>

definition of_variant :: "json \<Rightarrow> (string \<times> json option) option" where
  "of_variant j = (case j of
     JString tag \<Rightarrow> Some (tag, None)
   | JObject [(tag, v)] \<Rightarrow> Some (tag, Some v)
   | _ \<Rightarrow> None)"

definition unit_variant :: "'a \<Rightarrow> json option \<Rightarrow> 'a option" where
  "unit_variant x v = (if v = None \<or> v = Some JNull then Some x else None)"

subsection \<open>The protocol\<close>

definition conn_state_json :: "conn_state \<Rightarrow> json" where
  "conn_state_json st = JString (case st of
     Alive \<Rightarrow> ''Alive'' | Connecting \<Rightarrow> ''Connecting'' | Stale \<Rightarrow> ''Stale'' | Never \<Rightarrow> ''Never'')"

definition conn_state_of_json :: "json \<Rightarrow> conn_state option" where
  "conn_state_of_json j = do {
     (tag, v) \<leftarrow> of_variant j;
     if tag = ''Alive'' then unit_variant Alive v
     else if tag = ''Connecting'' then unit_variant Connecting v
     else if tag = ''Stale'' then unit_variant Stale v
     else if tag = ''Never'' then unit_variant Never v
     else None }"

definition spec_fields :: "server_spec \<Rightarrow> (string \<times> json) list" where
  "spec_fields s =
     [(''name'', JString (spec_name s)),
      (''private_key'', opt_json JString (spec_private_key s)),
      (''public_key'', JString (spec_public_key s)),
      (''endpoint'', JString (spec_endpoint s)),
      (''addresses'', strings_json (spec_addresses s)),
      (''allowed_ips'', strings_json (spec_allowed_ips s)),
      (''listen_port'', opt_json uint_json (spec_listen_port s)),
      (''mtu'', opt_json uint_json (spec_mtu s)),
      (''keepalive'', opt_json uint_json (spec_keepalive s)),
      (''preshared_key'', opt_json JString (spec_preshared_key s)),
      (''dns'', strings_json (spec_dns s))]"

definition spec_names :: "string list" where
  "spec_names = [''name'', ''private_key'', ''public_key'', ''endpoint'', ''addresses'', ''allowed_ips'',
     ''listen_port'', ''mtu'', ''keepalive'', ''preshared_key'', ''dns'']"

definition spec_of_json :: "json \<Rightarrow> server_spec option" where
  "spec_of_json j = do {
     (by_name, field) \<leftarrow> of_struct spec_names j;
     name \<leftarrow> required of_string (field ''name'');
     private_key \<leftarrow> defaulted None (of_opt of_string) (field ''private_key'');
     public_key \<leftarrow> required of_string (field ''public_key'');
     endpoint \<leftarrow> required of_string (field ''endpoint'');
     addresses \<leftarrow> required (of_array of_string) (field ''addresses'');
     allowed_ips \<leftarrow> required (of_array of_string) (field ''allowed_ips'');
     listen_port \<leftarrow> defaulted None (of_opt of_uint) (field ''listen_port'');
     mtu \<leftarrow> defaulted None (of_opt of_uint) (field ''mtu'');
     keepalive \<leftarrow> defaulted None (of_opt of_uint) (field ''keepalive'');
     preshared_key \<leftarrow> defaulted None (of_opt of_string) (field ''preshared_key'');
     dns \<leftarrow> defaulted [] (of_array of_string) (field ''dns'');
     Some \<lparr>spec_name = name, spec_private_key = private_key, spec_public_key = public_key,
        spec_endpoint = endpoint, spec_addresses = addresses, spec_allowed_ips = allowed_ips,
        spec_listen_port = listen_port, spec_mtu = mtu, spec_keepalive = keepalive,
        spec_preshared_key = preshared_key, spec_dns = dns\<rparr> }"

definition request_json :: "request \<Rightarrow> json" where
  "request_json req = (case req of
     ReqStatus \<Rightarrow> JString ''Status''
   | ReqListServers query \<Rightarrow> tagged ''ListServers'' (JObject [(''query'', opt_json JString query)])
   | ReqGetServer name \<Rightarrow> tagged ''GetServer'' (JObject [(''name'', JString name)])
   | ReqAddServer server \<Rightarrow> tagged ''AddServer'' (JObject [(''server'', JObject (spec_fields server))])
   | ReqEditServer server \<Rightarrow> tagged ''EditServer'' (JObject [(''server'', JObject (spec_fields server))])
   | ReqImportServer name conf \<Rightarrow>
       tagged ''ImportServer'' (JObject [(''name'', JString name), (''conf'', JString conf)])
   | ReqRemoveServer name \<Rightarrow> tagged ''RemoveServer'' (JObject [(''name'', JString name)])
   | ReqSwitchServer name \<Rightarrow> tagged ''SwitchServer'' (JObject [(''name'', JString name)])
   | ReqDisconnect \<Rightarrow> JString ''Disconnect'')"

text \<open>A struct variant with one field that has no default.\<close>

definition one_field :: "string \<Rightarrow> (json \<Rightarrow> 'a option) \<Rightarrow> json \<Rightarrow> 'a option" where
  "one_field k f j = do { (by_name, field) \<leftarrow> of_struct [k] j; required f (field k) }"

definition request_of_json :: "json \<Rightarrow> request option" where
  "request_of_json j = do {
     (tag, v) \<leftarrow> of_variant j;
     if tag = ''Status'' then unit_variant ReqStatus v
     else if tag = ''ListServers'' then do {
       (by_name, field) \<leftarrow> required (of_struct [''query'']) v;
       query \<leftarrow> defaulted None (of_opt of_string) (field ''query'');
       Some (ReqListServers query) }
     else if tag = ''GetServer'' then map_option ReqGetServer (required (one_field ''name'' of_string) v)
     else if tag = ''AddServer'' then map_option ReqAddServer (required (one_field ''server'' spec_of_json) v)
     else if tag = ''EditServer'' then map_option ReqEditServer (required (one_field ''server'' spec_of_json) v)
     else if tag = ''ImportServer'' then do {
       (by_name, field) \<leftarrow> required (of_struct [''name'', ''conf'']) v;
       name \<leftarrow> required of_string (field ''name'');
       conf \<leftarrow> required of_string (field ''conf'');
       Some (ReqImportServer name conf) }
     else if tag = ''RemoveServer'' then map_option ReqRemoveServer (required (one_field ''name'' of_string) v)
     else if tag = ''SwitchServer'' then map_option ReqSwitchServer (required (one_field ''name'' of_string) v)
     else if tag = ''Disconnect'' then unit_variant ReqDisconnect v
     else None }"

definition info_json :: "server_info \<Rightarrow> json" where
  "info_json i = JObject
     [(''name'', JString (info_name i)),
      (''endpoint'', JString (info_endpoint i)),
      (''addresses'', strings_json (info_addresses i)),
      (''public_key'', JString (info_public_key i)),
      (''active'', JBool (info_active i)),
      (''state'', opt_json conn_state_json (info_state i))]"

definition info_of_json :: "json \<Rightarrow> server_info option" where
  "info_of_json j = do {
     (by_name, field) \<leftarrow>
       of_struct [''name'', ''endpoint'', ''addresses'', ''public_key'', ''active'', ''state''] j;
     name \<leftarrow> required of_string (field ''name'');
     endpoint \<leftarrow> required of_string (field ''endpoint'');
     addresses \<leftarrow> required (of_array of_string) (field ''addresses'');
     public_key \<leftarrow> required of_string (field ''public_key'');
     active \<leftarrow> required of_bool (field ''active'');
     state \<leftarrow> defaulted None (of_opt conn_state_of_json) (field ''state'');
     Some \<lparr>info_name = name, info_endpoint = endpoint, info_addresses = addresses,
        info_public_key = public_key, info_active = active, info_state = state\<rparr> }"

definition detail_json :: "server_detail \<Rightarrow> json" where
  "detail_json d = JObject
     [(''name'', JString (detail_name d)),
      (''public_key'', JString (detail_public_key d)),
      (''endpoint'', JString (detail_endpoint d)),
      (''addresses'', strings_json (detail_addresses d)),
      (''allowed_ips'', strings_json (detail_allowed_ips d)),
      (''listen_port'', opt_json uint_json (detail_listen_port d)),
      (''mtu'', opt_json uint_json (detail_mtu d)),
      (''keepalive'', opt_json uint_json (detail_keepalive d)),
      (''has_preshared_key'', JBool (detail_has_preshared_key d)),
      (''dns'', strings_json (detail_dns d))]"

definition detail_of_json :: "json \<Rightarrow> server_detail option" where
  "detail_of_json j = do {
     (by_name, field) \<leftarrow> of_struct [''name'', ''public_key'', ''endpoint'', ''addresses'', ''allowed_ips'',
        ''listen_port'', ''mtu'', ''keepalive'', ''has_preshared_key'', ''dns''] j;
     name \<leftarrow> required of_string (field ''name'');
     public_key \<leftarrow> required of_string (field ''public_key'');
     endpoint \<leftarrow> required of_string (field ''endpoint'');
     addresses \<leftarrow> required (of_array of_string) (field ''addresses'');
     allowed_ips \<leftarrow> required (of_array of_string) (field ''allowed_ips'');
     listen_port \<leftarrow> defaulted None (of_opt of_uint) (field ''listen_port'');
     mtu \<leftarrow> defaulted None (of_opt of_uint) (field ''mtu'');
     keepalive \<leftarrow> defaulted None (of_opt of_uint) (field ''keepalive'');
     has_preshared_key \<leftarrow> required of_bool (field ''has_preshared_key'');
     dns \<leftarrow> defaulted [] (of_array of_string) (field ''dns'');
     Some \<lparr>detail_name = name, detail_public_key = public_key, detail_endpoint = endpoint,
        detail_addresses = addresses, detail_allowed_ips = allowed_ips, detail_listen_port = listen_port,
        detail_mtu = mtu, detail_keepalive = keepalive, detail_has_preshared_key = has_preshared_key,
        detail_dns = dns\<rparr> }"

definition peer_status_json :: "peer_status \<Rightarrow> json" where
  "peer_status_json p = JObject
     [(''public_key'', JString (ps_public_key p)),
      (''endpoint'', opt_json JString (ps_endpoint p)),
      (''allowed_ips'', strings_json (ps_allowed_ips p)),
      (''state'', conn_state_json (ps_state p)),
      (''handshake_age_secs'', opt_json uint_json (ps_handshake_age_secs p)),
      (''rx_bytes'', uint_json (ps_rx_bytes p)),
      (''tx_bytes'', uint_json (ps_tx_bytes p))]"

definition peer_status_of_json :: "json \<Rightarrow> peer_status option" where
  "peer_status_of_json j = do {
     (by_name, field) \<leftarrow> of_struct [''public_key'', ''endpoint'', ''allowed_ips'', ''state'',
        ''handshake_age_secs'', ''rx_bytes'', ''tx_bytes''] j;
     public_key \<leftarrow> required of_string (field ''public_key'');
     endpoint \<leftarrow> optional by_name of_string (field ''endpoint'');
     allowed_ips \<leftarrow> required (of_array of_string) (field ''allowed_ips'');
     state \<leftarrow> required conn_state_of_json (field ''state'');
     age \<leftarrow> optional by_name of_uint (field ''handshake_age_secs'');
     rx_bytes \<leftarrow> required of_uint (field ''rx_bytes'');
     tx_bytes \<leftarrow> required of_uint (field ''tx_bytes'');
     Some \<lparr>ps_public_key = public_key, ps_endpoint = endpoint, ps_allowed_ips = allowed_ips,
        ps_state = state, ps_handshake_age_secs = age, ps_rx_bytes = rx_bytes, ps_tx_bytes = tx_bytes\<rparr> }"

definition interface_status_json :: "interface_status \<Rightarrow> json" where
  "interface_status_json s = JObject
     [(''name'', JString (is_name s)),
      (''listen_port'', uint_json (is_listen_port s)),
      (''peers'', JArray (map peer_status_json (is_peers s)))]"

definition interface_status_of_json :: "json \<Rightarrow> interface_status option" where
  "interface_status_of_json j = do {
     (by_name, field) \<leftarrow> of_struct [''name'', ''listen_port'', ''peers''] j;
     name \<leftarrow> required of_string (field ''name'');
     listen_port \<leftarrow> required of_uint (field ''listen_port'');
     peers \<leftarrow> required (of_array peer_status_of_json) (field ''peers'');
     Some \<lparr>is_name = name, is_listen_port = listen_port, is_peers = peers\<rparr> }"

definition response_json :: "response \<Rightarrow> json" where
  "response_json resp = (case resp of
     RespStatus s \<Rightarrow> tagged ''Status'' (interface_status_json s)
   | RespDisconnected \<Rightarrow> JString ''Disconnected''
   | RespServers l \<Rightarrow> tagged ''Servers'' (JArray (map info_json l))
   | RespServerDetail d \<Rightarrow> tagged ''ServerDetail'' (detail_json d)
   | RespSwitched name \<Rightarrow> tagged ''Switched'' (JObject [(''name'', JString name)])
   | RespError e \<Rightarrow> tagged ''Error'' (JString e))"

definition response_of_json :: "json \<Rightarrow> response option" where
  "response_of_json j = do {
     (tag, v) \<leftarrow> of_variant j;
     if tag = ''Status'' then map_option RespStatus (required interface_status_of_json v)
     else if tag = ''Disconnected'' then unit_variant RespDisconnected v
     else if tag = ''Servers'' then map_option RespServers (required (of_array info_of_json) v)
     else if tag = ''ServerDetail'' then map_option RespServerDetail (required detail_of_json v)
     else if tag = ''Switched'' then map_option RespSwitched (required (one_field ''name'' of_string) v)
     else if tag = ''Error'' then map_option RespError (required of_string v)
     else None }"

subsection \<open>The state file\<close>

definition server_config_fields :: "server_config \<Rightarrow> (string \<times> json) list" where
  "server_config_fields s =
     [(''name'', JString (sc_name s)),
      (''private_key'', JString (sc_private_key s)),
      (''public_key'', JString (sc_public_key s)),
      (''endpoint'', JString (sc_endpoint s)),
      (''resolved_endpoint'', opt_json JString (sc_resolved_endpoint s)),
      (''addresses'', strings_json (sc_addresses s)),
      (''allowed_ips'', strings_json (sc_allowed_ips s)),
      (''listen_port'', uint_json (sc_listen_port s)),
      (''mtu'', opt_json uint_json (sc_mtu s)),
      (''keepalive'', opt_json uint_json (sc_keepalive s)),
      (''preshared_key'', opt_json JString (sc_preshared_key s)),
      (''dns'', strings_json (sc_dns s))]"

definition server_names :: "string list" where
  "server_names = [''name'', ''private_key'', ''public_key'', ''endpoint'', ''resolved_endpoint'', ''addresses'',
     ''allowed_ips'', ''listen_port'', ''mtu'', ''keepalive'', ''preshared_key'', ''dns'']"

definition server_of_json :: "json \<Rightarrow> server_config option" where
  "server_of_json j = do {
     (by_name, field) \<leftarrow> of_struct server_names j;
     name \<leftarrow> required of_string (field ''name'');
     private_key \<leftarrow> required of_string (field ''private_key'');
     public_key \<leftarrow> required of_string (field ''public_key'');
     endpoint \<leftarrow> required of_string (field ''endpoint'');
     resolved_endpoint \<leftarrow> defaulted None (of_opt of_string) (field ''resolved_endpoint'');
     addresses \<leftarrow> required (of_array of_string) (field ''addresses'');
     allowed_ips \<leftarrow> required (of_array of_string) (field ''allowed_ips'');
     listen_port \<leftarrow> required of_uint (field ''listen_port'');
     mtu \<leftarrow> defaulted None (of_opt of_uint) (field ''mtu'');
     keepalive \<leftarrow> defaulted None (of_opt of_uint) (field ''keepalive'');
     preshared_key \<leftarrow> defaulted None (of_opt of_string) (field ''preshared_key'');
     dns \<leftarrow> defaulted [] (of_array of_string) (field ''dns'');
     Some \<lparr>sc_name = name, sc_private_key = private_key, sc_public_key = public_key, sc_endpoint = endpoint,
        sc_resolved_endpoint = resolved_endpoint, sc_addresses = addresses, sc_allowed_ips = allowed_ips,
        sc_listen_port = listen_port, sc_mtu = mtu, sc_keepalive = keepalive,
        sc_preshared_key = preshared_key, sc_dns = dns\<rparr> }"

definition config_json :: "config \<Rightarrow> json" where
  "config_json c = JObject [(''servers'', JArray (map (\<lambda>s. JObject (server_config_fields s)) (servers c)))]"

definition config_of_json :: "json \<Rightarrow> config option" where
  "config_of_json j = do {
     (by_name, field) \<leftarrow> of_struct [''servers''] j;
     l \<leftarrow> defaulted [] (of_array server_of_json) (field ''servers'');
     Some \<lparr>servers = l\<rparr> }"

subsection \<open>The output of \<open>ip -j\<close>\<close>

definition route_entry_of_json :: "json \<Rightarrow> string option option" where
  "route_entry_of_json j = do {
     (by_name, field) \<leftarrow> of_struct [''dst''] j;
     optional by_name of_string (field ''dst'') }"

section \<open>Round trips\<close>

lemma of_string_simps [simp]: "of_string (JString s) = Some s"
  by (simp add: of_string_def)

lemma of_bool_simps [simp]: "of_bool (JBool b) = Some b"
  by (simp add: of_bool_def)

lemma of_uint_json [simp]: "of_uint (uint_json w) = Some w"
  by (simp add: of_uint_def uint_json_def)

lemma of_opt_json:
  assumes "\<And>y. x = Some y \<Longrightarrow> f (g y) = Some y \<and> g y \<noteq> JNull"
  shows "of_opt f (opt_json g x) = Some x"
  using assms by (cases x) (simp_all add: of_opt_def opt_json_def)

lemma of_opt_string [simp]: "of_opt of_string (opt_json JString x) = Some x"
  by (rule of_opt_json) simp

lemma of_opt_uint [simp]: "of_opt of_uint (opt_json uint_json x) = Some x"
  by (rule of_opt_json) (simp, simp add: uint_json_def)

lemma of_array_map:
  assumes "\<forall>x \<in> set xs. f (g x) = Some x"
  shows "of_array f (JArray (map g xs)) = Some xs"
  using assms by (induction xs) (simp_all add: of_array_def)

lemma of_array_strings [simp]: "of_array of_string (strings_json ss) = Some ss"
  unfolding strings_json_def by (rule of_array_map) simp

lemma of_struct_object [simp]:
  "distinct (filter (\<lambda>k. k \<in> set names) (map fst fs)) \<Longrightarrow> of_struct names (JObject fs) = Some (True, map_of fs)"
  by (simp add: of_struct_def)

lemma field_simps_wire [simp]:
  "required f (Some j) = f j" "defaulted d f (Some j) = f j" "optional b f (Some j) = of_opt f j"
  "required f None = None" "defaulted d f None = Some d" "optional True f None = Some None"
  by (simp_all add: required_def defaulted_def optional_def)

lemma of_variant_simps [simp]:
  "of_variant (JString tag) = Some (tag, None)" "of_variant (tagged tag v) = Some (tag, Some v)"
  by (simp_all add: of_variant_def tagged_def)

lemma unit_variant_simps [simp]: "unit_variant x None = Some x" "unit_variant x (Some JNull) = Some x"
  by (simp_all add: unit_variant_def)

lemma conn_state_roundtrip [simp]: "conn_state_of_json (conn_state_json st) = Some st"
  by (cases st) (simp_all add: conn_state_of_json_def conn_state_json_def)

lemma of_opt_conn_state [simp]: "of_opt conn_state_of_json (opt_json conn_state_json x) = Some x"
  by (rule of_opt_json) (simp, simp add: conn_state_json_def)

lemma spec_roundtrip [simp]: "spec_of_json (JObject (spec_fields s)) = Some s"
  by (simp add: spec_of_json_def spec_fields_def spec_names_def)

lemma request_roundtrip [simp]: "request_of_json (request_json req) = Some req"
  by (cases req) (simp_all add: request_of_json_def request_json_def one_field_def)

lemma info_roundtrip [simp]: "info_of_json (info_json i) = Some i"
  by (simp add: info_of_json_def info_json_def)

lemma detail_roundtrip [simp]: "detail_of_json (detail_json d) = Some d"
  by (simp add: detail_of_json_def detail_json_def)

lemma peer_status_roundtrip [simp]: "peer_status_of_json (peer_status_json p) = Some p"
  by (simp add: peer_status_of_json_def peer_status_json_def)

lemma interface_status_roundtrip [simp]: "interface_status_of_json (interface_status_json s) = Some s"
  by (simp add: interface_status_of_json_def interface_status_json_def of_array_map)

lemma response_roundtrip [simp]: "response_of_json (response_json resp) = Some resp"
  by (cases resp) (simp_all add: response_of_json_def response_json_def one_field_def of_array_map)

lemma server_roundtrip [simp]: "server_of_json (JObject (server_config_fields s)) = Some s"
  by (simp add: server_of_json_def server_config_fields_def server_names_def)

lemma config_roundtrip [simp]: "config_of_json (config_json c) = Some c"
  by (simp add: config_of_json_def config_json_def of_array_map)

end
