(* ===== verification/Wire_Codec.thy ===== *)
theory Wire_Codec
  imports Wire Server
begin

section \<open>Reading exactly\<close>

lemma of_string_iff: "of_string j = Some s \<longleftrightarrow> j = JString s"
  by (cases j) (auto simp: of_string_def)

lemma of_uint_iff: "of_uint j = Some w \<longleftrightarrow> j = uint_json w"
proof
  assume "of_uint j = Some w"
  then obtain i where "j = JInt i" "0 \<le> i" "i < 2 ^ LENGTH('a)" "w = word_of_int i"
    by (auto simp: of_uint_def split: json.splits if_splits)
  then show "j = uint_json w" by (simp add: uint_json_def uint_word_of_int_eq take_bit_int_eq_self)
qed simp

lemma of_opt_iff:
  assumes "\<And>j y. f j = Some y \<longleftrightarrow> j = g y" "\<And>y. g y \<noteq> JNull"
  shows "of_opt f j = Some x \<longleftrightarrow> j = opt_json g x"
  using assms(2) by (cases x) (auto simp: of_opt_def opt_json_def assms(1), metis)

lemma of_opt_string_iff: "of_opt of_string j = Some x \<longleftrightarrow> j = opt_json JString x"
  by (rule of_opt_iff) (simp_all add: of_string_iff)

lemma of_opt_uint_iff: "of_opt of_uint j = Some x \<longleftrightarrow> j = opt_json uint_json x"
  by (rule of_opt_iff) (simp_all add: of_uint_iff, simp add: uint_json_def)

lemma those_eq_Some: "those xs = Some ys \<longleftrightarrow> xs = map Some ys"
  by (induction xs arbitrary: ys) (auto split: option.splits)

lemma of_array_strings_iff: "of_array of_string j = Some ss \<longleftrightarrow> j = strings_json ss"
proof (cases j)
  case (JArray js)
  have "map of_string js = map Some ss \<longleftrightarrow> js = map JString ss"
    by (induction js arbitrary: ss) (auto simp: of_string_iff Cons_eq_map_conv)
  with JArray show ?thesis by (simp add: of_array_def strings_json_def those_eq_Some)
qed (simp_all add: of_array_def strings_json_def)

text \<open>What the fields of a struct are if it is read as a given value.\<close>

lemma required_exact:
  "required of_string x = Some y \<longleftrightarrow> x = Some (JString y)"
  "required (of_array of_string) x = Some ss \<longleftrightarrow> x = Some (strings_json ss)"
  "required of_uint x = Some w \<longleftrightarrow> x = Some (uint_json w)"
  by (cases x; simp add: of_string_iff of_array_strings_iff of_uint_iff)+

lemma defaulted_exact:
  "defaulted None (of_opt of_string) x = Some y \<longleftrightarrow> x = Some (opt_json JString y) \<or> x = None \<and> y = None"
  "defaulted None (of_opt of_uint) x = Some v \<longleftrightarrow> x = Some (opt_json uint_json v) \<or> x = None \<and> v = None"
  "defaulted [] (of_array of_string) x = Some ss \<longleftrightarrow> x = Some (strings_json ss) \<or> x = None \<and> ss = []"
  by (cases x; auto simp: of_opt_string_iff of_opt_uint_iff of_array_strings_iff)+

lemma default_values:
  "opt_json JString y = JNull \<longleftrightarrow> y = None" "opt_json uint_json v = JNull \<longleftrightarrow> v = None"
  "opt_json JString y \<noteq> JArray []" "opt_json uint_json v \<noteq> JArray []"
  "strings_json ss \<noteq> JNull" "strings_json ss = JArray [] \<longleftrightarrow> ss = []"
  by (simp_all add: opt_json_def strings_json_def uint_json_def split: option.split)

lemma of_struct_bind: "Option.bind (of_struct names (JObject fs)) (\<lambda>(b, field). f b field) = Some x \<longleftrightarrow>
    distinct (filter (\<lambda>k. k \<in> set names) (map fst fs)) \<and> f True (map_of fs) = Some x"
  by (simp add: of_struct_def)

text \<open>
  The fields of an object that say the same as a list of fields with some of them defaulted: each is
  there with its value, or it is not there, has a default and is the default.
\<close>

definition same_fields :: "string list \<Rightarrow> (string \<times> json) list \<Rightarrow> (string \<times> json) list \<Rightarrow> bool" where
  "same_fields defaults gs fs \<longleftrightarrow>
     distinct (filter (\<lambda>k. k \<in> set (map fst gs)) (map fst fs))
   \<and> (\<forall>(k, j) \<in> set gs. map_of fs k = Some j
        \<or> map_of fs k = None \<and> k \<in> set defaults \<and> (j = JNull \<or> j = JArray []))"

lemma server_of_exact:
  "server_of_json (JObject fs) = Some s
   \<longleftrightarrow> same_fields [''resolved_endpoint'', ''mtu'', ''keepalive'', ''preshared_key'', ''dns''] (server_config_fields s) fs"
proof -
  have n: "map fst (server_config_fields s) = server_names" by (simp add: server_config_fields_def server_names_def)
  show ?thesis
    unfolding same_fields_def n server_of_json_def of_struct_bind
    by (cases s) (simp add: bind_eq_Some_conv required_exact defaulted_exact server_config_fields_def default_values)
qed

lemma spec_of_exact:
  "spec_of_json (JObject fs) = Some s
   \<longleftrightarrow> same_fields [''private_key'', ''listen_port'', ''mtu'', ''keepalive'', ''preshared_key'', ''dns'']
         (spec_fields s) fs"
proof -
  have n: "map fst (spec_fields s) = spec_names" by (simp add: spec_fields_def spec_names_def)
  show ?thesis
    unfolding same_fields_def n spec_of_json_def of_struct_bind
    by (cases s) (simp add: bind_eq_Some_conv required_exact defaulted_exact spec_fields_def default_values)
qed

section \<open>The codecs\<close>

text \<open>
  The tree of a text does not depend on what is read from it; the message of a failure does.
  \<open>to_writer\<close> and \<open>to_string\<close> never fail on these types.
\<close>

definition read_as :: "json_lib \<Rightarrow> string \<Rightarrow> (json \<Rightarrow> 'a option) \<Rightarrow> string \<Rightarrow> 'a result" where
  "read_as jl ty f s = ok_or (Option.bind (jl_read jl s) f) (jl_message jl ty s)"

definition wire :: "json_lib \<Rightarrow> codec" where
  "wire jl =
     \<lparr>cd_enc_request = (\<lambda>req. Inr (jl_compact jl (request_json req))),
      cd_dec_request = read_as jl ''Request'' request_of_json,
      cd_enc_response = (\<lambda>resp. Inr (jl_compact jl (response_json resp))),
      cd_dec_response = read_as jl ''Response'' response_of_json\<rparr>"

text \<open>
  The state file. Configurations whose strings are not UTF-8 are none of the program's; they have
  no text here.
\<close>

definition state_enc :: "json_lib \<Rightarrow> config \<Rightarrow> string result" where
  "state_enc jl c =
     (if representable (config_json c) then Inr (jl_pretty jl (config_json c)) else Inl ''not UTF-8'')"

definition state_dec :: "json_lib \<Rightarrow> string \<Rightarrow> config result" where
  "state_dec jl = read_as jl ''Config'' config_of_json"

definition route_dec :: "json_lib \<Rightarrow> string \<Rightarrow> string option list result" where
  "route_dec jl = read_as jl ''Vec<Entry>'' (of_array route_entry_of_json)"

subsection \<open>Depth\<close>

lemma foldr_max_le: "foldr max ns 0 \<le> (b :: nat) \<longleftrightarrow> list_all (\<lambda>n. n \<le> b) ns"
  by (induction ns) auto

lemma depth_array: "json_depth (JArray js) \<le> Suc b \<longleftrightarrow> list_all (\<lambda>j. json_depth j \<le> b) js"
  by (simp add: foldr_max_le list.pred_map comp_def)

lemma depth_object: "json_depth (JObject fs) \<le> Suc b \<longleftrightarrow> list_all (\<lambda>(k, j). json_depth j \<le> b) fs"
  by (simp add: foldr_max_le list.pred_map comp_def case_prod_unfold)

lemma depth_leaves [simp]:
  "json_depth (opt_json JString x) = 0" "json_depth (opt_json uint_json v) = 0" "json_depth (uint_json w) = 0"
  "json_depth (conn_state_json st) = 0" "json_depth (opt_json conn_state_json y) = 0"
  by (simp_all add: opt_json_def uint_json_def conn_state_json_def split: option.split)

lemma depth_strings: "json_depth (strings_json ss) \<le> Suc b"
  unfolding strings_json_def depth_array by (simp add: list.pred_map comp_def list_all_iff)

lemma depth_server: "json_depth (JObject (server_config_fields s)) \<le> Suc (Suc b)"
  unfolding depth_object by (simp add: server_config_fields_def depth_strings)

lemma depth_spec: "list_all (\<lambda>(k, j). json_depth j \<le> Suc b) (spec_fields s)"
  by (simp add: spec_fields_def depth_strings)

lemma depth_info: "json_depth (info_json i) \<le> Suc (Suc b)"
  unfolding info_json_def depth_object by (simp add: depth_strings)

lemma depth_detail: "json_depth (detail_json d) \<le> Suc (Suc b)"
  unfolding detail_json_def depth_object by (simp add: depth_strings)

lemma depth_peer: "json_depth (peer_status_json p) \<le> Suc (Suc b)"
  unfolding peer_status_json_def depth_object by (simp add: depth_strings)

lemma depth_status: "json_depth (interface_status_json s) \<le> Suc (Suc (Suc (Suc b)))"
  unfolding interface_status_json_def depth_object by (simp add: depth_array list_all_iff depth_peer del: json_depth.simps(6))

lemma depth_config: "json_depth (config_json c) \<le> Suc (Suc (Suc (Suc 0)))"
  unfolding config_json_def depth_object
  by (simp add: depth_array list_all_iff depth_server del: json_depth.simps(6,7))

lemma depth_request: "json_depth (request_json req) \<le> Suc (Suc (Suc (Suc 0)))"
  by (cases req) (simp_all add: request_json_def tagged_def depth_object depth_spec del: json_depth.simps(6,7))

lemma depth_response: "json_depth (response_json resp) \<le> Suc (Suc (Suc (Suc (Suc 0))))"
  by (cases resp)
    (simp_all add: response_json_def tagged_def depth_object depth_array list_all_iff depth_info depth_detail
      depth_status del: json_depth.simps(6,7))

subsection \<open>What is written is read\<close>

lemma read_as_line:
  assumes "json_text jl" "representable j" "json_depth j < 128" "f j = Some x"
  shows "read_as jl ty f (compact_json j @ [newline]) = Inr x"
proof -
  have "read_json (compact_json j @ [newline]) = Some j"
    by (rule read_json_compact [OF assms(2)]) (simp add: json_blank_def newline_def)
  moreover have "utf8_valid (compact_json j @ [newline])"
    using assms(2) by (simp add: utf8_valid_append utf8_valid_compact utf8_valid_Cons_ascii newline_def)
  ultimately have "jl_read jl (compact_json j @ [newline]) = Some j" using json_textD(1) [OF assms(1)] assms(2,3) by blast
  with assms(4) show ?thesis by (simp add: read_as_def ok_or_def)
qed

lemma line_of_json:
  assumes "json_text jl" "representable (g x)" "json_depth (g x) < 128" "f (g x) = Some x"
  shows "line_codec (\<lambda>x. Inr (jl_compact jl (g x))) (read_as jl ty f) x (compact_json (g x))"
  using assms read_as_line [OF assms(1-3)] utf8_valid_Cons_ascii [of newline "[]"]
  by (simp add: line_codec_def json_textD(2) newline_def [symmetric] compact_no_newline [folded newline_def]
      utf8_valid_append utf8_valid_compact) (simp add: newline_def)

lemma request_line:
  assumes "json_text jl" "representable (request_json req)"
  shows "line_codec (cd_enc_request (wire jl)) (cd_dec_request (wire jl)) req (compact_json (request_json req))"
  using line_of_json [where g = request_json, OF assms, of request_of_json "''Request''"] depth_request [of req] by (simp add: wire_def)

lemma response_line:
  assumes "json_text jl" "representable (response_json resp)"
  shows "line_codec (cd_enc_response (wire jl)) (cd_dec_response (wire jl)) resp (compact_json (response_json resp))"
  using line_of_json [where g = response_json, OF assms, of response_of_json "''Response''"] depth_response [of resp] by (simp add: wire_def)

lemma state_codec_ok:
  assumes "json_text jl"
  shows "codec_ok (state_enc jl) (state_dec jl)"
  unfolding codec_ok_def
proof (intro allI impI)
  fix c json assume "state_enc jl c = Inr json"
  then have r: "representable (config_json c)" and j: "json = jl_pretty jl (config_json c)"
    by (simp_all add: state_enc_def split: if_splits)
  note p = json_textD(3) [OF assms r]
  have "json_depth (config_json c) < 128" using depth_config [of c] by simp
  with p r j have "jl_read jl json = Some (config_json c)" using json_textD(1) [OF assms] by simp
  with p j show "state_dec jl json = Inr c \<and> utf8_valid json" by (simp add: state_dec_def read_as_def ok_or_def)
qed

section \<open>Properties of the wire format\<close>

text \<open>
  C24: what one side writes the other side reads back, whatever is in it. A request and a response
  is one line of UTF-8 that is read as the same request or response, quotes, line feeds and control
  characters in names, configurations and messages included; and a state file is read as the
  configuration it was written from, which the properties of the daemon and its store rely on.
\<close>

theorem wire_roundtrip:
  assumes "json_text jl"
  shows "(representable (request_json req) \<longrightarrow>
      line_codec (cd_enc_request (wire jl)) (cd_dec_request (wire jl)) req (compact_json (request_json req)))
    \<and> (representable (response_json resp) \<longrightarrow>
      line_codec (cd_enc_response (wire jl)) (cd_dec_response (wire jl)) resp (compact_json (response_json resp)))
    \<and> codec_ok (state_enc jl) (state_dec jl)
    \<and> (representable (config_json c) \<longrightarrow> state_dec jl (jl_pretty jl (config_json c)) = Inr c)"
  using request_line [OF assms] response_line [OF assms] state_codec_ok [OF assms]
  by (auto simp: codec_ok_def state_enc_def)

text \<open>
  C19: which JSON objects are read as a given server of the state file, or of a request: exactly those that
  have its fields, in any order, unknown ones among them but no known one twice, where a field with a
  default may be left out if it has it. So the files and the requests of a version without one of the
  optional fields are read as they were meant, and none without a required field is.
\<close>

theorem objects_read_exactly:
  "(server_of_json (JObject fs) = Some s \<longleftrightarrow>
      same_fields [''resolved_endpoint'', ''mtu'', ''keepalive'', ''preshared_key'', ''dns''] (server_config_fields s) fs)
   \<and> (spec_of_json (JObject fs) = Some spec \<longleftrightarrow>
      same_fields [''private_key'', ''listen_port'', ''mtu'', ''keepalive'', ''preshared_key'', ''dns'']
        (spec_fields spec) fs)"
  using server_of_exact spec_of_exact by blast

text \<open>
  C32: a client that asks the daemon over the socket gets the answer of the daemon's handler, and
  the daemon is the one the handler leaves: neither the transport nor the encoding adds or loses
  anything, for a request whose JSON fits into 64 KiB with its line feed.
\<close>

theorem request_over_wire:
  assumes "json_text jl" and "handle dp ev req d = (Inr resp, d')"
    and "representable (request_json req)" and "length (compact_json (request_json req)) < 65536"
    and "representable (response_json resp)"
  shows "\<exists>c'. ipc_request (socket_ipc dp (wire jl) ev) (cd_enc_request (wire jl)) (cd_dec_response (wire jl)) req (c, d)
    = (Inr resp, c', d')"
  by (rule ipc_over_socket [OF assms(2) request_line [OF assms(1,3)] assms(4) response_line [OF assms(1,5)]])

theorem request_over_wire_witness:
  "\<exists>c' d'. ipc_request (socket_ipc (sample_deps one_server) (wire plain_json) sample_env)
     (cd_enc_request (wire plain_json)) (cd_dec_response (wire plain_json)) ReqStatus (noise, sample_daemon one_server)
    = (Inr RespDisconnected, c', d')"
proof -
  have "\<exists>d'. handle (sample_deps one_server) sample_env ReqStatus (sample_daemon one_server) = (Inr RespDisconnected, d')"
    by (simp add: read_status_def bindS_def on_wg_def sample_deps_def sample_daemon_def fake_wireguard_def
        fake_status_def fake_live_def fake_default_def)
  then obtain d' where h: "handle (sample_deps one_server) sample_env ReqStatus (sample_daemon one_server)
      = (Inr RespDisconnected, d')" by blast
  show ?thesis
    using request_over_wire [OF plain_json_text h, of noise]
    by (auto simp: request_json_def response_json_def utf8_valid_ascii json_quote_def json_escaped_def json_escape_def)
qed

theorem wire_roundtrip_witness:
  "cd_dec_request (wire plain_json) (compact_json (request_json (ReqGetServer ''nexus'')) @ [newline]) = Inr (ReqGetServer ''nexus'')"
  using wire_roundtrip [OF plain_json_text, of "ReqGetServer ''nexus''" RespDisconnected config_default]
  by (simp add: line_codec_def request_json_def tagged_def utf8_valid_ascii)

end
