(* ===== verification/Wire_Secrets.thy ===== *)
theory Wire_Secrets
  imports Wire_Codec Daemon_Views
begin

section \<open>Keys in the text of JSON\<close>

text \<open>
  Where a text that looks like a key, a long run of base64 characters, can occur in what is
  written to a client: in one of the strings that are written, and not across two of them, nor in
  the punctuation, the numbers and the names of the fields.
\<close>

definition base64_char :: "char \<Rightarrow> bool" where
  "base64_char c \<longleftrightarrow> is_ascii_alphanumeric c \<or> c = CHR ''+'' \<or> c = CHR ''/'' \<or> c = CHR ''=''"

definition key_like :: "string \<Rightarrow> bool" where
  "key_like k \<longleftrightarrow> list_all base64_char k \<and> 25 < length k"

primrec json_strings :: "json \<Rightarrow> string list" where
  "json_strings JNull = []"
| "json_strings (JBool b) = []"
| "json_strings (JInt i) = []"
| "json_strings (JFloat s) = []"
| "json_strings (JString s) = [s]"
| "json_strings (JArray js) = concat (map json_strings js)"
| "json_strings (JObject fs) = concat (map (\<lambda>(k, ss). k # ss) (map (map_prod id json_strings) fs))"

lemma key_like_free:
  assumes "key_like k"
  shows "CHR 0x22 \<notin> set k" "CHR '','' \<notin> set k" "CHR '':'' \<notin> set k" "CHR ''['' \<notin> set k" "CHR '']'' \<notin> set k"
    "CHR ''{'' \<notin> set k" "CHR ''}'' \<notin> set k" "k \<noteq> []"
  using assms by (auto simp: key_like_def list_all_iff base64_char_def is_ascii_alphanumeric_def Let_def)

lemma sublist_delimited:
  assumes "d \<notin> set s"
  shows "sublist s (a @ d # b) \<longleftrightarrow> sublist s a \<or> sublist s b"
proof
  assume "sublist s (a @ d # b)"
  then consider "sublist s a" | "sublist s (d # b)"
    | s1 s2 where "s = s1 @ s2" "suffix s1 a" "prefix s2 (d # b)"
    unfolding sublist_append by blast
  then show "sublist s a \<or> sublist s b"
  proof cases
    case 2
    with assms show ?thesis by (cases s) (auto simp: sublist_Cons_right prefix_Cons)
  next
    case 3
    with assms have "s2 = []" by (cases s2) (auto simp: prefix_Cons)
    with 3 show ?thesis by simp
  qed simp
next
  assume "sublist s a \<or> sublist s b"
  then show "sublist s (a @ d # b)"
    by (auto simp: sublist_append sublist_Cons_right)
qed

lemma sublist_delimited_hd:
  assumes "d \<notin> set s"
  shows "sublist s (d # b) \<longleftrightarrow> s = [] \<or> sublist s b"
  using sublist_delimited [OF assms, of "[]" b] by simp

lemma sublist_delimited_last:
  assumes "d \<notin> set s"
  shows "sublist s (a @ [d]) \<longleftrightarrow> sublist s a"
  using sublist_delimited [OF assms, of a "[]"] by auto

lemma sublist_join:
  assumes "d \<notin> set s" "s \<noteq> []" "sublist s (join [d] xs)"
  shows "\<exists>x \<in> set xs. sublist s x"
  using assms(3)
  by (induction xs rule: induct_list012) (use assms(1,2) in \<open>auto simp: sublist_delimited\<close>)

lemma key_in_quote:
  assumes "key_like k"
  shows "sublist k (json_quote t) \<longleftrightarrow> sublist k (json_escaped t)"
  using key_like_free [OF assms] by (simp add: json_quote_def sublist_delimited_hd sublist_delimited_last)

lemma show_nat_length: "n < 10 ^ Suc m \<Longrightarrow> length (show_nat n) \<le> Suc m"
proof (induction m arbitrary: n)
  case 0
  then show ?case by (subst show_nat.simps) simp
next
  case (Suc m)
  show ?case
  proof (cases "n < 10")
    case True
    then show ?thesis by (subst show_nat.simps) simp
  next
    case False
    have "n div 10 < 10 ^ Suc m" using Suc.prems by (simp add: div_less_iff_less_mult mult.commute)
    from Suc.IH [OF this] False show ?thesis by (subst show_nat.simps) simp
  qed
qed

lemma key_not_short: "key_like k \<Longrightarrow> length t \<le> 20 \<Longrightarrow> \<not> sublist k t"
  using sublist_length_le [of k t] by (auto simp: key_like_def)

theorem key_in_text:
  assumes "key_like k"
  shows "representable j \<Longrightarrow> sublist k (compact_json j) \<Longrightarrow> \<exists>t \<in> set (json_strings j). sublist k (json_escaped t)"
proof (induction j)
  case (JInt i)
  then have "nat i < 10 ^ Suc 19" by (simp add: nat_less_iff)
  from show_nat_length [OF this] have "\<not> sublist k (show_nat (nat i))"
    using key_not_short [OF assms] by simp
  with JInt show ?case by simp
next
  case (JString s)
  then show ?case using key_in_quote [OF assms] by simp
next
  case (JArray js)
  note free = key_like_free [OF assms]
  from JArray.prems(2) have "sublist k (join '','' (map compact_json js))"
    using free by (simp add: sublist_delimited_hd sublist_delimited_last)
  from sublist_join [OF free(2,8) this] obtain j where j: "j \<in> set js" "sublist k (compact_json j)" by auto
  moreover from j JArray.prems(1) have "representable j" by (simp add: list_all_iff)
  ultimately show ?case using JArray.IH by fastforce
next
  case (JObject fs)
  note free = key_like_free [OF assms]
  let ?fields = "map (\<lambda>(k, j). json_quote k @ CHR '':'' # compact_json j) fs"
  from JObject.prems(2) have "sublist k (join '','' ?fields)"
    using free by (simp add: sublist_delimited_hd sublist_delimited_last compact_fields del: map_map)
  from sublist_join [OF free(2,8) this] obtain n j where j: "(n, j) \<in> set fs"
    and "sublist k (json_quote n @ CHR '':'' # compact_json j)" by auto
  then consider "sublist k (json_escaped n)" | "sublist k (compact_json j)"
    using free key_in_quote [OF assms] by (auto simp: sublist_delimited)
  then show ?case
  proof cases
    case 1
    have "n \<in> set (json_strings (JObject fs))"
      by (simp add: comp_def case_prod_unfold) (rule bexI [OF _ j], simp)
    with 1 show ?thesis by blast
  next
    case 2
    from j JObject.prems(1) have "representable j" by (auto simp: list_all_iff)
    moreover have "j \<in> Basic_BNFs.snds (n, j)" by simp
    ultimately obtain t where t: "t \<in> set (json_strings j)" "sublist k (json_escaped t)"
      using JObject.IH [OF j _ _ 2] by blast
    from t(1) have "t \<in> set (json_strings (JObject fs))"
      by (simp add: comp_def case_prod_unfold) (rule bexI [OF _ j], simp)
    with t(2) show ?thesis by blast
  qed
qed (use key_not_short [OF assms] in simp_all)

subsection \<open>Escapes\<close>

text \<open>An escape may take part in such a text with no more than five characters, at its start.\<close>

lemma json_escape_cases:
  obtains "json_escape c = [c]" | r where "json_escape c = CHR 0x5C # r" "length r \<le> 5"
  by (cases "json_escape c = [c]") (auto simp: json_escape_def split: if_splits)

lemma prefix_escaped:
  assumes "CHR 0x5C \<notin> set k"
  shows "prefix k (json_escaped t) \<Longrightarrow> prefix k t"
  using assms
proof (induction t arbitrary: k)
  case (Cons c t)
  show ?case
  proof (cases k)
    case (Cons d k')
    from \<open>prefix k _\<close> have p: "prefix (d # k') (json_escape c @ json_escaped t)"
      by (simp add: json_escaped_def Cons)
    show ?thesis
    proof (cases c rule: json_escape_cases)
      case 1
      with p Cons.prems(2) Cons.IH [of k'] \<open>k = d # k'\<close> show ?thesis by simp
    next
      case (2 r)
      with p Cons.prems(2) \<open>k = d # k'\<close> show ?thesis by simp
    qed
  qed simp
qed (simp add: json_escaped_def)

lemma sublist_escaped:
  assumes "CHR 0x5C \<notin> set k"
  shows "sublist k (json_escaped t) \<Longrightarrow> sublist (drop 5 k) t"
proof (induction t)
  case (Cons c t)
  have skip: "sublist (drop 5 k) (c # t)" if "sublist k (json_escaped t)"
    using Cons.IH that by (simp add: sublist_Cons_right)
  have head: "sublist (drop n k') (c # t)" if "prefix k' (c # t)" for k' n
    using that by (metis prefix_imp_sublist sublist_drop sublist_order.order_trans)
  from Cons.prems have s: "sublist k (json_escape c @ json_escaped t)" by (simp add: json_escaped_def)
  show ?case
  proof (cases c rule: json_escape_cases)
    case 1
    with s consider "prefix k (c # json_escaped t)" | "sublist k (json_escaped t)"
      by (auto simp: sublist_Cons_right)
    then show ?thesis
    proof cases
      case 1
      with assms have "prefix k (c # t)" by (cases k) (simp_all add: prefix_escaped)
      then show ?thesis by (rule head)
    qed (rule skip)
  next
    case (2 r)
    with s assms have "sublist k (r @ json_escaped t)" by (simp add: sublist_delimited_hd) auto
    then consider "sublist k r" | "sublist k (json_escaped t)"
      | a b where "k = a @ b" "suffix a r" "prefix b (json_escaped t)"
      unfolding sublist_append by blast
    then show ?thesis
    proof cases
      case 1
      with 2 have "length k \<le> 5" using sublist_length_le [of k r] by simp
      then show ?thesis by simp
    next
      case 3
      with 2 have "length a \<le> 5" using suffix_length_le [of a r] by simp
      moreover have "prefix b t" using 3 assms prefix_escaped by simp
      ultimately have "sublist (drop 5 k) t"
        using 3(1) by (simp add: prefix_imp_sublist) (metis prefix_imp_sublist sublist_drop sublist_order.order_trans)
      then show ?thesis by (simp add: sublist_Cons_right)
    qed (rule skip)
  qed
qed (simp add: json_escaped_def)

lemma key_in_string:
  assumes "key_like k" "representable j" "sublist k (compact_json j)"
  shows "\<exists>t \<in> set (json_strings j). sublist (drop 5 k) t"
proof -
  have "CHR 0x5C \<notin> set k"
    using assms(1) by (auto simp: key_like_def list_all_iff base64_char_def is_ascii_alphanumeric_def Let_def)
  with key_in_text [OF assms] show ?thesis using sublist_escaped by blast
qed

section \<open>Responses\<close>

text \<open>The texts in a response that are not written in the code of the protocol.\<close>

definition response_texts :: "response \<Rightarrow> string list" where
  "response_texts resp = (case resp of
     RespStatus s \<Rightarrow> is_name s # concat (map (\<lambda>p. ps_public_key p
       # (case ps_endpoint p of None \<Rightarrow> [] | Some e \<Rightarrow> [e]) @ ps_allowed_ips p) (is_peers s))
   | RespDisconnected \<Rightarrow> []
   | RespServers l \<Rightarrow>
       concat (map (\<lambda>i. info_name i # info_endpoint i # info_public_key i # info_addresses i) l)
   | RespServerDetail d \<Rightarrow> detail_name d # detail_public_key d # detail_endpoint d
       # detail_addresses d @ detail_allowed_ips d @ detail_dns d
   | RespSwitched name \<Rightarrow> [name]
   | RespError e \<Rightarrow> [e])"

lemma response_texts_simps [simp]:
  "response_texts (RespError e) = [e]" "response_texts (RespSwitched n) = [n]" "response_texts RespDisconnected = []"
  by (simp_all add: response_texts_def)

lemma strings_of_leaves [simp]:
  "json_strings (opt_json JString x) = (case x of None \<Rightarrow> [] | Some y \<Rightarrow> [y])"
  "json_strings (opt_json uint_json v) = []" "json_strings (uint_json w) = []"
  "json_strings (strings_json ss) = ss"
  by (simp_all add: opt_json_def uint_json_def strings_json_def comp_def split: option.split)

lemma state_strings:
  "t \<in> set (json_strings (opt_json conn_state_json x)) \<Longrightarrow> length t \<le> 20 \<and> json_escaped t = t"
  "t \<in> set (json_strings (conn_state_json st)) \<Longrightarrow> length t \<le> 20 \<and> json_escaped t = t"
  by (auto simp: opt_json_def conn_state_json_def json_escaped_def json_escape_def split: option.splits conn_state.splits)

text \<open>The names of fields and variants have nothing to escape.\<close>

lemma names_plain [simp]:
  "json_escaped ''Status'' = ''Status''" "json_escaped ''Disconnected'' = ''Disconnected''"
  "json_escaped ''Servers'' = ''Servers''" "json_escaped ''ServerDetail'' = ''ServerDetail''"
  "json_escaped ''Switched'' = ''Switched''" "json_escaped ''Error'' = ''Error''"
  "json_escaped ''name'' = ''name''" "json_escaped ''endpoint'' = ''endpoint''"
  "json_escaped ''addresses'' = ''addresses''" "json_escaped ''public_key'' = ''public_key''"
  "json_escaped ''active'' = ''active''" "json_escaped ''state'' = ''state''"
  "json_escaped ''allowed_ips'' = ''allowed_ips''" "json_escaped ''listen_port'' = ''listen_port''"
  "json_escaped ''mtu'' = ''mtu''" "json_escaped ''keepalive'' = ''keepalive''"
  "json_escaped ''has_preshared_key'' = ''has_preshared_key''" "json_escaped ''dns'' = ''dns''"
  "json_escaped ''peers'' = ''peers''" "json_escaped ''handshake_age_secs'' = ''handshake_age_secs''"
  "json_escaped ''rx_bytes'' = ''rx_bytes''" "json_escaped ''tx_bytes'' = ''tx_bytes''"
  by (simp_all add: json_escaped_def json_escape_def)

lemma response_strings:
  "set (json_strings (response_json resp)) \<subseteq> set (response_texts resp) \<union> {t. length t \<le> 20 \<and> json_escaped t = t}"
proof (cases resp)
  case (RespStatus s)
  then show ?thesis
    using state_strings by (auto simp: response_json_def response_texts_def tagged_def interface_status_json_def peer_status_json_def)
next
  case (RespServers l)
  then show ?thesis
    using state_strings by (auto simp: response_json_def response_texts_def tagged_def info_json_def)
qed (auto simp: response_json_def response_texts_def tagged_def detail_json_def)

text \<open>
  What clients may know of a server: everything but the private key and the preshared key, and of
  the former the public key derived from it. And what the interface reports.
\<close>

definition public_texts :: "'k defguard \<Rightarrow> server_config \<Rightarrow> string list" where
  "public_texts dg s = sc_name s # sc_public_key s # sc_endpoint s # sc_addresses s @ sc_allowed_ips s @ sc_dns s
     @ (case public_key dg (sc_private_key s) of Inl e \<Rightarrow> [] | Inr k \<Rightarrow> [k])"

definition live_texts :: "live_interface \<Rightarrow> string list" where
  "live_texts l = li_name l # concat (map (\<lambda>p. lp_public_key p
     # (case lp_endpoint p of None \<Rightarrow> [] | Some e \<Rightarrow> [e]) @ lp_allowed_ips p) (li_peers l))"

definition answer_sources :: "('k, 'w) deps \<Rightarrow> 'w \<Rightarrow> config \<Rightarrow> response \<Rightarrow> string set" where
  "answer_sources dp w c resp =
     \<Union> (set ` public_texts (dep_dg dp) ` set (servers c))
   \<union> (case fst (wg_status (dep_wg dp) w) of Inl e \<Rightarrow> {} | Inr live \<Rightarrow> set (live_texts live))
   \<union> {e. resp = RespError e}"

lemma list_entry_texts:
  assumes "server_ok dg s" "i = list_entry dg now c live s"
  shows "set (info_name i # info_endpoint i # info_public_key i # info_addresses i) \<subseteq> set (public_texts dg s)"
proof -
  obtain k where "public_key dg (sc_private_key s) = Inr k" using server_key [OF assms(1)] by blast
  then show ?thesis by (auto simp: assms(2) list_entry_def Let_def info_def public_texts_def)
qed

lemma list_servers_texts:
  assumes "config_ok (dep_dg dp) (d_cfg d)" "list_servers dp ev d = (l, d')"
    and "i \<in> set l"
    and "t \<in> set (info_name i # info_endpoint i # info_public_key i # info_addresses i)"
  shows "\<exists>s \<in> set (servers (d_cfg d)). t \<in> set (public_texts (dep_dg dp) s)"
proof -
  have "d_cfg d' = d_cfg d" using list_servers_keeps(1) [of dp ev d] assms(2) by simp
  with assms(2,3) obtain s now c live where s: "s \<in> set (servers (d_cfg d))" "i = list_entry (dep_dg dp) now c live s"
    by (auto simp: list_servers_def split: prod.splits)
  moreover have "server_ok (dep_dg dp) s" using s(1) assms(1) by (simp add: config_ok_def)
  ultimately show ?thesis using list_entry_texts assms(4) by blast
qed

lemma reply_texts:
  assumes "config_ok (dep_dg dp) (d_cfg d')" "reply_servers dp ev x = (resp, d')" "t \<in> set (response_texts resp)"
  shows "t \<in> answer_sources dp w (d_cfg d') resp"
proof -
  obtain r d1 where x: "x = (r, d1)" by (cases x)
  show ?thesis
  proof (cases r)
    case (Inl e)
    with assms(2) x have "resp = RespError e" by (simp add: reply_servers_def)
    with assms(3) show ?thesis by (simp add: answer_sources_def)
  next
    case (Inr u)
    obtain l where l: "list_servers dp ev d1 = (l, d')" "resp = RespServers l"
      using assms(2) x Inr by (auto simp: reply_servers_def split: prod.splits)
    have c: "d_cfg d' = d_cfg d1" using list_servers_keeps(1) [of dp ev d1] l(1) by simp
    from assms(3) l(2) obtain i where "i \<in> set l"
      "t \<in> set (info_name i # info_endpoint i # info_public_key i # info_addresses i)"
      by (auto simp: response_texts_def)
    from list_servers_texts [OF _ l(1) this] assms(1) c show ?thesis by (auto simp: answer_sources_def)
  qed
qed

lemma status_texts:
  "response_texts (RespStatus \<lparr>is_name = li_name l, is_listen_port = p,
     is_peers = map (peer_status_of now c) (li_peers l)\<rparr>) = live_texts l"
  by (simp add: response_texts_def live_texts_def peer_status_of_def Let_def comp_def)

lemma answer_texts:
  assumes ok: "config_ok (dep_dg dp) (d_cfg d)" and h: "handle dp ev req d = (Inr resp, d')"
    and t: "t \<in> set (response_texts resp)"
  shows "t \<in> answer_sources dp (d_wg d) (d_cfg d') resp"
proof -
  have ok': "config_ok (dep_dg dp) (d_cfg d')" using handle_config_ok [OF ok, of ev req] h by simp
  have reply: ?thesis if "reply_servers dp ev x = (resp, d')" for x by (rule reply_texts [OF ok' that t])
  have err: ?thesis if "resp = RespError e" for e using that t by (simp add: answer_sources_def)
  show ?thesis
  proof (cases req)
    case ReqStatus
    with h t obtain live where "on_wg (wg_status (dep_wg dp)) d = (Inr live, d')"
      and "t \<in> set (live_texts live)"
      by (auto simp: read_status_def bindS_def status_texts split: prod.splits sum.splits)
    then show ?thesis by (auto simp: answer_sources_def on_wg_def split: prod.splits)
  next
    case (ReqListServers q)
    obtain l where l: "list_servers dp ev d = (l, d')" using h ReqListServers by (auto split: prod.splits)
    have c: "d_cfg d' = d_cfg d" using list_servers_keeps(1) [of dp ev d] l by simp
    from h t l ReqListServers obtain i where "i \<in> set l"
      "t \<in> set (info_name i # info_endpoint i # info_public_key i # info_addresses i)"
      by (auto simp: response_texts_def split: option.splits)
    from list_servers_texts [OF ok l this] c show ?thesis by (auto simp: answer_sources_def)
  next
    case (ReqGetServer n)
    show ?thesis
    proof (cases "find_server (d_cfg d) n")
      case None
      with h ReqGetServer err show ?thesis by (auto simp: get_server_def ok_or_def)
    next
      case (Some s)
      with h ReqGetServer have "resp = RespServerDetail (detail s)" "d' = d" by (auto simp: get_server_def ok_or_def)
      with t find_server_set [OF Some] show ?thesis
        by (auto simp: answer_sources_def response_texts_def detail_def public_texts_def)
    qed
  next
    case (ReqAddServer spec)
    with h show ?thesis by (intro reply) (auto split: prod.splits)
  next
    case (ReqEditServer spec)
    with h show ?thesis by (intro reply) (auto split: prod.splits)
  next
    case (ReqRemoveServer n)
    with h show ?thesis by (intro reply) (auto split: prod.splits)
  next
    case (ReqImportServer n conf)
    with h consider e where "resp = RespError e"
      | d1 l where "list_servers dp ev d1 = (l, d')" "resp = RespServers l"
      by (auto split: prod.splits sum.splits fail.splits)
    then show ?thesis
    proof cases
      case 2
      then show ?thesis using reply [of "(Inr (), d1)"] by (simp add: reply_servers_def)
    qed (rule err)
  next
    case (ReqSwitchServer n)
    with h have "switch_server dp ev n d = (resp, d')" by (auto split: prod.splits)
    then show ?thesis
    proof (cases rule: switch_server_cases)
      case (success s a w)
      have "config_inv (d_cfg (d\<lparr>d_wg := w\<rparr>))" using ok by (simp add: config_ok_def)
      from switched_map [OF this, where f = sc_name] success(4)
      have "map sc_name (servers (d_cfg d')) = map sc_name (servers (d_cfg d))" by simp
      moreover have "n \<in> set (map sc_name (servers (d_cfg d)))" using find_server_set [OF success(1)] by force
      ultimately have "n \<in> sc_name ` set (servers (d_cfg d'))" by (metis list.set_map)
      with success(3) t show ?thesis by (auto simp: answer_sources_def public_texts_def)
    qed (use err in blast)+
  next
    case ReqDisconnect
    with h t show ?thesis by (auto simp: answer_sources_def split: prod.splits sum.splits)
  qed
qed

section \<open>Property of the keys on the wire\<close>

text \<open>
  C22: the trust boundary, in the bytes that are sent. Wherever the reply to a client contains a
  text that looks like a key, private or preshared ones included, that text, but for at most five
  characters of an escape, is part of something public: of a field of a configured server that
  is neither the private nor the preshared key, of the public key derived from a private one, of what the
  interface reports, or of an error message. It can neither come from a secret nor be put
  together from several fields.
\<close>

theorem keys_off_the_wire:
  assumes "json_text jl" and "config_ok (dep_dg dp) (d_cfg d)" and "handle dp ev req d = (Inr resp, d')"
    and "representable (response_json resp)"
    and "key_like k" and "sublist k (jl_compact jl (response_json resp))"
  shows "\<exists>t \<in> answer_sources dp (d_wg d) (d_cfg d') resp. sublist (drop 5 k) t"
proof -
  from key_in_string [OF assms(5,4)] assms(6) json_textD(2) [OF assms(1,4)]
  obtain t where t: "t \<in> set (json_strings (response_json resp))" "sublist (drop 5 k) t" by auto
  have "\<not> length t \<le> 20" using assms(5) sublist_length_le [OF t(2)] by (auto simp: key_like_def)
  with t(1) have "t \<in> set (response_texts resp)" using response_strings by blast
  from answer_texts [OF assms(2,3) this] t(2) show ?thesis by blast
qed

text \<open>A string is in the text of the object it is in.\<close>

lemma join_sublist: "x \<in> set xs \<Longrightarrow> sublist x (join sep xs)"
  by (induction xs rule: induct_list012) (auto simp: sublist_append intro: sublist_order.order_trans)

lemma string_in_text:
  assumes "(f, j) \<in> set fs" "sublist s (compact_json j)"
  shows "sublist s (compact_json (JObject fs))"
proof -
  let ?fields = "map (\<lambda>(k, j). json_quote k @ CHR '':'' # compact_json j) fs"
  have "json_quote f @ CHR '':'' # compact_json j \<in> set ?fields" using assms(1) by force
  from join_sublist [OF this, of "'',''"] have "sublist (compact_json j) (join '','' ?fields)"
    by (rule sublist_order.order_trans [rotated]) (simp add: sublist_append sublist_Cons_right)
  then have "sublist (compact_json j) (compact_json (JObject fs))"
    by (simp add: compact_fields sublist_Cons_right sublist_append del: map_map)
  with assms(2) show ?thesis by (rule sublist_order.order_trans)
qed

definition keyed_server :: server_config where
  "keyed_server = cached_edge\<lparr>sc_name := ''abcdefghijklmnopqrstuvwxyzabcd''\<rparr>"

theorem keys_off_the_wire_witness:
  "\<exists>resp. fst (handle (sample_deps one_server) sample_env (ReqGetServer ''abcdefghijklmnopqrstuvwxyzabcd'')
      (sample_daemon \<lparr>servers = [keyed_server]\<rparr>)) = Inr resp
    \<and> sublist ''abcdefghijklmnopqrstuvwxyzabcd'' (compact_json (response_json resp))
    \<and> (\<exists>t \<in> answer_sources (sample_deps one_server) (d_wg (sample_daemon \<lparr>servers = [keyed_server]\<rparr>)) \<lparr>servers = [keyed_server]\<rparr> resp. sublist ''fghijklmnopqrstuvwxyzabcd'' t)"
proof -
  let ?n = "''abcdefghijklmnopqrstuvwxyzabcd''"
  let ?d = "sample_daemon \<lparr>servers = [keyed_server]\<rparr>"
  let ?r = "RespServerDetail (detail keyed_server)"
  have name: "sc_name keyed_server = ?n" by (simp add: keyed_server_def)
  have h: "handle (sample_deps one_server) sample_env (ReqGetServer ?n) ?d = (Inr ?r, ?d)"
    by (simp add: get_server_def find_server_def sample_daemon_def ok_or_def) (simp add: name)
  have "trimmed ?n" by (simp add: trimmed_iff trim_graphic graphic_def)
  then have "server_ok sample_dg keyed_server"
    using one_server_ok [of one_server]
    by (simp add: config_ok_def one_server_def server_ok_def keyed_server_def well_formed_def sample_daemon_def
        sample_deps_def)
  then have ok: "config_ok (dep_dg (sample_deps one_server)) (d_cfg ?d)"
    by (simp add: config_ok_def config_inv_def sample_daemon_def sample_deps_def)
  have key: "key_like ?n" by (simp add: key_like_def base64_char_def is_ascii_alphanumeric_def)
  have rep: "representable (response_json ?r)"
    by (simp add: response_json_def tagged_def detail_json_def detail_def keyed_server_def cached_edge_def
        with_endpoint_def edge_server_def utf8_valid_ascii strings_json_def opt_json_def uint_json_def)
  have "sublist ?n (compact_json (JString ?n))"
    by (simp add: json_quote_def json_escaped_def json_escape_def sublist_Cons_right)
  then have "sublist ?n (compact_json (detail_json (detail keyed_server)))"
    unfolding detail_json_def by (rule string_in_text [where f = "''name''", rotated]) (simp add: detail_def name)
  then have sub: "sublist ?n (compact_json (response_json ?r))"
    unfolding response_json_def tagged_def response.case by (rule string_in_text [rotated]) simp
  then have "sublist ?n (jl_compact plain_json (response_json ?r))" by (simp add: plain_json_def)
  from keys_off_the_wire [OF plain_json_text ok h rep key this] h sub show ?thesis
    by (simp add: sample_daemon_def del: handle.simps)
qed

end
