(* ===== verification/Config_Tests.thy ===== *)
theory Config_Tests
  imports Daemon_Spec Crate_Fixtures "HOL-Library.Countable"
begin

section \<open>The tests of the key helpers, the configuration and the state file\<close>

text \<open>
  The unit tests of \<open>keys.rs\<close>, \<open>config.rs\<close> and of the list filter of the protocol, each as an
  executable proposition about the model under the name it has there, and the proof that the
  model passes it. A generated key is an argument, and so is serde's codec. The temporary
  directory is \<open>/tmp/t\<close> on an empty disk.
\<close>

text \<open>The text of a generated key: base64.\<close>

definition generated_ok :: "'k defguard \<Rightarrow> 'k \<Rightarrow> bool" where
  "generated_ok dg k \<longleftrightarrow> list_all graphic (key_to_string dg k) \<and> key_public_key dg k \<noteq> k"

subsection \<open>\<open>keys.rs\<close>\<close>

definition generated_key_yields_a_derivable_public_key :: "'k defguard \<Rightarrow> 'k \<Rightarrow> bool" where
  "generated_key_yields_a_derivable_public_key dg k \<longleftrightarrow>
     (let priv_key = generate_private_key dg k
      in unwraps (public_key dg priv_key) (\<lambda>pub_key.
        priv_key \<noteq> pub_key \<and> unwraps (public_key dg priv_key) (\<lambda>again. again = pub_key)))"

definition generated_keys_are_unique :: "'k defguard \<Rightarrow> 'k \<Rightarrow> 'k \<Rightarrow> bool" where
  "generated_keys_are_unique dg k k' \<longleftrightarrow> generate_private_key dg k \<noteq> generate_private_key dg k'"

definition surrounding_whitespace_is_tolerated :: "'k defguard \<Rightarrow> 'k \<Rightarrow> bool" where
  "surrounding_whitespace_is_tolerated dg k \<longleftrightarrow>
     (let key = generate_private_key dg k; padded = ''  '' @ key @ [CHR 0x0A]
      in is_ok (public_key dg padded))"

definition garbage_is_rejected_with_a_named_error :: "'k defguard \<Rightarrow> bool" where
  "garbage_is_rejected_with_a_named_error dg \<longleftrightarrow>
     unwraps_err (public_key dg ''not-a-key'') (\<lambda>err. str_contains err ''private key'')"

lemma key_text_inj:
  "key_text_ok dg \<Longrightarrow> key_to_string dg k = key_to_string dg k' \<Longrightarrow> k = k'"
  by (metis key_text_ok_def sum.inject(2))

lemma generated_key_yields_a_derivable_public_key_passes:
  assumes "key_text_ok dg" "generated_ok dg k"
  shows "generated_key_yields_a_derivable_public_key dg k"
  using assms key_text_inj [OF assms(1), of k "key_public_key dg k"]
  by (auto simp: generated_key_yields_a_derivable_public_key_def public_key_generated
      generate_private_key_def [symmetric] generated_ok_def)

lemma generated_keys_are_unique_passes:
  "key_text_ok dg \<Longrightarrow> k \<noteq> k' \<Longrightarrow> generated_keys_are_unique dg k k'"
  using key_text_inj by (fastforce simp: generated_keys_are_unique_def generate_private_key_def)

lemma graphic_ascii: "graphic c \<Longrightarrow> ascii_char c \<and> \<not> ascii_blank c"
  by (auto simp: graphic_def ascii_char_def ascii_blank_def ascii_ws_def)

lemma trim_padded:
  assumes "list_all graphic s"
  shows "trim (''  '' @ s @ [CHR 0x0A]) = s"
proof -
  have d: "dropWhile ascii_blank (t @ b) = t @ b" if "list_all graphic t" "t \<noteq> []" for t b
    using that graphic_ascii by (cases t) auto
  have a: "list_all ascii_char (''  '' @ s @ [CHR 0x0A])"
    using assms graphic_ascii by (auto simp: list_all_iff ascii_char_Char)
  have blanks: "ascii_blank CHR '' ''" "ascii_blank CHR 0x0A" by (simp_all add: ascii_blank_eval)
  have r: "list_all graphic (rev s)" using assms by (simp add: list_all_iff)
  show ?thesis
    using d [OF assms, of "[CHR 0x0A]"] d [OF r, of "[]"] a
    by (cases "s = []") (simp_all add: trim_ascii blanks)
qed

lemma surrounding_whitespace_is_tolerated_passes:
  assumes "key_text_ok dg" "generated_ok dg k"
  shows "surrounding_whitespace_is_tolerated dg k"
proof -
  have t: "trim (''  '' @ key_to_string dg k @ [CHR 0x0A]) = key_to_string dg k"
    using assms(2) by (intro trim_padded) (simp add: generated_ok_def)
  have "public_key dg (trim (''  '' @ key_to_string dg k @ [CHR 0x0A]))
      = Inr (key_to_string dg (key_public_key dg k))"
    unfolding t using public_key_generated [OF assms(1)] by (simp add: generate_private_key_def)
  then show ?thesis
    by (simp only: public_key_trim surrounding_whitespace_is_tolerated_def generate_private_key_def Let_def is_ok_simps)
qed

lemma garbage_is_rejected_with_a_named_error_passes:
  assumes "crate_fixtures dg kp ko"
  shows "garbage_is_rejected_with_a_named_error dg"
proof -
  obtain e where "key_from_str dg ''not-a-key'' = Inl e"
    using fixture_bad_key [OF assms] by (auto simp: bad_key_texts_def)
  then show ?thesis
    by (simp add: garbage_is_rejected_with_a_named_error_def public_key_def trim_graphic graphic_def)
qed

subsection \<open>\<open>proto\<close>: the list filter\<close>

definition mullvad_info :: server_info where
  "mullvad_info =
     \<lparr>info_name = ''Mullvad NYC'', info_endpoint = ''nyc.mullvad.net:51820'',
      info_addresses = [''10.64.0.2/32'', ''fc00:bbbb::2/128''], info_public_key = ''pubkey'',
      info_active = False, info_state = None\<rparr>"

definition server_info_matches_name_endpoint_and_address_case_insensitively ::
  "(string \<Rightarrow> string) \<Rightarrow> bool" where
  "server_info_matches_name_endpoint_and_address_case_insensitively lower \<longleftrightarrow>
     matches lower mullvad_info '''' \<and> matches lower mullvad_info ''   ''
     \<and> matches lower mullvad_info ''mullvad'' \<and> matches lower mullvad_info ''NYC''
     \<and> matches lower mullvad_info ''.net:518'' \<and> matches lower mullvad_info ''10.64''
     \<and> matches lower mullvad_info ''fc00:BBBB'' \<and> matches lower mullvad_info ''  mullvad  ''
     \<and> \<not> matches lower mullvad_info ''proton'' \<and> \<not> matches lower mullvad_info ''pubkey''"

text \<open>On ASCII text \<open>to_lowercase\<close> is \<open>to_ascii_lowercase\<close>.\<close>

definition lower_ascii :: "(string \<Rightarrow> string) \<Rightarrow> bool" where
  "lower_ascii lower \<longleftrightarrow> (\<forall>s. list_all ascii_char s \<longrightarrow> lower s = to_ascii_lowercase s)"

lemma lower_ascii_eval: "lower_ascii lower \<Longrightarrow> list_all ascii_char s \<Longrightarrow> lower s = to_ascii_lowercase s"
  by (simp add: lower_ascii_def)

lemma server_info_matches_name_endpoint_and_address_case_insensitively_passes:
  "lower_ascii lower \<Longrightarrow> server_info_matches_name_endpoint_and_address_case_insensitively lower"
  by (simp add: server_info_matches_name_endpoint_and_address_case_insensitively_def matches_def
      mullvad_info_def lower_ascii_eval literal_simps)

subsection \<open>\<open>config.rs\<close>: the list of servers\<close>

definition sample_server :: "'k defguard \<Rightarrow> 'k \<Rightarrow> string \<Rightarrow> server_config" where
  "sample_server dg fresh name =
     \<lparr>sc_name = name, sc_private_key = generate_private_key dg fresh, sc_public_key = peer_key_text,
      sc_endpoint = ''vpn.example.com:51820'', sc_resolved_endpoint = Some ''198.51.100.10:51820'',
      sc_addresses = [''10.0.0.2/24''], sc_allowed_ips = [''0.0.0.0/0''], sc_listen_port = 51820,
      sc_mtu = None, sc_keepalive = Some 25, sc_preshared_key = None, sc_dns = [''10.0.0.1'']\<rparr>"

definition upsert_replaces_by_name_rather_than_duplicating :: "'k defguard \<Rightarrow> 'k \<Rightarrow> 'k \<Rightarrow> bool" where
  "upsert_replaces_by_name_rather_than_duplicating dg k k' \<longleftrightarrow>
     (case upsert_server (sample_server dg k ''nexus'') config_default of (replaced, cfg) \<Rightarrow>
      case upsert_server ((sample_server dg k' ''nexus'')\<lparr>sc_endpoint := ''new.example.com:51820''\<rparr>) cfg of
        (replaced', cfg') \<Rightarrow>
          \<not> replaced \<and> replaced' \<and> length (servers cfg') = 1
          \<and> sc_endpoint (hd (servers cfg')) = ''new.example.com:51820'')"

definition remove_server_reports_whether_it_existed :: "'k defguard \<Rightarrow> 'k \<Rightarrow> bool" where
  "remove_server_reports_whether_it_existed dg k \<longleftrightarrow>
     (case upsert_server (sample_server dg k ''nexus'') config_default of (_, cfg) \<Rightarrow>
      case remove_server ''nexus'' cfg of (found, cfg') \<Rightarrow>
      case remove_server ''nexus'' cfg' of (found', cfg'') \<Rightarrow>
        found \<and> \<not> found' \<and> servers cfg'' = [])"

definition info_exposes_the_derived_public_key_never_the_private_one :: "'k defguard \<Rightarrow> 'k \<Rightarrow> bool" where
  "info_exposes_the_derived_public_key_never_the_private_one dg k \<longleftrightarrow>
     (let server = sample_server dg k ''nexus''
      in unwraps (info dg server True) (\<lambda>i.
        unwraps (public_key dg (sc_private_key server)) (\<lambda>derived.
          info_public_key i = derived \<and> info_public_key i \<noteq> sc_private_key server
          \<and> info_active i \<and> info_addresses i = sc_addresses server)))"

text \<open>The assertions of this test on the JSON of the detail are in \<open>Wire_Tests\<close>.\<close>

definition detail_omits_secrets_and_exposes_editable_fields :: "'k defguard \<Rightarrow> 'k \<Rightarrow> 'k \<Rightarrow> bool" where
  "detail_omits_secrets_and_exposes_editable_fields dg k psk \<longleftrightarrow>
     (let server = (sample_server dg k ''nexus'')\<lparr>sc_preshared_key := Some (generate_private_key dg psk)\<rparr>;
          det = detail server
      in detail_public_key det = sc_public_key server \<and> detail_endpoint det = sc_endpoint server
         \<and> detail_addresses det = sc_addresses server \<and> detail_allowed_ips det = sc_allowed_ips server
         \<and> detail_dns det = sc_dns server \<and> detail_keepalive det = sc_keepalive server
         \<and> detail_has_preshared_key det)"

definition detail_maps_kernel_assigned_port_to_none :: "'k defguard \<Rightarrow> 'k \<Rightarrow> bool" where
  "detail_maps_kernel_assigned_port_to_none dg k \<longleftrightarrow>
     (let server = (sample_server dg k ''nexus'')\<lparr>sc_listen_port := 0\<rparr>;
          server' = server\<lparr>sc_listen_port := 51820\<rparr>
      in detail_listen_port (detail server) = None \<and> detail_listen_port (detail server') = Some 51820)"

lemma upsert_replaces_by_name_rather_than_duplicating_passes:
  "upsert_replaces_by_name_rather_than_duplicating dg k k'"
  by (simp add: upsert_replaces_by_name_rather_than_duplicating_def upsert_server_def config_default_def
      sample_server_def)

lemma remove_server_reports_whether_it_existed_passes: "remove_server_reports_whether_it_existed dg k"
  by (simp add: remove_server_reports_whether_it_existed_def upsert_server_def remove_server_def
      config_default_def sample_server_def Let_def)

lemma info_exposes_the_derived_public_key_never_the_private_one_passes:
  assumes "key_text_ok dg" "generated_ok dg k"
  shows "info_exposes_the_derived_public_key_never_the_private_one dg k"
  using key_text_inj [OF assms(1), of "key_public_key dg k" k] assms(2)
  by (auto simp: info_exposes_the_derived_public_key_never_the_private_one_def info_def sample_server_def
      public_key_generated [OF assms(1)] generated_ok_def generate_private_key_def Let_def
      public_key_generated [OF assms(1), unfolded generate_private_key_def])

lemma detail_omits_secrets_and_exposes_editable_fields_passes:
  "detail_omits_secrets_and_exposes_editable_fields dg k psk"
  by (simp add: detail_omits_secrets_and_exposes_editable_fields_def detail_def Let_def)

lemma detail_maps_kernel_assigned_port_to_none_passes: "detail_maps_kernel_assigned_port_to_none dg k"
  by (simp add: detail_maps_kernel_assigned_port_to_none_def detail_def Let_def)

subsection \<open>\<open>config.rs\<close>: the state file\<close>

definition nested_path :: string where
  "nested_path = ''/tmp/t/nested/state.json''"

definition missing_file_loads_as_empty_default :: "(string \<Rightarrow> config result) \<Rightarrow> bool" where
  "missing_file_loads_as_empty_default dec \<longleftrightarrow>
     unwraps (load dec no_faults nested_path empty_fs) (\<lambda>cfg. cfg = config_default \<and> servers cfg = [])"

text \<open>\<open>store.save(...).unwrap()\<close> on the empty disk, and assertions about the disk it leaves.\<close>

definition saves :: "(config \<Rightarrow> string result) \<Rightarrow> config \<Rightarrow> (file_system \<Rightarrow> bool) \<Rightarrow> bool" where
  "saves enc cfg P \<longleftrightarrow>
     (case save enc no_faults nested_path cfg empty_fs of (r, fs) \<Rightarrow> unwraps r (\<lambda>_. P fs))"

text \<open>The permission bits of the state file are 0600 in octal.\<close>

definition owner_only :: "file_system \<Rightarrow> bool" where
  "owner_only fs \<longleftrightarrow>
     (case fs_live fs nested_path of Some i \<Rightarrow> fs_mode fs i mod 512 = 384 | None \<Rightarrow> False)"

definition save_then_load_round_trips_and_creates_parent_dirs ::
  "'k defguard \<Rightarrow> (config \<Rightarrow> string result) \<Rightarrow> (string \<Rightarrow> config result) \<Rightarrow> 'k \<Rightarrow> bool" where
  "save_then_load_round_trips_and_creates_parent_dirs dg enc dec k \<longleftrightarrow>
     (let cfg = snd (upsert_server (sample_server dg k ''nexus'') config_default)
      in saves enc cfg (\<lambda>fs. unwraps (load dec no_faults nested_path fs) (\<lambda>loaded. loaded = cfg)))"

definition the_stored_private_key_is_in_the_file_but_the_file_is_0600 ::
  "'k defguard \<Rightarrow> (config \<Rightarrow> string result) \<Rightarrow> 'k \<Rightarrow> bool" where
  "the_stored_private_key_is_in_the_file_but_the_file_is_0600 dg enc k \<longleftrightarrow>
     (let server = sample_server dg k ''nexus''; cfg = snd (upsert_server server config_default)
      in saves enc cfg (\<lambda>fs.
        (case file_text fs nested_path of Some text \<Rightarrow> str_contains text (sc_private_key server) | None \<Rightarrow> False)
        \<and> owner_only fs))"

definition saved_state_file_is_owner_only_0600 :: "(config \<Rightarrow> string result) \<Rightarrow> bool" where
  "saved_state_file_is_owner_only_0600 enc \<longleftrightarrow> saves enc config_default owner_only"

definition save_is_atomic_and_leaves_no_temp_file :: "(config \<Rightarrow> string result) \<Rightarrow> bool" where
  "save_is_atomic_and_leaves_no_temp_file enc \<longleftrightarrow>
     saves enc config_default (\<lambda>fs. fs_live fs (with_extension nested_path ''json.tmp'') = None)"

lemma nested_paths: "tmp_path nested_path = ''/tmp/t/nested/state.json.tmp''"
    "nonempty_parent nested_path = Some ''/tmp/t/nested''"
  by code_simp+

definition saved_disk :: "string \<Rightarrow> file_system" where
  "saved_disk json = empty_fs\<lparr>fs_dir := [nested_path \<mapsto> 0], fs_data := (\<lambda>_. [])(0 := json),
     fs_mode := (\<lambda>_. 0)(0 := 384), fs_next := Suc 0\<rparr>"

lemma saved_nested:
  assumes "enc cfg = Inr json"
  shows "saves enc cfg P \<longleftrightarrow> P (saved_disk json)"
proof -
  let ?tmp = "''/tmp/t/nested/state.json.tmp''"
  let ?fs = "empty_fs\<lparr>fs_journal := [Link ?tmp 0], fs_data := (\<lambda>_. [])(0 := json),
      fs_mode := (\<lambda>_. 0)(0 := 384), fs_next := Suc 0\<rparr>"
  have w: "write_private no_faults ?tmp json empty_fs = (Inr (), ?fs)"
    by (simp add: write_private_def no_faults_def fs_open_private_def fs_live_def empty_fs_def fs_write_def
        fs_sync_def Let_def fun_eq_iff)
  have n: "nested_path \<noteq> ?tmp" by (simp add: nested_path_def)
  have r: "fs_rename ?tmp nested_path ?fs = (Inr (), ?fs\<lparr>fs_journal := [Link ?tmp 0, Rename ?tmp nested_path]\<rparr>)"
    by (simp add: fs_rename_def fs_live_def)
  have d: "fs_sync_dir (?fs\<lparr>fs_journal := [Link ?tmp 0, Rename ?tmp nested_path]\<rparr>) = saved_disk json"
    using n by (simp add: fs_sync_dir_def saved_disk_def fs_live_def empty_fs_def fun_eq_iff)
  have nf: "f_create_dir no_faults = None" "f_rename no_faults = None" "f_sync_dir no_faults = None"
    by (simp_all add: no_faults_def)
  have "save enc no_faults nested_path cfg empty_fs = (Inr (), saved_disk json)"
    unfolding save_def nested_paths assms
    using d by (simp add: failing_def nf bindS_def map_errS_def retS_def liftR_def w r)
  then show ?thesis by (simp add: saves_def)
qed

lemma saved_disk_facts:
  "fs_live (saved_disk json) = [nested_path \<mapsto> 0]" "file_text (saved_disk json) nested_path = Some json"
  "owner_only (saved_disk json)"
  by (simp_all add: saved_disk_def fs_live_def empty_fs_def file_text_def owner_only_def)

lemma missing_file_loads_as_empty_default_passes: "missing_file_loads_as_empty_default dec"
  by (simp add: missing_file_loads_as_empty_default_def load_def read_to_string_def no_faults_def
      file_text_def fs_live_def empty_fs_def config_default_def)

lemma save_then_load_round_trips_and_creates_parent_dirs_passes:
  assumes "codec_ok enc dec" "\<forall>c. is_ok (enc c)"
  shows "save_then_load_round_trips_and_creates_parent_dirs dg enc dec k"
proof -
  let ?cfg = "snd (upsert_server (sample_server dg k ''nexus'') config_default)"
  obtain json where j: "enc ?cfg = Inr json" using assms(2) is_okE by metis
  then have "load dec no_faults nested_path (saved_disk json) = Inr ?cfg"
    using assms(1) by (simp add: load_def read_to_string_def no_faults_def saved_disk_facts codec_ok_def)
  with j show ?thesis
    by (simp add: save_then_load_round_trips_and_creates_parent_dirs_def saved_nested Let_def)
qed

text \<open>serde writes the texts of a configuration into the file as they are.\<close>

lemma the_stored_private_key_is_in_the_file_but_the_file_is_0600_passes:
  assumes "enc (snd (upsert_server (sample_server dg k ''nexus'') config_default)) = Inr json"
    and "str_contains json (generate_private_key dg k)"
  shows "the_stored_private_key_is_in_the_file_but_the_file_is_0600 dg enc k"
  using assms(2) saved_nested [where enc = enc, OF assms(1)]
  by (simp add: the_stored_private_key_is_in_the_file_but_the_file_is_0600_def saved_disk_facts Let_def)
    (simp add: sample_server_def)

lemma saved_state_file_is_owner_only_0600_passes:
  "enc config_default = Inr json \<Longrightarrow> saved_state_file_is_owner_only_0600 enc"
  by (simp add: saved_state_file_is_owner_only_0600_def saved_nested saved_disk_facts)

lemma save_is_atomic_and_leaves_no_temp_file_passes:
  "enc config_default = Inr json \<Longrightarrow> save_is_atomic_and_leaves_no_temp_file enc"
  using nested_paths(1)
  by (simp add: save_is_atomic_and_leaves_no_temp_file_def saved_nested saved_disk_facts
      tmp_path_def) (simp add: nested_path_def)

subsection \<open>A codec for every configuration\<close>

text \<open>
  The tests rely on serde writing every configuration and reading it back. That such a codec
  exists: a configuration is numbered, and written as the digits of its number.
\<close>

type_synonym server_fields =
  "(string \<times> string \<times> string \<times> string \<times> string option \<times> string list)
   \<times> (string list \<times> nat \<times> nat option \<times> nat option \<times> string option \<times> string list)"

definition fields_of :: "server_config \<Rightarrow> server_fields" where
  "fields_of s =
     ((sc_name s, sc_private_key s, sc_public_key s, sc_endpoint s, sc_resolved_endpoint s, sc_addresses s),
      (sc_allowed_ips s, unat (sc_listen_port s), map_option unat (sc_mtu s), map_option unat (sc_keepalive s),
       sc_preshared_key s, sc_dns s))"

definition of_fields :: "server_fields \<Rightarrow> server_config" where
  "of_fields = (\<lambda>((name, priv, pub, ep, cached, addrs), (ips, port, mtu, alive, psk, dns)).
     \<lparr>sc_name = name, sc_private_key = priv, sc_public_key = pub, sc_endpoint = ep,
      sc_resolved_endpoint = cached, sc_addresses = addrs, sc_allowed_ips = ips,
      sc_listen_port = of_nat port, sc_mtu = map_option of_nat mtu, sc_keepalive = map_option of_nat alive,
      sc_preshared_key = psk, sc_dns = dns\<rparr>)"

definition number_enc :: "config \<Rightarrow> string result" where
  "number_enc c = Inr (show_nat (to_nat (map fields_of (servers c))))"

definition number_dec :: "string \<Rightarrow> config result" where
  "number_dec s = Inr \<lparr>servers = map of_fields (from_nat (digits_value 10 s))\<rparr>"

lemma of_fields_of: "of_fields (fields_of s) = s"
  by (cases s) (simp add: of_fields_def fields_of_def option.map_comp comp_def option.map_ident)

lemma number_codec: "codec_ok number_enc number_dec" "is_ok (number_enc c)"
proof -
  have "utf8_valid (show_nat n)" for n
    using show_nat_graphic [of n] by (intro utf8_valid_ascii) (auto simp: graphic_def list_all_iff)
  then show "codec_ok number_enc number_dec"
    by (simp add: codec_ok_def number_enc_def number_dec_def of_fields_of comp_def)
qed (simp add: number_enc_def)

end
