(* ===== verification/Daemon_Tests.thy ===== *)
theory Daemon_Tests
  imports Config_Tests Fake_Wireguard
begin

section \<open>The tests of the daemon\<close>

text \<open>
  The unit tests of \<open>daemon.rs\<close> on the fake backend, each as an executable proposition about
  the model under the name it has there. The dependencies \<open>dp\<close> hold the crate and serde's codec; \<open>ev\<close> holds the
  generated key, the clocks, which stand still during a test, and the resolver, which no test
  asks. A test that generates two keys has a second one as an argument. \<open>Daemon_Tests_Pass\<close>
  shows that the model passes them.
\<close>

text \<open>\<open>handle\<close>, which must not panic, and what follows it.\<close>

definition answer ::
  "('k, fake) deps \<Rightarrow> 'k env \<Rightarrow> request \<Rightarrow> fake daemon \<Rightarrow> (response \<Rightarrow> fake daemon \<Rightarrow> bool) \<Rightarrow> bool" where
  "answer dp ev req d P \<longleftrightarrow>
     (case handle dp ev req d of (Inr resp, d') \<Rightarrow> P resp d' | (Inl m, d') \<Rightarrow> False)"

text \<open>The patterns \<open>let Response::... = ... else panic\<close> of the tests.\<close>

definition answers_error ::
  "('k, fake) deps \<Rightarrow> 'k env \<Rightarrow> request \<Rightarrow> fake daemon \<Rightarrow> (string \<Rightarrow> fake daemon \<Rightarrow> bool) \<Rightarrow> bool" where
  "answers_error dp ev req d P \<longleftrightarrow>
     answer dp ev req d (\<lambda>resp d'. case resp of RespError e \<Rightarrow> P e d' | _ \<Rightarrow> False)"

definition answers_servers ::
  "('k, fake) deps \<Rightarrow> 'k env \<Rightarrow> request \<Rightarrow> fake daemon \<Rightarrow> (server_info list \<Rightarrow> fake daemon \<Rightarrow> bool) \<Rightarrow> bool" where
  "answers_servers dp ev req d P \<longleftrightarrow>
     answer dp ev req d (\<lambda>resp d'. case resp of RespServers l \<Rightarrow> P l d' | _ \<Rightarrow> False)"

definition answers_status ::
  "('k, fake) deps \<Rightarrow> 'k env \<Rightarrow> fake daemon \<Rightarrow> (interface_status \<Rightarrow> bool) \<Rightarrow> bool" where
  "answers_status dp ev d P \<longleftrightarrow>
     answer dp ev ReqStatus d (\<lambda>resp d'. case resp of RespStatus s \<Rightarrow> P s | _ \<Rightarrow> False)"

definition detail_of ::
  "('k, fake) deps \<Rightarrow> 'k env \<Rightarrow> fake daemon \<Rightarrow> string \<Rightarrow> (server_detail \<Rightarrow> bool) \<Rightarrow> bool" where
  "detail_of dp ev d name P \<longleftrightarrow>
     answer dp ev (ReqGetServer name) d (\<lambda>resp d'. case resp of RespServerDetail det \<Rightarrow> P det | _ \<Rightarrow> False)"

definition test_spec :: "string \<Rightarrow> server_spec" where
  "test_spec name =
     \<lparr>spec_name = name, spec_private_key = None, spec_public_key = peer_key_text,
      spec_endpoint = ''198.51.100.10:51820'', spec_addresses = [''10.0.0.2/24''],
      spec_allowed_ips = [''0.0.0.0/0''], spec_listen_port = None, spec_mtu = None,
      spec_keepalive = Some 25, spec_preshared_key = None, spec_dns = []\<rparr>"

definition fresh_daemon :: "('k, fake) deps \<Rightarrow> (fake daemon \<Rightarrow> bool) \<Rightarrow> bool" where
  "fresh_daemon dp P \<longleftrightarrow> unwraps (daemon_load dp no_faults empty_fs fake_default) P"

definition onboarded :: "('k, fake) deps \<Rightarrow> 'k env \<Rightarrow> (fake daemon \<Rightarrow> bool) \<Rightarrow> bool" where
  "onboarded dp ev P \<longleftrightarrow>
     fresh_daemon dp (\<lambda>d. answer dp ev (ReqAddServer (test_spec ''nexus'')) d (\<lambda>_ d. P d))"

text \<open>The helper \<open>servers\<close> of the tests.\<close>

definition listed :: "('k, fake) deps \<Rightarrow> 'k env \<Rightarrow> fake daemon \<Rightarrow> (server_info list \<Rightarrow> bool) \<Rightarrow> bool" where
  "listed dp ev d P \<longleftrightarrow> answers_servers dp ev (ReqListServers None) d (\<lambda>l d'. P l)"

text \<open>\<open>d.cfg.servers[0]\<close>, and the entry with a name.\<close>

definition first_server :: "fake daemon \<Rightarrow> (server_config \<Rightarrow> bool) \<Rightarrow> bool" where
  "first_server d P \<longleftrightarrow> (case servers (d_cfg d) of s # _ \<Rightarrow> P s | [] \<Rightarrow> False)"

definition entry_named :: "string \<Rightarrow> server_info list \<Rightarrow> (server_info \<Rightarrow> bool) \<Rightarrow> bool" where
  "entry_named name l P \<longleftrightarrow> (case find (\<lambda>i. info_name i = name) l of Some i \<Rightarrow> P i | None \<Rightarrow> False)"

definition edit_first :: "(server_config \<Rightarrow> server_config) \<Rightarrow> fake daemon \<Rightarrow> fake daemon" where
  "edit_first f d =
     (case servers (d_cfg d) of
        [] \<Rightarrow> d
      | s # ss \<Rightarrow> d\<lparr>d_cfg := (d_cfg d)\<lparr>servers := f s # ss\<rparr>\<rparr>)"

definition set_live :: "fake_peer list \<Rightarrow> fake daemon \<Rightarrow> fake daemon" where
  "set_live peers d = d\<lparr>d_wg := (d_wg d)\<lparr>fk_live_peers := Some peers\<rparr>\<rparr>"

definition first_peer :: "interface_status \<Rightarrow> (peer_status \<Rightarrow> bool) \<Rightarrow> bool" where
  "first_peer s P \<longleftrightarrow> (case is_peers s of p # _ \<Rightarrow> P p | [] \<Rightarrow> False)"

subsection \<open>Listing and adding\<close>

definition a_fresh_daemon_has_no_servers :: "('k, fake) deps \<Rightarrow> 'k env \<Rightarrow> bool" where
  "a_fresh_daemon_has_no_servers dp ev \<longleftrightarrow> fresh_daemon dp (\<lambda>d. listed dp ev d (\<lambda>l. l = []))"

definition list_servers_filters_by_query_daemon_side :: "('k, fake) deps \<Rightarrow> 'k env \<Rightarrow> 'k \<Rightarrow> bool" where
  "list_servers_filters_by_query_daemon_side dp ev k' \<longleftrightarrow>
     fresh_daemon dp (\<lambda>d.
       answer dp ev (ReqAddServer ((test_spec ''mullvad-nyc'')\<lparr>spec_addresses := [''10.10.0.2/32'']\<rparr>)) d
         (\<lambda>_ d.
       answer dp (ev\<lparr>env_fresh := k'\<rparr>)
         (ReqAddServer ((test_spec ''proton-ch'')\<lparr>spec_addresses := [''10.20.0.2/32'']\<rparr>)) d (\<lambda>_ d.
       answers_servers dp ev (ReqListServers None) d (\<lambda>l d.
         length l = 2
         \<and> answers_servers dp ev (ReqListServers (Some ''NYC'')) d (\<lambda>l d.
             map info_name l = [''mullvad-nyc''])
         \<and> answers_servers dp ev (ReqListServers (Some ''10.20.0'')) d (\<lambda>l d.
             map info_name l = [''proton-ch''])
         \<and> answers_servers dp ev (ReqListServers (Some ''198.51.100'')) d (\<lambda>l d. length l = 2)
         \<and> answers_servers dp ev (ReqListServers (Some ''tokyo'')) d (\<lambda>l d. l = [])))))"

definition switching_when_no_server_exists_is_an_unknown_server_error ::
  "('k, fake) deps \<Rightarrow> 'k env \<Rightarrow> bool" where
  "switching_when_no_server_exists_is_an_unknown_server_error dp ev \<longleftrightarrow>
     fresh_daemon dp (\<lambda>d. answers_error dp ev (ReqSwitchServer ''nexus'') d (\<lambda>e d.
       str_contains e ''unknown server''))"

definition add_server_generates_a_key_and_exposes_only_the_derived_public_one ::
  "('k, fake) deps \<Rightarrow> 'k env \<Rightarrow> bool" where
  "add_server_generates_a_key_and_exposes_only_the_derived_public_one dp ev \<longleftrightarrow>
     fresh_daemon dp (\<lambda>d. answer dp ev (ReqAddServer (test_spec ''nexus'')) d (\<lambda>_ d.
       first_server d (\<lambda>s. unwraps (public_key (dep_dg dp) (sc_private_key s)) (\<lambda>derived.
         listed dp ev d (\<lambda>l. entry_named ''nexus'' l (\<lambda>i.
           info_public_key i = derived \<and> info_public_key i \<noteq> sc_private_key s))))))"

definition add_server_caches_the_resolved_endpoint :: "('k, fake) deps \<Rightarrow> 'k env \<Rightarrow> bool" where
  "add_server_caches_the_resolved_endpoint dp ev \<longleftrightarrow>
     onboarded dp ev (\<lambda>d. first_server d (\<lambda>s. sc_resolved_endpoint s = Some ''198.51.100.10:51820''))"

definition a_successful_switch_refreshes_and_persists_the_cached_endpoint ::
  "('k, fake) deps \<Rightarrow> 'k env \<Rightarrow> bool" where
  "a_successful_switch_refreshes_and_persists_the_cached_endpoint dp ev \<longleftrightarrow>
     fresh_daemon dp (\<lambda>d. answer dp ev (ReqAddServer (test_spec ''nexus'')) d (\<lambda>_ d.
       answer dp ev (ReqSwitchServer ''nexus'')
         (edit_first (\<lambda>s. s\<lparr>sc_resolved_endpoint := Some ''192.0.2.99:51820''\<rparr>) d) (\<lambda>_ d.
         first_server d (\<lambda>s. sc_resolved_endpoint s = Some ''198.51.100.10:51820'')
         \<and> unwraps (daemon_load dp no_faults (d_disk d) fake_default) (\<lambda>d2.
             first_server d2 (\<lambda>s. sc_resolved_endpoint s = Some ''198.51.100.10:51820'')))))"

definition edit_refreshes_the_cached_resolved_endpoint :: "('k, fake) deps \<Rightarrow> 'k env \<Rightarrow> bool" where
  "edit_refreshes_the_cached_resolved_endpoint dp ev \<longleftrightarrow>
     onboarded dp ev (\<lambda>d.
       answer dp ev (ReqEditServer ((test_spec ''nexus'')\<lparr>spec_endpoint := ''198.51.100.20:51820''\<rparr>)) d
         (\<lambda>_ d. first_server d (\<lambda>s. sc_resolved_endpoint s = Some ''198.51.100.20:51820'')))"

definition add_server_adopts_a_supplied_private_key :: "('k, fake) deps \<Rightarrow> 'k env \<Rightarrow> 'k \<Rightarrow> bool" where
  "add_server_adopts_a_supplied_private_key dp ev k' \<longleftrightarrow>
     (let provided = generate_private_key (dep_dg dp) k'
      in fresh_daemon dp (\<lambda>d.
        answer dp ev (ReqAddServer ((test_spec ''nexus'')\<lparr>spec_private_key := Some provided\<rparr>)) d (\<lambda>_ d.
          first_server d (\<lambda>s. sc_private_key s = provided))))"

definition add_server_rejects_a_bad_address :: "('k, fake) deps \<Rightarrow> 'k env \<Rightarrow> bool" where
  "add_server_rejects_a_bad_address dp ev \<longleftrightarrow>
     onboarded dp ev (\<lambda>d.
       answers_error dp ev (ReqAddServer ((test_spec ''broken'')\<lparr>spec_addresses := [''not-a-cidr'']\<rparr>)) d
         (\<lambda>e d. str_contains e ''address'' \<and> length (servers (d_cfg d)) = 1))"

definition add_server_rejects_a_bad_peer_key :: "('k, fake) deps \<Rightarrow> 'k env \<Rightarrow> bool" where
  "add_server_rejects_a_bad_peer_key dp ev \<longleftrightarrow>
     onboarded dp ev (\<lambda>d.
       answers_error dp ev (ReqAddServer ((test_spec ''broken'')\<lparr>spec_public_key := ''not-a-key''\<rparr>)) d
         (\<lambda>e d. str_contains e ''public_key'' \<and> length (servers (d_cfg d)) = 1))"

definition add_server_rejects_a_bad_supplied_private_key :: "('k, fake) deps \<Rightarrow> 'k env \<Rightarrow> bool" where
  "add_server_rejects_a_bad_supplied_private_key dp ev \<longleftrightarrow>
     fresh_daemon dp (\<lambda>d.
       answers_error dp ev (ReqAddServer ((test_spec ''broken'')\<lparr>spec_private_key := Some ''not-a-key''\<rparr>)) d
         (\<lambda>e d. str_contains e ''private_key'' \<and> servers (d_cfg d) = []))"

definition add_server_rejects_empty_name :: "('k, fake) deps \<Rightarrow> 'k env \<Rightarrow> bool" where
  "add_server_rejects_empty_name dp ev \<longleftrightarrow>
     onboarded dp ev (\<lambda>d. answers_error dp ev (ReqAddServer (test_spec '''')) d (\<lambda>e d. str_contains e ''name''))"

definition a_server_with_a_corrupt_stored_key_is_still_listed_and_removable ::
  "('k, fake) deps \<Rightarrow> 'k env \<Rightarrow> bool" where
  "a_server_with_a_corrupt_stored_key_is_still_listed_and_removable dp ev \<longleftrightarrow>
     onboarded dp ev (\<lambda>d. let d = edit_first (\<lambda>s. s\<lparr>sc_private_key := ''corrupted''\<rparr>) d in
       answers_servers dp ev (ReqListServers None) d (\<lambda>l d.
         (case l of
            [i] \<Rightarrow> info_name i = ''nexus'' \<and> str_contains (info_public_key i) ''unavailable''
              \<and> \<not> info_active i
          | _ \<Rightarrow> False)
         \<and> answers_servers dp ev (ReqRemoveServer ''nexus'') d (\<lambda>left d. left = [])))"

definition remove_unknown_server_errors :: "('k, fake) deps \<Rightarrow> 'k env \<Rightarrow> bool" where
  "remove_unknown_server_errors dp ev \<longleftrightarrow>
     onboarded dp ev (\<lambda>d. answers_error dp ev (ReqRemoveServer ''ghost'') d (\<lambda>e d.
       str_contains e ''unknown server''))"

definition add_and_remove_servers_round_trip_through_the_list ::
  "('k, fake) deps \<Rightarrow> 'k env \<Rightarrow> 'k \<Rightarrow> bool" where
  "add_and_remove_servers_round_trip_through_the_list dp ev k' \<longleftrightarrow>
     onboarded dp ev (\<lambda>d.
       answer dp (ev\<lparr>env_fresh := k'\<rparr>) (ReqAddServer (test_spec ''edge'')) d (\<lambda>_ d.
       listed dp ev d (\<lambda>l. {''nexus'', ''edge''} \<subseteq> set (map info_name l))
       \<and> answer dp ev (ReqRemoveServer ''edge'') d (\<lambda>_ d.
           listed dp ev d (\<lambda>l. map info_name l = [''nexus'']))))"

subsection \<open>Switching and the status\<close>

definition switching_marks_the_server_active_and_reports_connecting :: "('k, fake) deps \<Rightarrow> 'k env \<Rightarrow> bool" where
  "switching_marks_the_server_active_and_reports_connecting dp ev \<longleftrightarrow>
     onboarded dp ev (\<lambda>d. answer dp ev (ReqSwitchServer ''nexus'') d (\<lambda>resp d.
       resp = RespSwitched ''nexus'' \<and> ''switch:nexus'' \<in> set (fk_calls (d_wg d))
       \<and> listed dp ev d (\<lambda>l. entry_named ''nexus'' l (\<lambda>i. info_active i \<and> info_state i = Some Connecting))
       \<and> answers_status dp ev d (\<lambda>s. first_peer s (\<lambda>p. ps_state p = Connecting))))"

text \<open>A peer whose last handshake was just now.\<close>

definition just_seen :: "'k env \<Rightarrow> fake_peer" where
  "just_seen ev = \<lparr>fp_public_key = peer_key_text, fp_last_handshake = Some (env_now ev)\<rparr>"

definition the_active_server_lists_alive_once_a_handshake_lands :: "('k, fake) deps \<Rightarrow> 'k env \<Rightarrow> bool" where
  "the_active_server_lists_alive_once_a_handshake_lands dp ev \<longleftrightarrow>
     onboarded dp ev (\<lambda>d. answer dp ev (ReqSwitchServer ''nexus'') d (\<lambda>_ d.
       listed dp ev (set_live [just_seen ev] d) (\<lambda>l.
         entry_named ''nexus'' l (\<lambda>i. info_active i \<and> info_state i = Some Alive))))"

definition an_inactive_server_lists_no_state :: "('k, fake) deps \<Rightarrow> 'k env \<Rightarrow> bool" where
  "an_inactive_server_lists_no_state dp ev \<longleftrightarrow>
     onboarded dp ev (\<lambda>d. listed dp ev d (\<lambda>l.
       entry_named ''nexus'' l (\<lambda>i. \<not> info_active i \<and> info_state i = None)))"

definition disconnect_brings_the_interface_down :: "('k, fake) deps \<Rightarrow> 'k env \<Rightarrow> bool" where
  "disconnect_brings_the_interface_down dp ev \<longleftrightarrow>
     onboarded dp ev (\<lambda>d. answer dp ev (ReqSwitchServer ''nexus'') d (\<lambda>_ d.
       answers_status dp ev d (\<lambda>_. True)
       \<and> answer dp ev ReqDisconnect d (\<lambda>resp d.
           resp = RespDisconnected \<and> answer dp ev ReqStatus d (\<lambda>resp d. resp = RespDisconnected))))"

definition servers_survive_a_daemon_restart :: "('k, fake) deps \<Rightarrow> 'k env \<Rightarrow> bool" where
  "servers_survive_a_daemon_restart dp ev \<longleftrightarrow>
     fresh_daemon dp (\<lambda>d. answer dp ev (ReqAddServer (test_spec ''nexus'')) d (\<lambda>_ d.
       unwraps (daemon_load dp no_faults (d_disk d) fake_default) (\<lambda>d2.
         listed dp ev d2 (\<lambda>l. map info_name l = [''nexus'']))))"

definition state_derivation_covers_every_case :: bool where
  "state_derivation_covers_every_case \<longleftrightarrow>
     derive_state (Some 5) False = Alive \<and> derive_state (Some 5) True = Alive
     \<and> derive_state (Some 9999) False = Stale \<and> derive_state None True = Connecting
     \<and> derive_state None False = Never"

definition a_recent_handshake_reads_as_alive :: "('k, fake) deps \<Rightarrow> 'k env \<Rightarrow> bool" where
  "a_recent_handshake_reads_as_alive dp ev \<longleftrightarrow>
     onboarded dp ev (\<lambda>d. answer dp ev (ReqSwitchServer ''nexus'') d (\<lambda>_ d.
       answers_status dp ev (set_live [just_seen ev] d) (\<lambda>s. first_peer s (\<lambda>p. ps_state p = Alive))))"

definition epoch_handshake_is_treated_as_never_handshaked :: "('k, fake) deps \<Rightarrow> 'k env \<Rightarrow> bool" where
  "epoch_handshake_is_treated_as_never_handshaked dp ev \<longleftrightarrow>
     onboarded dp ev (\<lambda>d. answer dp ev (ReqSwitchServer ''nexus'') d (\<lambda>_ d.
       answers_status dp ev
         (set_live [\<lparr>fp_public_key = peer_key_text, fp_last_handshake = Some 0\<rparr>] (d\<lparr>d_last_connect := None\<rparr>))
         (\<lambda>s. first_peer s (\<lambda>p. ps_state p = Never))))"

definition a_failed_switch_surfaces_the_backend_error :: "('k, fake) deps \<Rightarrow> 'k env \<Rightarrow> bool" where
  "a_failed_switch_surfaces_the_backend_error dp ev \<longleftrightarrow>
     onboarded dp ev (\<lambda>d.
       answers_error dp ev (ReqSwitchServer ''nexus'')
         (d\<lparr>d_wg := (d_wg d)\<lparr>fk_fail_with := Some ''kernel exploded''\<rparr>\<rparr>) (\<lambda>e d.
         str_contains e ''kernel exploded''))"

definition edge_test_spec :: server_spec where
  "edge_test_spec =
     (test_spec ''edge'')\<lparr>spec_public_key := other_key_text, spec_addresses := [''192.168.50.5/24'']\<rparr>"

definition switching_between_two_servers_moves_the_active_flag :: "('k, fake) deps \<Rightarrow> 'k env \<Rightarrow> 'k \<Rightarrow> bool" where
  "switching_between_two_servers_moves_the_active_flag dp ev k' \<longleftrightarrow>
     onboarded dp ev (\<lambda>d.
       answer dp (ev\<lparr>env_fresh := k'\<rparr>) (ReqAddServer edge_test_spec) d (\<lambda>_ d.
       listed dp ev d (\<lambda>l. case map info_public_key l of a # b # _ \<Rightarrow> a \<noteq> b | _ \<Rightarrow> False)
       \<and> answer dp ev (ReqSwitchServer ''nexus'') d (\<lambda>_ d.
           listed dp ev d (\<lambda>l. entry_named ''nexus'' l info_active \<and> entry_named ''edge'' l (\<lambda>i. \<not> info_active i))
           \<and> fk_last_switch_addresses (d_wg d) = [''10.0.0.2/24'']
           \<and> answer dp ev (ReqSwitchServer ''edge'') d (\<lambda>_ d.
               listed dp ev d (\<lambda>l. entry_named ''nexus'' l (\<lambda>i. \<not> info_active i) \<and> entry_named ''edge'' l info_active)
               \<and> fk_last_switch_addresses (d_wg d) = [''192.168.50.5/24'']))))"

definition two_tunnels_to_the_same_server_are_told_apart :: "('k, fake) deps \<Rightarrow> 'k env \<Rightarrow> 'k \<Rightarrow> bool" where
  "two_tunnels_to_the_same_server_are_told_apart dp ev k' \<longleftrightarrow>
     fresh_daemon dp (\<lambda>d.
       answer dp ev (ReqAddServer (test_spec ''nexus-a'')) d (\<lambda>_ d.
       answer dp (ev\<lparr>env_fresh := k'\<rparr>) (ReqAddServer (test_spec ''nexus-b'')) d (\<lambda>_ d.
       (case servers (d_cfg d) of a # b # _ \<Rightarrow> sc_public_key a = sc_public_key b | _ \<Rightarrow> False)
       \<and> answer dp ev (ReqSwitchServer ''nexus-a'') d (\<lambda>_ d.
           listed dp ev d (\<lambda>l. entry_named ''nexus-a'' l info_active
             \<and> entry_named ''nexus-b'' l (\<lambda>i. \<not> info_active i))))))"

text \<open>\<open>Instant::now().checked_sub(...)\<close>: none if the clock has not run that long.\<close>

definition checked_sub :: "nat \<Rightarrow> nat \<Rightarrow> nat option" where
  "checked_sub a b = (if b \<le> a then Some (a - b) else None)"

definition the_connecting_window_expires_to_never :: "('k, fake) deps \<Rightarrow> 'k env \<Rightarrow> bool" where
  "the_connecting_window_expires_to_never dp ev \<longleftrightarrow>
     onboarded dp ev (\<lambda>d. answer dp ev (ReqSwitchServer ''nexus'') d (\<lambda>_ d.
       is_connecting ev d
       \<and> (let d = d\<lparr>d_last_connect := checked_sub (env_instant ev) (connecting_window + second)\<rparr>
          in \<not> is_connecting ev d
             \<and> answers_status dp ev d (\<lambda>s. first_peer s (\<lambda>p. ps_state p = Never)))))"

definition a_dual_stack_tunnels_addresses_are_passed_to_the_backend_in_full ::
  "('k, fake) deps \<Rightarrow> 'k env \<Rightarrow> bool" where
  "a_dual_stack_tunnels_addresses_are_passed_to_the_backend_in_full dp ev \<longleftrightarrow>
     fresh_daemon dp (\<lambda>d.
       answer dp ev (ReqAddServer ((test_spec ''ds'')\<lparr>spec_addresses := [''10.0.0.2/32'', ''fd00::2/128'']\<rparr>)) d (\<lambda>_ d.
       answer dp ev (ReqSwitchServer ''ds'') d (\<lambda>_ d.
         fk_last_switch_addresses (d_wg d) = [''10.0.0.2/32'', ''fd00::2/128''])))"

subsection \<open>Editing and reading one server\<close>

definition edit_preserves_the_private_key_when_none_is_supplied :: "('k, fake) deps \<Rightarrow> 'k env \<Rightarrow> 'k \<Rightarrow> bool" where
  "edit_preserves_the_private_key_when_none_is_supplied dp ev k' \<longleftrightarrow>
     (let secret = generate_private_key (dep_dg dp) k'
      in fresh_daemon dp (\<lambda>d.
        answer dp ev (ReqAddServer ((test_spec ''nexus'')\<lparr>spec_private_key := Some secret\<rparr>)) d (\<lambda>_ d.
        answers_servers dp ev (ReqEditServer ((test_spec ''nexus'')\<lparr>spec_private_key := None,
            spec_endpoint := ''198.51.100.20:51820''\<rparr>)) d (\<lambda>_ d.
          first_server d (\<lambda>s. sc_private_key s = secret \<and> sc_endpoint s = ''198.51.100.20:51820'')))))"

definition edit_adopts_a_supplied_private_key :: "('k, fake) deps \<Rightarrow> 'k env \<Rightarrow> 'k \<Rightarrow> bool" where
  "edit_adopts_a_supplied_private_key dp ev k' \<longleftrightarrow>
     (let replacement = generate_private_key (dep_dg dp) k'
      in onboarded dp ev (\<lambda>d.
        answer dp ev (ReqEditServer ((test_spec ''nexus'')\<lparr>spec_private_key := Some replacement\<rparr>)) d (\<lambda>_ d.
          first_server d (\<lambda>s. sc_private_key s = replacement))))"

definition edit_preserves_the_preshared_key_when_none_is_supplied :: "('k, fake) deps \<Rightarrow> 'k env \<Rightarrow> 'k \<Rightarrow> bool" where
  "edit_preserves_the_preshared_key_when_none_is_supplied dp ev k' \<longleftrightarrow>
     (let psk = generate_private_key (dep_dg dp) k'
      in fresh_daemon dp (\<lambda>d.
        answer dp ev (ReqAddServer ((test_spec ''nexus'')\<lparr>spec_preshared_key := Some psk\<rparr>)) d (\<lambda>_ d.
        answer dp ev (ReqEditServer ((test_spec ''nexus'')\<lparr>spec_preshared_key := None\<rparr>)) d (\<lambda>_ d.
          first_server d (\<lambda>s. sc_preshared_key s = Some psk)))))"

definition edit_adopts_a_supplied_preshared_key :: "('k, fake) deps \<Rightarrow> 'k env \<Rightarrow> 'k \<Rightarrow> bool" where
  "edit_adopts_a_supplied_preshared_key dp ev k' \<longleftrightarrow>
     (let psk = generate_private_key (dep_dg dp) k'
      in onboarded dp ev (\<lambda>d.
        answer dp ev (ReqEditServer ((test_spec ''nexus'')\<lparr>spec_preshared_key := Some psk\<rparr>)) d (\<lambda>_ d.
          first_server d (\<lambda>s. sc_preshared_key s = Some psk))))"

definition edit_of_an_unknown_server_errors_and_persists_nothing :: "('k, fake) deps \<Rightarrow> 'k env \<Rightarrow> bool" where
  "edit_of_an_unknown_server_errors_and_persists_nothing dp ev \<longleftrightarrow>
     fresh_daemon dp (\<lambda>d. answers_error dp ev (ReqEditServer (test_spec ''ghost'')) d (\<lambda>e d.
       str_contains e ''unknown server'' \<and> servers (d_cfg d) = []))"

definition edit_of_the_active_tunnel_is_rejected :: "('k, fake) deps \<Rightarrow> 'k env \<Rightarrow> bool" where
  "edit_of_the_active_tunnel_is_rejected dp ev \<longleftrightarrow>
     onboarded dp ev (\<lambda>d. answer dp ev (ReqSwitchServer ''nexus'') d (\<lambda>_ d.
       answers_error dp ev
         (ReqEditServer ((test_spec ''nexus'')\<lparr>spec_endpoint := ''new.example.com:51820''\<rparr>)) d (\<lambda>e d.
         str_contains e ''active tunnel''
         \<and> first_server d (\<lambda>s. sc_endpoint s = ''198.51.100.10:51820''))))"

definition edit_of_a_non_active_tunnel_while_another_is_active_succeeds ::
  "('k, fake) deps \<Rightarrow> 'k env \<Rightarrow> 'k \<Rightarrow> bool" where
  "edit_of_a_non_active_tunnel_while_another_is_active_succeeds dp ev k' \<longleftrightarrow>
     onboarded dp ev (\<lambda>d.
       answer dp (ev\<lparr>env_fresh := k'\<rparr>) (ReqAddServer edge_test_spec) d (\<lambda>_ d.
       answer dp ev (ReqSwitchServer ''nexus'') d (\<lambda>_ d.
       answers_servers dp ev (ReqEditServer (edge_test_spec\<lparr>spec_endpoint := ''198.51.100.30:51820''\<rparr>)) d (\<lambda>_ d.
         (case find (\<lambda>s. sc_name s = ''edge'') (servers (d_cfg d)) of
            Some s \<Rightarrow> sc_endpoint s = ''198.51.100.30:51820'' | None \<Rightarrow> False)))))"

definition edit_rejects_a_bad_address_and_persists_nothing :: "('k, fake) deps \<Rightarrow> 'k env \<Rightarrow> bool" where
  "edit_rejects_a_bad_address_and_persists_nothing dp ev \<longleftrightarrow>
     onboarded dp ev (\<lambda>d.
       answers_error dp ev (ReqEditServer ((test_spec ''nexus'')\<lparr>spec_addresses := [''not-a-cidr'']\<rparr>)) d (\<lambda>e d.
         str_contains e ''address'' \<and> first_server d (\<lambda>s. sc_addresses s = [''10.0.0.2/24''])))"

definition get_server_returns_detail_for_a_known_server :: "('k, fake) deps \<Rightarrow> 'k env \<Rightarrow> bool" where
  "get_server_returns_detail_for_a_known_server dp ev \<longleftrightarrow>
     onboarded dp ev (\<lambda>d. detail_of dp ev d ''nexus'' (\<lambda>det.
       detail_name det = ''nexus'' \<and> detail_public_key det = peer_key_text
       \<and> detail_endpoint det = ''198.51.100.10:51820'' \<and> detail_keepalive det = Some 25
       \<and> \<not> detail_has_preshared_key det))"

definition get_server_reports_a_stored_preshared_key_as_a_flag :: "('k, fake) deps \<Rightarrow> 'k env \<Rightarrow> 'k \<Rightarrow> bool" where
  "get_server_reports_a_stored_preshared_key_as_a_flag dp ev k' \<longleftrightarrow>
     fresh_daemon dp (\<lambda>d.
       answer dp ev (ReqAddServer ((test_spec ''nexus'')\<lparr>spec_preshared_key :=
           Some (generate_private_key (dep_dg dp) k')\<rparr>)) d (\<lambda>_ d.
         detail_of dp ev d ''nexus'' detail_has_preshared_key))"

definition get_server_unknown_errors :: "('k, fake) deps \<Rightarrow> 'k env \<Rightarrow> bool" where
  "get_server_unknown_errors dp ev \<longleftrightarrow>
     onboarded dp ev (\<lambda>d. answers_error dp ev (ReqGetServer ''ghost'') d (\<lambda>e d. str_contains e ''unknown server''))"

subsection \<open>Importing\<close>

definition valid_conf :: "'k defguard \<Rightarrow> 'k \<Rightarrow> string" where
  "valid_conf dg k =
     unlines [''[Interface]'', ''PrivateKey = '' @ generate_private_key dg k, ''Address = 10.0.0.2/24'',
       ''[Peer]'', ''PublicKey = '' @ peer_key_text, ''Endpoint = 198.51.100.10:51820'',
       ''AllowedIPs = 0.0.0.0/0'']"

definition import_adds_a_server_with_a_derived_public_key :: "('k, fake) deps \<Rightarrow> 'k env \<Rightarrow> 'k \<Rightarrow> bool" where
  "import_adds_a_server_with_a_derived_public_key dp ev k' \<longleftrightarrow>
     fresh_daemon dp (\<lambda>d.
       answers_servers dp ev (ReqImportServer ''home'' (valid_conf (dep_dg dp) k')) d (\<lambda>l d.
         (case l of
            [i] \<Rightarrow> info_name i = ''home''
              \<and> first_server d (\<lambda>s. unwraps (public_key (dep_dg dp) (sc_private_key s)) (\<lambda>derived.
                  info_public_key i = derived))
          | _ \<Rightarrow> False)))"

definition import_of_malformed_conf_errors_and_persists_nothing :: "('k, fake) deps \<Rightarrow> 'k env \<Rightarrow> bool" where
  "import_of_malformed_conf_errors_and_persists_nothing dp ev \<longleftrightarrow>
     fresh_daemon dp (\<lambda>d. answers_error dp ev (ReqImportServer ''home'' ''not a config'') d (\<lambda>e d.
       e \<noteq> [] \<and> servers (d_cfg d) = []))"

definition import_with_a_bad_key_surfaces_validate_server :: "('k, fake) deps \<Rightarrow> 'k env \<Rightarrow> bool" where
  "import_with_a_bad_key_surfaces_validate_server dp ev \<longleftrightarrow>
     fresh_daemon dp (\<lambda>d. answers_error dp ev (ReqImportServer ''home'' (unlines
         [''[Interface]'', ''PrivateKey = not-a-key'', ''Address = 10.0.0.2/24'',
          ''[Peer]'', ''PublicKey = p'', ''Endpoint = h:51820'', ''AllowedIPs = 0.0.0.0/0''])) d (\<lambda>e d.
       str_contains e ''private_key'' \<and> servers (d_cfg d) = []))"

definition import_of_a_multi_peer_conf_is_rejected_end_to_end :: "('k, fake) deps \<Rightarrow> 'k env \<Rightarrow> 'k \<Rightarrow> bool" where
  "import_of_a_multi_peer_conf_is_rejected_end_to_end dp ev k' \<longleftrightarrow>
     fresh_daemon dp (\<lambda>d. answers_error dp ev (ReqImportServer ''home'' (unlines
         [''[Interface]'', ''PrivateKey = '' @ generate_private_key (dep_dg dp) k', ''Address = 10.0.0.2/24'',
          ''[Peer]'', ''PublicKey = '' @ peer_key_text, ''Endpoint = h:1'', ''AllowedIPs = 0.0.0.0/0'',
          ''[Peer]'', ''PublicKey = '' @ peer_key_text, ''Endpoint = h:2'', ''AllowedIPs = 0.0.0.0/0''])) d (\<lambda>e d.
       str_contains e ''one peer'' \<and> servers (d_cfg d) = []))"

end
