(* ===== verification/Firewall_Tests.thy ===== *)
theory Firewall_Tests
  imports Wireguard_Tests Resolvconf
begin

section \<open>The tests of the split routes, the packet filter and the resolver's names\<close>

text \<open>
  The other unit tests of \<open>wireguard.rs\<close>, in the same form. What \<open>ip\<close> prints is decoded by
  serde, whose decoder is an argument.
\<close>

subsection \<open>Split routes\<close>

text \<open>The texts of the split routes of a server, whose peer must build.\<close>

definition split_texts :: "'k defguard \<Rightarrow> resolver \<Rightarrow> server_config \<Rightarrow> string list result" where
  "split_texts dg r server =
     bindR (build_peer dg r server) (\<lambda>peer. Inr (map (mask_to_string dg) (split_route_prefixes dg peer)))"

definition split_route_prefixes_keeps_only_the_non_default_prefixes ::
  "'k defguard \<Rightarrow> resolver \<Rightarrow> 'k \<Rightarrow> bool" where
  "split_route_prefixes_keeps_only_the_non_default_prefixes dg r k \<longleftrightarrow>
     unwraps (split_texts dg r ((valid_server dg k)\<lparr>sc_allowed_ips :=
         [''192.168.1.0/24'', ''0.0.0.0/0'', ''::/0'', ''fd00:beef::/48'']\<rparr>))
       (\<lambda>texts. texts = [''192.168.1.0/24'', ''fd00:beef::/48''])"

definition switch_routes_a_peers_lan_prefix_explicitly ::
  "'k defguard \<Rightarrow> resolver \<Rightarrow> 'k \<Rightarrow> 'k \<Rightarrow> bool" where
  "switch_routes_a_peers_lan_prefix_explicitly dg r k own \<longleftrightarrow>
     (let server = (valid_server dg k)\<lparr>sc_allowed_ips := [''192.168.1.0/24'', ''0.0.0.0/0'', ''::/0'']\<rparr>
      in unwraps (warm_run dg r own (Some 51820) server) (\<lambda>calls.
        RecSyncSplitRoutes [''192.168.1.0/24''] \<in> set calls
        \<and> in_order calls is_routing is_split_routes))"

definition switch_to_a_plain_full_tunnel_still_syncs_an_empty_route_set ::
  "'k defguard \<Rightarrow> resolver \<Rightarrow> 'k \<Rightarrow> 'k \<Rightarrow> bool" where
  "switch_to_a_plain_full_tunnel_still_syncs_an_empty_route_set dg r k own \<longleftrightarrow>
     unwraps (warm_run dg r own (Some 51820) (valid_server dg k)) (\<lambda>calls.
       RecSyncSplitRoutes [] \<in> set calls)"

definition split_route_prefixes_are_canonical_network_addresses ::
  "'k defguard \<Rightarrow> resolver \<Rightarrow> 'k \<Rightarrow> bool" where
  "split_route_prefixes_are_canonical_network_addresses dg r k \<longleftrightarrow>
     unwraps (split_texts dg r ((valid_server dg k)\<lparr>sc_allowed_ips :=
         [''192.168.1.5/24'', ''10.1.2.3/8'', ''fd00:beef::1/48'', ''0.0.0.0/0'']\<rparr>))
       (\<lambda>texts. texts = [''192.168.1.0/24'', ''10.0.0.0/8'', ''fd00:beef::/48''])
     \<and> unwraps (mask_from_str dg ''10.5.5.5/32'') (\<lambda>host.
         mask_to_string dg (network_prefix dg host) = ''10.5.5.5/32'')"

text \<open>One entry of the JSON that \<open>ip -j route show\<close> prints.\<close>

definition json_route :: "string \<Rightarrow> string \<Rightarrow> string" where
  "json_route dst rest =
     ''{'' @ dquoted ''dst'' @ '':'' @ dquoted dst @ '','' @ dquoted ''protocol'' @ '':''
     @ dquoted ''static'' @ rest @ '','' @ dquoted ''flags'' @ '':[]}''"

definition scope_link :: string where
  "scope_link = '','' @ dquoted ''scope'' @ '':'' @ dquoted ''link''"

definition next_entry :: string where
  "next_entry = '','' @ lf @ ''                       ''"

definition ip_route_json :: string where
  "ip_route_json =
     ''['' @ json_route ''192.168.1.0/24'' scope_link @ next_entry @ json_route ''10.5.5.5'' scope_link
     @ next_entry @ json_route ''default'' [] @ '']''"

definition ip_route_json_yields_the_prefixes_it_lists ::
  "'k defguard \<Rightarrow> (string \<Rightarrow> string option list result) \<Rightarrow> bool" where
  "ip_route_json_yields_the_prefixes_it_lists dg dec \<longleftrightarrow>
     map (mask_to_string dg) (parse_ip_route_prefixes dg dec ip_route_json)
       = [''192.168.1.0/24'', ''10.5.5.5/32'']"

definition junk_outputs :: "string list" where
  "junk_outputs = [[], ''Cannot find device '' @ dquoted ''wirefinder'', ''[]'', ''not json'']"

definition unparseable_ip_output_yields_no_prefixes ::
  "'k defguard \<Rightarrow> (string \<Rightarrow> string option list result) \<Rightarrow> bool" where
  "unparseable_ip_output_yields_no_prefixes dg dec \<longleftrightarrow>
     list_all (\<lambda>junk. parse_ip_route_prefixes dg dec junk = []) junk_outputs"

definition stale_routes_are_the_ones_the_new_server_does_not_want :: "'k defguard \<Rightarrow> bool" where
  "stale_routes_are_the_ones_the_new_server_does_not_want dg \<longleftrightarrow>
     unwraps (collectR (map (mask_from_str dg) [''192.168.1.0/24'', ''10.8.0.0/16'', ''fd00::/48'']))
       (\<lambda>installed.
     unwraps (collectR (map (mask_from_str dg) [''192.168.1.0/24'', ''172.16.0.0/12''])) (\<lambda>wanted.
       map (mask_to_string dg) (stale_routes installed wanted) = [''10.8.0.0/16'', ''fd00::/48'']
       \<and> stale_routes [] wanted = [] \<and> length (stale_routes installed []) = 3))"

subsection \<open>The packet filter\<close>

text \<open>The script for the addresses with the given texts, which must parse.\<close>

definition script_for :: "'k defguard \<Rightarrow> string list \<Rightarrow> u32 option \<Rightarrow> string result" where
  "script_for dg texts fwmark =
     bindR (collectR (map (mask_from_str dg) texts)) (\<lambda>addrs. Inr (nft_script ''wirefinder'' addrs fwmark))"

text \<open>\<open>hay.find(needle)\<close>.\<close>

fun str_find :: "string \<Rightarrow> string \<Rightarrow> nat option" where
  "str_find [] n = (if n = [] then Some 0 else None)"
| "str_find (x # xs) n = (if prefix n (x # xs) then Some 0 else map_option Suc (str_find xs n))"

definition nft_script_guards_the_tunnel_address_against_the_local_link :: "'k defguard \<Rightarrow> bool" where
  "nft_script_guards_the_tunnel_address_against_the_local_link dg \<longleftrightarrow>
     unwraps (script_for dg [''10.0.0.4/24''] (Some 51820)) (\<lambda>script.
       str_contains script (''iifname != '' @ dquoted ''wirefinder''
         @ '' ip daddr 10.0.0.4 fib saddr type != local drop'')
       \<and> \<not> str_contains script ''10.0.0.4/24''
       \<and> str_contains script ''type filter hook prerouting priority -300;'')"

definition nft_script_makes_the_fwmark_sticky_across_a_udp_flow :: "'k defguard \<Rightarrow> bool" where
  "nft_script_makes_the_fwmark_sticky_across_a_udp_flow dg \<longleftrightarrow>
     unwraps (script_for dg [''10.0.0.4/24''] (Some 51821)) (\<lambda>script.
       str_contains script ''meta l4proto udp mark 51821 ct mark set mark''
       \<and> str_contains script ''meta l4proto udp meta mark set ct mark''
       \<and> str_contains script ''priority -150;'')"

definition nft_script_without_a_fwmark_keeps_the_anti_spoof_rule_only :: "'k defguard \<Rightarrow> bool" where
  "nft_script_without_a_fwmark_keeps_the_anti_spoof_rule_only dg \<longleftrightarrow>
     list_all (\<lambda>mark. unwraps (script_for dg [''10.0.0.4/24''] mark) (\<lambda>script.
       str_contains script ''fib saddr type != local drop''
       \<and> \<not> str_contains script ''premangle''
       \<and> \<not> str_contains script ''postmangle'')) [None, Some 0]"

definition nft_script_uses_the_right_family_keyword_for_each_address :: "'k defguard \<Rightarrow> bool" where
  "nft_script_uses_the_right_family_keyword_for_each_address dg \<longleftrightarrow>
     unwraps (script_for dg [''10.0.0.4/24'', ''fd00::2/128''] (Some 51820)) (\<lambda>script.
       str_contains script ''table ip wirefinder {'' \<and> str_contains script ''table ip6 wirefinder {''
       \<and> str_contains script ''ip daddr 10.0.0.4 '' \<and> str_contains script ''ip6 daddr fd00::2 '')"

definition nft_script_retires_the_family_a_tunnel_no_longer_uses :: "'k defguard \<Rightarrow> bool" where
  "nft_script_retires_the_family_a_tunnel_no_longer_uses dg \<longleftrightarrow>
     unwraps (script_for dg [''10.0.0.4/24''] (Some 51820)) (\<lambda>script.
       str_contains script (''delete table ip6 wirefinder'' @ lf)
       \<and> \<not> str_contains script ''table ip6 wirefinder {''
       \<and> (case (str_find script ''delete table ip wirefinder'', str_find script ''table ip wirefinder {'') of
            (Some del, Some decl) \<Rightarrow> del < decl | _ \<Rightarrow> False))"

definition nft_script_with_no_addresses_is_a_pure_teardown :: bool where
  "nft_script_with_no_addresses_is_a_pure_teardown \<longleftrightarrow>
     nft_script ''wirefinder'' [] None =
       unlines [''add table ip wirefinder'', ''delete table ip wirefinder'',
          ''add table ip6 wirefinder'', ''delete table ip6 wirefinder'']"

definition switch_applies_the_firewall_after_routing_with_the_devices_fwmark ::
  "'k defguard \<Rightarrow> resolver \<Rightarrow> 'k \<Rightarrow> 'k \<Rightarrow> bool" where
  "switch_applies_the_firewall_after_routing_with_the_devices_fwmark dg r k own \<longleftrightarrow>
     unwraps (warm_run dg r own (Some 51821) (valid_server dg k)) (\<lambda>calls.
       RecApplyFirewall [''10.0.0.2/24''] (Some 51821) \<in> set calls
       \<and> in_order calls is_split_routes is_firewall \<and> RecClearFirewall \<notin> set calls)"

definition switch_applies_the_firewall_even_when_the_fwmark_cannot_be_read ::
  "'k defguard \<Rightarrow> resolver \<Rightarrow> 'k \<Rightarrow> bool" where
  "switch_applies_the_firewall_even_when_the_fwmark_cannot_be_read dg r k \<longleftrightarrow>
     unwraps (run_switch dg r [Inl ''interface down''] (valid_server dg k)) (\<lambda>calls.
       RecApplyFirewall [''10.0.0.2/24''] None \<in> set calls)"

subsection \<open>The resolver's interface names\<close>

definition interface_order_prefix_picks_the_first_valid_entry :: bool where
  "interface_order_prefix_picks_the_first_valid_entry \<longleftrightarrow>
     interface_order_prefix (unlines [''# comment'', ''wg*'', ''eth*'']) = Some ''wg''"

definition interface_order_prefix_handles_dashes_and_skips_malformed_lines :: bool where
  "interface_order_prefix_handles_dashes_and_skips_malformed_lines \<longleftrightarrow>
     interface_order_prefix (unlines [''not-a-pattern'', ''my-vpn*'']) = Some ''my-vpn''
     \<and> interface_order_prefix [] = None
     \<and> interface_order_prefix (unlines [''*'']) = None
     \<and> interface_order_prefix (unlines [''eth0'', ''wlan0'']) = None"

subsection \<open>The model passes them\<close>

lemma switch_applies_the_firewall_after_routing_with_the_devices_fwmark_passes:
  assumes "crate_fixtures dg kp ko"
  shows "switch_applies_the_firewall_after_routing_with_the_devices_fwmark dg r k own"
  by (rule valid_warm [OF assms, of "Some 51821" own r k])
    (simp add: switch_applies_the_firewall_after_routing_with_the_devices_fwmark_def switch_test_defs
      valid_prefixes [OF assms])

lemma switch_applies_the_firewall_even_when_the_fwmark_cannot_be_read_passes:
  assumes "crate_fixtures dg kp ko"
  shows "switch_applies_the_firewall_even_when_the_fwmark_cannot_be_read dg r k"
  using like_valid_cold [OF assms valid_server_like [OF assms]]
  by (simp add: switch_applies_the_firewall_even_when_the_fwmark_cannot_be_read_def switch_test_defs
      valid_prefixes [OF assms])

lemma switch_to_a_plain_full_tunnel_still_syncs_an_empty_route_set_passes:
  assumes "crate_fixtures dg kp ko"
  shows "switch_to_a_plain_full_tunnel_still_syncs_an_empty_route_set dg r k own"
  by (rule valid_warm [OF assms, of "Some 51820" own r k])
    (simp add: switch_to_a_plain_full_tunnel_still_syncs_an_empty_route_set_def switch_test_defs)

lemma split_prefixes:
  assumes "crate_fixtures dg kp ko"
  shows "mask_from_str dg ''192.168.1.0/24'' = Inr (prefix4 0xC0A80100 24)"
    "mask_from_str dg ''::/0'' = Inr (prefix6 0 0)"
    "mask_from_str dg ''fd00:beef::/48'' = Inr (prefix6 0xFD00BEEF000000000000000000000000 48)"
    "mask_from_str dg ''192.168.1.5/24'' = Inr (prefix4 0xC0A80105 24)"
    "mask_from_str dg ''10.1.2.3/8'' = Inr (prefix4 0x0A010203 8)"
    "mask_from_str dg ''fd00:beef::1/48'' = Inr (prefix6 0xFD00BEEF000000000000000000000001 48)"
    "mask_from_str dg ''10.5.5.5/32'' = Inr (prefix4 0x0A050505 32)"
    "mask_to_string dg (prefix4 0xC0A80100 24) = ''192.168.1.0/24''"
    "mask_to_string dg (prefix4 0x0A000000 8) = ''10.0.0.0/8''"
    "mask_to_string dg (prefix4 0x0A050505 32) = ''10.5.5.5/32''"
    "mask_to_string dg (prefix6 0xFD00BEEF000000000000000000000000 48) = ''fd00:beef::/48''"
  using fixture_prefix_eval(1) [OF assms] by (simp_all add: fixture_prefixes_def)

lemma split_canonical:
  assumes "crate_fixtures dg kp ko"
  shows "network_prefix dg (prefix4 0xC0A80100 24) = prefix4 0xC0A80100 24"
    "network_prefix dg (prefix4 0xC0A80105 24) = prefix4 0xC0A80100 24"
    "network_prefix dg (prefix4 0x0A010203 8) = prefix4 0x0A000000 8"
    "network_prefix dg (prefix4 0x0A050505 32) = prefix4 0x0A050505 32"
    "network_prefix dg (prefix6 0xFD00BEEF000000000000000000000000 48)
      = prefix6 0xFD00BEEF000000000000000000000000 48"
    "network_prefix dg (prefix6 0xFD00BEEF000000000000000000000001 48)
      = prefix6 0xFD00BEEF000000000000000000000000 48"
  by (simp_all add: network_prefix_def fixture_keys(9) [OF assms] netmask_def prefix4_def prefix6_def
      mask_numeral Let_def)

lemma not_default [simp]:
  "\<not> is_unspecified (im_address (prefix4 0xC0A80100 n))"
  "\<not> is_unspecified (im_address (prefix4 0xC0A80105 n))"
  "\<not> is_unspecified (im_address (prefix4 0x0A010203 n))"
  "\<not> is_unspecified (im_address (prefix6 0xFD00BEEF000000000000000000000000 n))"
  "\<not> is_unspecified (im_address (prefix6 0xFD00BEEF000000000000000000000001 n))"
  by (simp_all add: prefix4_def prefix6_def)

lemma like_valid_split_texts:
  assumes "crate_fixtures dg kp ko" "like_valid dg k s ips as dns"
  shows "split_texts dg r s = Inr (map (mask_to_string dg)
    (map (network_prefix dg) (filter (\<lambda>ip. \<not> is_unspecified (im_address ip)) ips)))"
  using like_valid_parts [OF assms] by (simp add: split_texts_def split_route_prefixes_def valid_peer_def)

lemma split_route_prefixes_keeps_only_the_non_default_prefixes_passes:
  assumes "crate_fixtures dg kp ko"
  shows "split_route_prefixes_keeps_only_the_non_default_prefixes dg r k"
proof -
  let ?s = "(valid_server dg k)\<lparr>sc_allowed_ips :=
      [''192.168.1.0/24'', ''0.0.0.0/0'', ''::/0'', ''fd00:beef::/48'']\<rparr>"
  have "like_valid dg k ?s [prefix4 0xC0A80100 24, prefix4 0 0, prefix6 0 0,
      prefix6 0xFD00BEEF000000000000000000000000 48] [prefix4 0x0A000002 24] []"
    using valid_server_like [OF assms, of k]
    by (simp add: like_valid_def trim_graphic graphic_def split_prefixes [OF assms] valid_prefixes [OF assms])
  from like_valid_split_texts [OF assms this] show ?thesis
    by (simp add: split_route_prefixes_keeps_only_the_non_default_prefixes_def
        split_canonical [OF assms] split_prefixes [OF assms])
qed

lemma switch_routes_a_peers_lan_prefix_explicitly_passes:
  assumes "crate_fixtures dg kp ko"
  shows "switch_routes_a_peers_lan_prefix_explicitly dg r k own"
proof -
  let ?s = "(valid_server dg k)\<lparr>sc_allowed_ips := [''192.168.1.0/24'', ''0.0.0.0/0'', ''::/0'']\<rparr>"
  have "like_valid dg k ?s [prefix4 0xC0A80100 24, prefix4 0 0, prefix6 0 0] [prefix4 0x0A000002 24] []"
    using valid_server_like [OF assms, of k]
    by (simp add: like_valid_def trim_graphic graphic_def split_prefixes [OF assms] valid_prefixes [OF assms])
  from like_valid_warm [OF assms this, of "Some 51820" own r] show ?thesis
    by (auto simp: switch_routes_a_peers_lan_prefix_explicitly_def switch_test_defs
        split_canonical [OF assms] split_prefixes [OF assms])
qed

lemma split_route_prefixes_are_canonical_network_addresses_passes:
  assumes "crate_fixtures dg kp ko"
  shows "split_route_prefixes_are_canonical_network_addresses dg r k"
proof -
  let ?s = "(valid_server dg k)\<lparr>sc_allowed_ips :=
      [''192.168.1.5/24'', ''10.1.2.3/8'', ''fd00:beef::1/48'', ''0.0.0.0/0'']\<rparr>"
  have "like_valid dg k ?s [prefix4 0xC0A80105 24, prefix4 0x0A010203 8,
      prefix6 0xFD00BEEF000000000000000000000001 48, prefix4 0 0] [prefix4 0x0A000002 24] []"
    using valid_server_like [OF assms, of k]
    by (simp add: like_valid_def trim_graphic graphic_def split_prefixes [OF assms] valid_prefixes [OF assms])
  from like_valid_split_texts [OF assms this] show ?thesis
    by (simp add: split_route_prefixes_are_canonical_network_addresses_def
        split_canonical [OF assms] split_prefixes [OF assms])
qed

text \<open>serde's decoder reads the destinations of the three entries.\<close>

lemma ip_route_json_yields_the_prefixes_it_lists_passes:
  assumes "crate_fixtures dg kp ko"
    and "dec ip_route_json = Inr [Some ''192.168.1.0/24'', Some ''10.5.5.5'', Some ''default'']"
  shows "ip_route_json_yields_the_prefixes_it_lists dg dec"
proof -
  obtain e where "mask_from_str dg ''default'' = Inl e"
    using fixture_bad_prefix [OF assms(1), of "''default''"] by auto
  then show ?thesis
    using fixture_prefix_eval(2) [OF assms(1)]
    by (simp add: ip_route_json_yields_the_prefixes_it_lists_def parse_ip_route_prefixes_def assms(2)
        List.map_filter_def trim_graphic graphic_def split_prefixes [OF assms(1)])
qed

lemma unparseable_ip_output_yields_no_prefixes_passes:
  assumes "\<forall>junk \<in> set junk_outputs. \<not> is_ok (dec junk) \<or> dec junk = Inr []"
  shows "unparseable_ip_output_yields_no_prefixes dg dec"
proof -
  have "parse_ip_route_prefixes dg dec junk = []" if "junk \<in> set junk_outputs" for junk
    using assms that
    by (cases "dec junk") (auto simp: parse_ip_route_prefixes_def List.map_filter_def)
  then show ?thesis
    by (simp add: unparseable_ip_output_yields_no_prefixes_def list_all_iff)
qed

lemma stale_routes_are_the_ones_the_new_server_does_not_want_passes:
  assumes "crate_fixtures dg kp ko"
  shows "stale_routes_are_the_ones_the_new_server_does_not_want dg"
proof -
  have "mask_from_str dg ''10.8.0.0/16'' = Inr (prefix4 0x0A080000 16)"
    "mask_to_string dg (prefix4 0x0A080000 16) = ''10.8.0.0/16''"
    "mask_from_str dg ''fd00::/48'' = Inr (prefix6 0xFD000000000000000000000000000000 48)"
    "mask_to_string dg (prefix6 0xFD000000000000000000000000000000 48) = ''fd00::/48''"
    "mask_from_str dg ''172.16.0.0/12'' = Inr (prefix4 0xAC100000 12)"
    using fixture_prefix_eval(1) [OF assms] by (simp_all add: fixture_prefixes_def)
  then show ?thesis
    by (simp add: stale_routes_are_the_ones_the_new_server_does_not_want_def split_prefixes [OF assms]
        stale_routes_def prefix4_def prefix6_def)
qed

subsection \<open>The scripts\<close>

lemma script_prefixes:
  assumes "crate_fixtures dg kp ko"
  shows "mask_from_str dg ''10.0.0.4/24'' = Inr (prefix4 0x0A000004 24)"
    "mask_from_str dg ''fd00::2/128'' = Inr (prefix6 0xFD000000000000000000000000000002 128)"
  using fixture_prefix_eval(1) [OF assms] by (simp_all add: fixture_prefixes_def)

lemma script_addresses:
  "show_ip (im_address (prefix4 0x0A000004 n)) = ''10.0.0.4''"
  "show_ip (im_address (prefix6 0xFD000000000000000000000000000002 n)) = ''fd00::2''"
  "\<not> is_ipv6 (im_address (prefix4 0x0A000004 n))"
  "is_ipv6 (im_address (prefix6 0xFD000000000000000000000000000002 n))"
  by (simp_all add: prefix4_def prefix6_def show_ipv4_def octet_def show_ipv6_def is_ipv4_mapped_def
      segments_def segment_def unat_drop_bit_eq drop_bit_eq_div fmt_subslice_def join_def show_hex.simps
      hex_char_def char_of_def bit_0 show_nat.simps digit_char_def)

lemma script_marks: "show_nat 51820 = ''51820''" "show_nat 51821 = ''51821''"
  by (simp_all add: show_nat.simps digit_char_def char_of_def bit_0)

lemmas script_defs = script_for_def nft_script_def family_script_def Let_def lf_def tab_def dquoted_def
  nft_table_def nft_priority_raw_def nft_priority_mangle_def script_marks

lemma nft_script_guards_the_tunnel_address_against_the_local_link_passes:
  assumes "crate_fixtures dg kp ko"
  shows "nft_script_guards_the_tunnel_address_against_the_local_link dg"
  by (simp add: nft_script_guards_the_tunnel_address_against_the_local_link_def
      script_defs script_prefixes [OF assms] script_addresses del: show_ip.simps)

lemma nft_script_makes_the_fwmark_sticky_across_a_udp_flow_passes:
  assumes "crate_fixtures dg kp ko"
  shows "nft_script_makes_the_fwmark_sticky_across_a_udp_flow dg"
  by (simp add: nft_script_makes_the_fwmark_sticky_across_a_udp_flow_def
      script_defs script_prefixes [OF assms] script_addresses del: show_ip.simps)

lemma nft_script_without_a_fwmark_keeps_the_anti_spoof_rule_only_passes:
  assumes "crate_fixtures dg kp ko"
  shows "nft_script_without_a_fwmark_keeps_the_anti_spoof_rule_only dg"
  by (simp add: nft_script_without_a_fwmark_keeps_the_anti_spoof_rule_only_def
      script_defs script_prefixes [OF assms] script_addresses del: show_ip.simps)

lemma nft_script_uses_the_right_family_keyword_for_each_address_passes:
  assumes "crate_fixtures dg kp ko"
  shows "nft_script_uses_the_right_family_keyword_for_each_address dg"
  by (simp add: nft_script_uses_the_right_family_keyword_for_each_address_def
      script_defs script_prefixes [OF assms] script_addresses del: show_ip.simps)

lemma nft_script_retires_the_family_a_tunnel_no_longer_uses_passes:
  assumes "crate_fixtures dg kp ko"
  shows "nft_script_retires_the_family_a_tunnel_no_longer_uses dg"
  by (simp add: nft_script_retires_the_family_a_tunnel_no_longer_uses_def
      script_defs script_prefixes [OF assms] script_addresses del: show_ip.simps)

lemma nft_script_with_no_addresses_is_a_pure_teardown_passes:
  nft_script_with_no_addresses_is_a_pure_teardown
  by (simp add: nft_script_with_no_addresses_is_a_pure_teardown_def script_defs unlines_def)

subsection \<open>The resolver's names\<close>

lemmas order_defs = interface_order_prefix_def order_line_prefix_def is_ascii_alphanumeric_def

lemma interface_order_prefix_picks_the_first_valid_entry_passes:
  interface_order_prefix_picks_the_first_valid_entry
  by (simp add: interface_order_prefix_picks_the_first_valid_entry_def order_defs literal_simps)

lemma interface_order_prefix_handles_dashes_and_skips_malformed_lines_passes:
  interface_order_prefix_handles_dashes_and_skips_malformed_lines
  by (simp add: interface_order_prefix_handles_dashes_and_skips_malformed_lines_def order_defs literal_simps)

end
