(* ===== verification/Daemon_Tests_Pass.thy ===== *)
theory Daemon_Tests_Pass
  imports Daemon_Tests Firewall_Tests
begin

section \<open>The model passes the tests of the daemon\<close>

text \<open>
  What the tests take for granted: the fixtures of the crate, the fake backend, a disk on which
  no operation fails, a codec that writes every configuration, and generated keys in base64.
\<close>

definition test_world :: "('k, fake) deps \<Rightarrow> 'k env \<Rightarrow> 'k \<Rightarrow> 'k \<Rightarrow> bool" where
  "test_world dp ev kp ko \<longleftrightarrow>
     crate_fixtures (dep_dg dp) kp ko \<and> dep_wg dp = fake_wireguard (dep_dg dp)
     \<and> env_faults ev = no_faults \<and> (\<forall>c. is_ok (dep_enc dp c)) \<and> dep_store dp = state_path"

subsection \<open>Saving\<close>

lemma write_private_succeeds:
  "\<exists>fs'. write_private no_faults p bytes fs = (Inr (), fs') \<and> fs_live fs' p \<noteq> None"
  by (cases "fs_live fs p")
    (auto simp: write_private_def no_faults_def fs_open_private_def Let_def fs_write_def fs_sync_def
      fs_live_def)

lemma save_succeeds:
  assumes "is_ok (enc c)"
  shows "fst (save enc no_faults path c fs) = Inr ()"
proof -
  obtain json where j: "enc c = Inr json" using assms by (auto elim: is_okE)
  obtain fs1 where w: "write_private no_faults (tmp_path path) json fs = (Inr (), fs1)"
    "fs_live fs1 (tmp_path path) \<noteq> None" using write_private_succeeds by blast
  have nf: "f_create_dir no_faults = None" "f_rename no_faults = None" "f_sync_dir no_faults = None"
    by (simp_all add: no_faults_def)
  from w show ?thesis
    by (simp add: save_def j failing_def nf bindS_def map_errS_def retS_def liftR_def fs_rename_def
        split: option.split)
qed

text \<open>The daemon with another configuration, which it has saved.\<close>

definition stored :: "('k, fake) deps \<Rightarrow> config \<Rightarrow> fake daemon \<Rightarrow> fake daemon" where
  "stored dp c d = d\<lparr>d_cfg := c, d_disk := snd (save (dep_enc dp) no_faults (dep_store dp) c (d_disk d))\<rparr>"

lemma stored_fields [simp]:
  "d_cfg (stored dp c d) = c" "d_wg (stored dp c d) = d_wg d"
  "d_last_connect (stored dp c d) = d_last_connect d"
  by (simp_all add: stored_def)

lemma persist_stored:
  assumes "test_world dp ev kp ko"
  shows "persist dp ev (d\<lparr>d_cfg := c\<rparr>) = (Inr (), stored dp c d)"
  using assms save_succeeds [of "dep_enc dp" c "dep_store dp" "d_disk d"]
  by (simp add: persist_def test_world_def stored_def split: prod.split) (metis fst_conv snd_conv)

subsection \<open>Requests on the fake backend\<close>

lemma fake_status_read: "wg_status (fake_wireguard dg) w = (ok_or (fake_live w) ''interface down'', w)"
  by (simp add: fake_wireguard_def fake_status_def)

lemma fake_reads:
  assumes "test_world dp ev kp ko"
  shows "list_servers dp e d = (map (list_entry (dep_dg dp) (env_now e) (is_connecting e d) (fake_live (d_wg d)))
      (servers (d_cfg d)), d)"
    and "active_public_key dp d = (Option.bind (fake_live (d_wg d)) li_public_key, d)"
proof -
  have "on_wg (wg_status (dep_wg dp)) d = (ok_or (fake_live (d_wg d)) ''interface down'', d)"
    using assms by (simp add: test_world_def on_wg_def fake_status_read)
  then show "list_servers dp e d = (map (list_entry (dep_dg dp) (env_now e) (is_connecting e d) (fake_live (d_wg d)))
      (servers (d_cfg d)), d)"
    "active_public_key dp d = (Option.bind (fake_live (d_wg d)) li_public_key, d)"
    by (cases "fake_live (d_wg d)"; simp add: list_servers_def active_public_key_def)+
qed

lemma answer_list:
  assumes "test_world dp ev kp ko"
  shows "answers_servers dp e (ReqListServers q) d P \<longleftrightarrow>
    P (case q of None \<Rightarrow> fst (list_servers dp e d)
       | Some q \<Rightarrow> filter (\<lambda>i. matches (dep_lower dp) i q) (fst (list_servers dp e d))) d"
  by (cases q) (simp_all add: answers_servers_def answer_def fake_reads(1) [OF assms])

lemma answer_status:
  assumes "test_world dp ev kp ko"
  shows "answer dp e ReqStatus d P \<longleftrightarrow>
    (case fake_live (d_wg d) of
       None \<Rightarrow> P RespDisconnected d
     | Some live \<Rightarrow> P (RespStatus \<lparr>is_name = li_name live, is_listen_port = li_listen_port live,
          is_peers = map (peer_status_of (env_now e) (is_connecting e d)) (li_peers live)\<rparr>) d)"
  using assms
  by (simp add: answer_def read_status_def test_world_def on_wg_def fake_status_read bindS_def
      split: option.split)

lemma answer_store:
  assumes "test_world dp ev kp ko" "env_faults e = no_faults"
    "validate_server (dep_dg dp) (env_resolve e) s = Inr a"
  shows "store_server dp e s d = (Inr (), stored dp (snd (upsert_server (with_endpoint s a) (d_cfg d))) d)"
proof -
  have w: "test_world dp e kp ko" using assms by (simp add: test_world_def)
  show ?thesis
    using persist_stored [OF w] by (simp add: store_server_def assms(3) bindS_def upsert_into_def with_endpoint_def)
qed

lemma answer_add:
  assumes "test_world dp ev kp ko" "env_faults e = no_faults" "trim (spec_name spec) \<noteq> []"
    "validate_server (dep_dg dp) (env_resolve e) (added_server dp e spec) = Inr a"
  shows "answer dp e (ReqAddServer spec) d P \<longleftrightarrow>
    (let d' = stored dp (snd (upsert_server (with_endpoint (added_server dp e spec) a) (d_cfg d))) d
     in P (RespServers (fst (list_servers dp e d'))) d')"
  using assms(3) answer_store [OF assms(1,2,4)]
  by (simp add: answer_def add_server_eq reply_servers_def Let_def fake_reads(1) [OF assms(1)])

lemma answer_add_bad:
  assumes "trim (spec_name spec) \<noteq> []"
    "validate_server (dep_dg dp) (env_resolve e) (added_server dp e spec) = Inl m"
  shows "answer dp e (ReqAddServer spec) d P \<longleftrightarrow> P (RespError m) d"
  using assms by (simp add: answer_def add_server_eq reply_servers_def store_server_def)

lemma answer_edit:
  assumes "test_world dp ev kp ko" "env_faults e = no_faults" "trim (spec_name spec) = name" "name \<noteq> []"
    "find_server (d_cfg d) name = Some old" "public_key (dep_dg dp) (sc_private_key old) = Inr own"
    "Option.bind (fake_live (d_wg d)) li_public_key \<noteq> Some own"
    "validate_server (dep_dg dp) (env_resolve e) (edited_server spec old) = Inr a"
  shows "answer dp e (ReqEditServer spec) d P \<longleftrightarrow>
    (let d' = stored dp (snd (upsert_server (with_endpoint (edited_server spec old) a) (d_cfg d))) d
     in P (RespServers (fst (list_servers dp e d'))) d')"
proof -
  have "edit_server dp e spec d = store_server dp e (edited_server spec old) d"
    using assms(3-7) fake_reads(2) [OF assms(1), of d]
    by (simp add: edit_server_def bindS_def Let_def edited_server_def)
  then show ?thesis
    using answer_store [OF assms(1,2,8), of d]
    by (simp add: answer_def reply_servers_def Let_def fake_reads(1) [OF assms(1)])
qed

lemma answer_switch:
  assumes "test_world dp ev kp ko" "find_server (d_cfg d) name = Some s" "fk_fail_with (d_wg d) = None"
    "public_key (dep_dg dp) (sc_private_key s) = Inr own" "parse_sock (sc_endpoint s) = Some a"
  shows "answer dp e (ReqSwitchServer name) d P \<longleftrightarrow>
    P (RespSwitched name) (switched dp e name a (d\<lparr>d_wg := (d_wg d)\<lparr>
      fk_calls := fk_calls (d_wg d) @ [''switch:'' @ sc_name s],
      fk_last_switch_addresses := sc_addresses s, fk_live_pubkey := Some own,
      fk_live_peers := Some [\<lparr>fp_public_key = sc_public_key s, fp_last_handshake = None\<rparr>]\<rparr>\<rparr>))"
proof -
  have "wg_switch (dep_wg dp) (env_resolve e) s (d_wg d) = (Inr a, (d_wg d)\<lparr>
      fk_calls := fk_calls (d_wg d) @ [''switch:'' @ sc_name s],
      fk_last_switch_addresses := sc_addresses s, fk_live_pubkey := Some own,
      fk_live_peers := Some [\<lparr>fp_public_key = sc_public_key s, fp_last_handshake = None\<rparr>]\<rparr>)"
    using assms by (simp add: test_world_def fake_wireguard_def fake_switch_def check_fail_def fake_record_def
        bindS_def)
  then show ?thesis using assms(2) by (simp add: answer_def switch_server_def on_wg_def)
qed

subsection \<open>The servers of the tests\<close>

text \<open>A server the crate's fixtures accept, with the given own key and address.\<close>

definition fixture_server :: "'k defguard \<Rightarrow> 'k \<Rightarrow> server_config \<Rightarrow> socket_addr \<Rightarrow> bool" where
  "fixture_server dg k s a \<longleftrightarrow>
     sc_private_key s = key_to_string dg k
     \<and> sc_public_key s \<in> {peer_key_text, other_key_text} \<and> parse_sock (trim (sc_endpoint s)) = Some a
     \<and> sc_allowed_ips s = [''0.0.0.0/0''] \<and> sc_dns s = []
     \<and> (sc_preshared_key s = None \<or> (\<exists>psk. sc_preshared_key s = Some (key_to_string dg psk)))
     \<and> sc_addresses s \<noteq> [] \<and> list_all (\<lambda>t. t \<in> fst ` set fixture_prefixes) (sc_addresses s)"

lemma fixture_prefix_trims: "list_all (\<lambda>(s, m). trim s = s) fixture_prefixes"
  by (simp add: fixture_prefixes_def trim_graphic graphic_def)

lemma fixture_address:
  assumes "crate_fixtures dg kp ko" "t \<in> fst ` set fixture_prefixes"
  shows "is_ok (mask_from_str dg (trim t))"
proof -
  obtain m where m: "(t, m) \<in> set fixture_prefixes" using assms(2) by auto
  then have "trim t = t" using fixture_prefix_trims by (auto simp: list_all_iff)
  then show ?thesis using fixture_masks(1) [OF assms(1) m] by simp
qed

lemma fixture_server_valid:
  assumes "crate_fixtures dg kp ko" "fixture_server dg k s a"
  shows "validate_server dg r s = Inr a"
proof -
  note s = assms(2) [unfolded fixture_server_def]
  note k = fixture_keys [OF assms(1)]
  have "is_ok (key_from_str dg (trim (sc_public_key s)))" using s k fixture_trims by auto
  moreover have "case sc_preshared_key s of None \<Rightarrow> True | Some k \<Rightarrow> is_ok (key_from_str dg (trim k))"
    using s k by auto
  moreover have "list_all (\<lambda>a. is_ok (mask_from_str dg (trim a))) (sc_addresses s)"
    using s fixture_address [OF assms(1)] by (simp add: list_all_iff)
  ultimately have "well_formed dg s"
    using s k valid_prefixes(3) [OF assms(1)] by (simp add: well_formed_def test_trims)
  moreover have "endpoint_addr r s = Inr a"
    using s by (simp add: endpoint_addr_def resolve_endpoint_def or_cached_def Let_def)
  ultimately show ?thesis by (simp add: validate_server_Inr)
qed

lemma fixture_own_key:
  assumes "crate_fixtures dg kp ko"
  shows "public_key dg (key_to_string dg k) = Inr (key_to_string dg (key_public_key dg k))"
  using fixture_keys [OF assms] by (simp add: public_key_def)

lemma name_trims [simp]:
  "trim ''nexus'' = ''nexus''" "trim ''edge'' = ''edge''" "trim ''nexus-a'' = ''nexus-a''"
  "trim ''nexus-b'' = ''nexus-b''" "trim ''ds'' = ''ds''" "trim ''home'' = ''home''"
  "trim ''mullvad-nyc'' = ''mullvad-nyc''" "trim ''proton-ch'' = ''proton-ch''" "trim ''broken'' = ''broken''"
  "trim ''ghost'' = ''ghost''"
  by (simp_all add: trim_graphic graphic_def)

lemma more_endpoints:
  "parse_sock ''198.51.100.20:51820'' = Some (SockV4 0xC6336414 51820)"
  "parse_sock ''198.51.100.30:51820'' = Some (SockV4 0xC633641E 51820)"
  "trim ''198.51.100.20:51820'' = ''198.51.100.20:51820''"
  "trim ''198.51.100.30:51820'' = ''198.51.100.30:51820''"
  by (simp_all add: parser_evals trim_graphic graphic_def)

lemma more_endpoint_texts:
  "show_sock (SockV4 0xC6336414 51820) = ''198.51.100.20:51820''"
  by (simp add: show_ipv4_def join_def octet_def show_nat.simps digit_char_def char_of_def bit_0
      unat_drop_bit_eq)

lemma loaded_fresh:
  "fresh_daemon dp P \<longleftrightarrow>
   P \<lparr>d_cfg = config_default, d_wg = fake_default, d_last_connect = None, d_disk = empty_fs\<rparr>"
  by (simp add: fresh_daemon_def daemon_load_def load_def read_to_string_def no_faults_def file_text_def
      fs_live_def empty_fs_def)

lemmas spec_defs = test_spec_def added_server_def edited_server_def server_of_spec_def supplied_def
  generate_private_key_def with_endpoint_def edge_test_spec_def

text \<open>The entry for \<open>nexus\<close> after onboarding.\<close>

definition nexus :: "'k defguard \<Rightarrow> 'k \<Rightarrow> server_config" where
  "nexus dg k =
     \<lparr>sc_name = ''nexus'', sc_private_key = key_to_string dg k, sc_public_key = peer_key_text,
      sc_endpoint = ''198.51.100.10:51820'', sc_resolved_endpoint = Some ''198.51.100.10:51820'',
      sc_addresses = [''10.0.0.2/24''], sc_allowed_ips = [''0.0.0.0/0''], sc_listen_port = 0,
      sc_mtu = None, sc_keepalive = Some 25, sc_preshared_key = None, sc_dns = []\<rparr>"

lemma world_fixtures: "test_world dp ev kp ko \<Longrightarrow> crate_fixtures (dep_dg dp) kp ko"
  by (simp add: test_world_def)

lemma nexus_added:
  assumes "test_world dp ev kp ko"
  shows "with_endpoint (added_server dp e (test_spec ''nexus'')) (SockV4 0xC633640A 51820)
      = nexus (dep_dg dp) (env_fresh e)"
    and "validate_server (dep_dg dp) r (added_server dp e (test_spec ''nexus'')) = Inr (SockV4 0xC633640A 51820)"
proof -
  have "fixture_server (dep_dg dp) (env_fresh e) (added_server dp e (test_spec ''nexus'')) (SockV4 0xC633640A 51820)"
    by (simp add: fixture_server_def spec_defs test_trims test_endpoints fixture_prefixes_def)
  then show "validate_server (dep_dg dp) r (added_server dp e (test_spec ''nexus'')) = Inr (SockV4 0xC633640A 51820)"
    by (rule fixture_server_valid [OF world_fixtures [OF assms]])
qed (simp add: nexus_def spec_defs test_endpoint_texts del: show_sock.simps)

definition onboard :: "('k, fake) deps \<Rightarrow> 'k \<Rightarrow> fake daemon" where
  "onboard dp k = stored dp \<lparr>servers = [nexus (dep_dg dp) k]\<rparr>
     \<lparr>d_cfg = config_default, d_wg = fake_default, d_last_connect = None, d_disk = empty_fs\<rparr>"

lemma onboarded_iff:
  assumes "test_world dp ev kp ko"
  shows "onboarded dp ev P \<longleftrightarrow> P (onboard dp (env_fresh ev))"
proof -
  have "env_faults ev = no_faults" using assms by (simp add: test_world_def)
  moreover have "trim (spec_name (test_spec ''nexus'')) \<noteq> []" by (simp add: test_spec_def)
  ultimately show ?thesis
    by (simp add: onboarded_def loaded_fresh answer_add [OF assms _ _ nexus_added(2) [OF assms]]
        nexus_added(1) [OF assms] onboard_def upsert_server_def config_default_def Let_def)
qed

lemma onboard_fields [simp]:
  "d_cfg (onboard dp k) = \<lparr>servers = [nexus (dep_dg dp) k]\<rparr>" "d_wg (onboard dp k) = fake_default"
  "d_last_connect (onboard dp k) = None"
  by (simp_all add: onboard_def)

lemma a_fresh_daemon_has_no_servers_passes:
  "test_world dp ev kp ko \<Longrightarrow> a_fresh_daemon_has_no_servers dp ev"
  by (simp add: a_fresh_daemon_has_no_servers_def loaded_fresh listed_def answer_list fake_reads
      config_default_def)

lemma add_server_caches_the_resolved_endpoint_passes:
  "test_world dp ev kp ko \<Longrightarrow> add_server_caches_the_resolved_endpoint dp ev"
  by (simp add: add_server_caches_the_resolved_endpoint_def onboarded_iff first_server_def nexus_def)

lemma answer_add_fixture:
  assumes "test_world dp ev kp ko" "env_faults e = no_faults" "trim (spec_name spec) \<noteq> []"
    "fixture_server (dep_dg dp) k (added_server dp e spec) a"
  shows "answer dp e (ReqAddServer spec) d P \<longleftrightarrow>
    (let d' = stored dp (snd (upsert_server (with_endpoint (added_server dp e spec) a) (d_cfg d))) d
     in P (RespServers (fst (list_servers dp e d'))) d')"
  by (rule answer_add [OF assms(1-3) fixture_server_valid [OF world_fixtures [OF assms(1)] assms(4)]])

lemma answer_edit_fixture:
  assumes "test_world dp ev kp ko" "env_faults e = no_faults" "trim (spec_name spec) = name" "name \<noteq> []"
    "find_server (d_cfg d) name = Some old" "sc_private_key old = key_to_string (dep_dg dp) k"
    "Option.bind (fake_live (d_wg d)) li_public_key
      \<noteq> Some (key_to_string (dep_dg dp) (key_public_key (dep_dg dp) k))"
    "fixture_server (dep_dg dp) k' (edited_server spec old) a"
  shows "answer dp e (ReqEditServer spec) d P \<longleftrightarrow>
    (let d' = stored dp (snd (upsert_server (with_endpoint (edited_server spec old) a) (d_cfg d))) d
     in P (RespServers (fst (list_servers dp e d'))) d')"
  using fixture_own_key [OF world_fixtures [OF assms(1)]] assms(6)
  by (intro answer_edit [OF assms(1-5) _ assms(7)]
      fixture_server_valid [OF world_fixtures [OF assms(1)] assms(8)]) simp

lemma answer_remove_unknown:
  "remove_server name (d_cfg d) = (False, c) \<Longrightarrow>
   answer dp e (ReqRemoveServer name) d P
     \<longleftrightarrow> P (RespError (''unknown server '' @ quoted name)) (d\<lparr>d_cfg := c\<rparr>)"
  by (simp add: answer_def remove_from_def reply_servers_def Let_def)

lemma answer_remove:
  assumes "test_world dp e kp ko" "remove_server name (d_cfg d) = (True, c)"
  shows "answer dp e (ReqRemoveServer name) d P \<longleftrightarrow>
    P (RespServers (fst (list_servers dp e (stored dp c d)))) (stored dp c d)"
  using persist_stored [OF assms(1), where d = d and c = c] assms(2)
  by (simp add: answer_def remove_from_def reply_servers_def Let_def fake_reads(1) [OF assms(1)])

lemma answer_switch_fixture:
  assumes "test_world dp ev kp ko" "find_server (d_cfg d) name = Some s" "fk_fail_with (d_wg d) = None"
    "sc_private_key s = key_to_string (dep_dg dp) k" "parse_sock (sc_endpoint s) = Some a"
    "sc_resolved_endpoint s = Some (show_sock a)"
  shows "answer dp e (ReqSwitchServer name) d P \<longleftrightarrow>
    P (RespSwitched name) (mark_connecting e (d\<lparr>d_wg := (d_wg d)\<lparr>
      fk_calls := fk_calls (d_wg d) @ [''switch:'' @ sc_name s],
      fk_last_switch_addresses := sc_addresses s,
      fk_live_pubkey := Some (key_to_string (dep_dg dp) (key_public_key (dep_dg dp) k)),
      fk_live_peers := Some [\<lparr>fp_public_key = sc_public_key s, fp_last_handshake = None\<rparr>]\<rparr>\<rparr>))"
proof -
  have "public_key (dep_dg dp) (sc_private_key s)
      = Inr (key_to_string (dep_dg dp) (key_public_key (dep_dg dp) k))"
    using fixture_own_key [OF world_fixtures [OF assms(1)]] assms(4) by simp
  from answer_switch [OF assms(1-3) this assms(5)] show ?thesis
    using assms(2,6) by (simp add: switched_def mark_connecting_def Let_def)
qed

text \<open>The list entry of a server whose key parses.\<close>

lemma entry_of_fixture:
  assumes "crate_fixtures dg kp ko" "sc_private_key s = key_to_string dg k"
  shows "list_entry dg now c live s =
    (let own = key_to_string dg (key_public_key dg k);
         active = (Option.bind live li_public_key = Some own)
     in \<lparr>info_name = sc_name s, info_endpoint = sc_endpoint s, info_addresses = sc_addresses s,
         info_public_key = own, info_active = active,
         info_state = (if active then Some (derive_state (Option.bind (Option.bind live (\<lambda>l.
             find (\<lambda>p. lp_public_key p = sc_public_key s) (li_peers l))) (handshake_age now)) c)
           else None)\<rparr>)"
  using fixture_own_key [OF assms(1), of k] assms(2)
  by (simp add: list_entry_def info_def Let_def)

lemma nexus_fields [simp]:
  "sc_name (nexus dg k) = ''nexus''" "sc_private_key (nexus dg k) = key_to_string dg k"
  "sc_public_key (nexus dg k) = peer_key_text" "sc_endpoint (nexus dg k) = ''198.51.100.10:51820''"
  "sc_resolved_endpoint (nexus dg k) = Some ''198.51.100.10:51820''"
  "sc_addresses (nexus dg k) = [''10.0.0.2/24'']" "sc_preshared_key (nexus dg k) = None"
  by (simp_all add: nexus_def)

lemma fake_default_fields [simp]:
  "fk_calls fake_default = []" "fk_fail_with fake_default = None" "fake_live fake_default = None"
  by (simp_all add: fake_default_def fake_live_def)

text \<open>The onboarded daemon after a switch to \<open>nexus\<close>.\<close>

definition nexus_up :: "('k, fake) deps \<Rightarrow> 'k env \<Rightarrow> fake daemon" where
  "nexus_up dp ev = mark_connecting ev ((onboard dp (env_fresh ev))\<lparr>d_wg :=
     fake_default\<lparr>fk_calls := [''switch:nexus''], fk_last_switch_addresses := [''10.0.0.2/24''],
       fk_live_pubkey := Some (key_to_string (dep_dg dp) (key_public_key (dep_dg dp) (env_fresh ev))),
       fk_live_peers := Some [\<lparr>fp_public_key = peer_key_text, fp_last_handshake = None\<rparr>]\<rparr>\<rparr>)"

lemma nexus_switched:
  assumes "test_world dp ev kp ko"
  shows "answer dp ev (ReqSwitchServer ''nexus'') (onboard dp (env_fresh ev)) P
    \<longleftrightarrow> P (RespSwitched ''nexus'') (nexus_up dp ev)"
proof -
  have "find_server (d_cfg (onboard dp (env_fresh ev))) ''nexus'' = Some (nexus (dep_dg dp) (env_fresh ev))"
    by (simp add: find_server_def)
  from answer_switch_fixture [OF assms this, of "env_fresh ev" "SockV4 0xC633640A 51820" ev P] show ?thesis
    by (simp add: test_endpoints test_endpoint_texts nexus_up_def del: show_sock.simps)
qed

lemma nexus_up_fields [simp]:
  "d_cfg (nexus_up dp ev) = \<lparr>servers = [nexus (dep_dg dp) (env_fresh ev)]\<rparr>"
  "d_last_connect (nexus_up dp ev) = Some (env_instant ev)"
  "fk_calls (d_wg (nexus_up dp ev)) = [''switch:nexus'']"
  "fk_fail_with (d_wg (nexus_up dp ev)) = None"
  "fk_live_pubkey (d_wg (nexus_up dp ev))
     = Some (key_to_string (dep_dg dp) (key_public_key (dep_dg dp) (env_fresh ev)))"
  "fk_live_peers (d_wg (nexus_up dp ev)) = Some [\<lparr>fp_public_key = peer_key_text, fp_last_handshake = None\<rparr>]"
  by (simp_all add: nexus_up_def mark_connecting_def fake_default_def)

lemmas reading_defs = listed_def answers_status_def entry_named_def first_peer_def answer_list answer_status
  fake_reads fake_live_def is_connecting_def connecting_window_def second_def handshake_age_def
  derive_state_def peer_status_of_def stale_after_secs_def

lemmas entry_defs = entry_of_fixture [OF world_fixtures] Let_def

lemma switching_marks_the_server_active_and_reports_connecting_passes:
  assumes "test_world dp ev kp ko"
  shows "switching_marks_the_server_active_and_reports_connecting dp ev"
  using assms
  by (simp add: switching_marks_the_server_active_and_reports_connecting_def onboarded_iff nexus_switched)
    (simp add: reading_defs entry_defs)

text \<open>\<open>SystemTime::now()\<close> is after the epoch.\<close>

lemma the_active_server_lists_alive_once_a_handshake_lands_passes:
  assumes "test_world dp ev kp ko" "env_now ev \<noteq> 0"
  shows "the_active_server_lists_alive_once_a_handshake_lands dp ev"
  using assms
  by (simp add: the_active_server_lists_alive_once_a_handshake_lands_def onboarded_iff nexus_switched
      set_live_def just_seen_def) (simp add: reading_defs entry_defs)

lemma a_recent_handshake_reads_as_alive_passes:
  assumes "test_world dp ev kp ko" "env_now ev \<noteq> 0"
  shows "a_recent_handshake_reads_as_alive dp ev"
  using assms
  by (simp add: a_recent_handshake_reads_as_alive_def onboarded_iff nexus_switched set_live_def just_seen_def)
    (simp add: reading_defs)

lemma epoch_handshake_is_treated_as_never_handshaked_passes:
  assumes "test_world dp ev kp ko"
  shows "epoch_handshake_is_treated_as_never_handshaked dp ev"
  using assms
  by (simp add: epoch_handshake_is_treated_as_never_handshaked_def onboarded_iff nexus_switched set_live_def)
    (simp add: reading_defs)

lemma an_inactive_server_lists_no_state_passes:
  assumes "test_world dp ev kp ko"
  shows "an_inactive_server_lists_no_state dp ev"
  using assms
  by (simp add: an_inactive_server_lists_no_state_def onboarded_iff) (simp add: reading_defs entry_defs fake_default_def)

lemma state_derivation_covers_every_case_passes: state_derivation_covers_every_case
  by (simp add: state_derivation_covers_every_case_def derive_state_def stale_after_secs_def)

lemma disconnect_brings_the_interface_down_passes:
  assumes "test_world dp ev kp ko"
  shows "disconnect_brings_the_interface_down dp ev"
proof -
  have d: "answer dp ev ReqDisconnect (nexus_up dp ev) P \<longleftrightarrow>
      P RespDisconnected (clear_connecting ((nexus_up dp ev)\<lparr>d_wg := (d_wg (nexus_up dp ev))\<lparr>
        fk_calls := [''switch:nexus'', ''disconnect''], fk_live_peers := None, fk_live_pubkey := None\<rparr>\<rparr>))" for P
    using assms by (simp add: answer_def test_world_def on_wg_def fake_wireguard_def fake_disconnect_def
        check_fail_def bindS_def fake_record_def)
  show ?thesis
    using assms
    by (simp add: disconnect_brings_the_interface_down_def onboarded_iff nexus_switched d)
      (simp add: reading_defs clear_connecting_def)
qed

lemma a_failed_switch_surfaces_the_backend_error_passes:
  assumes "test_world dp ev kp ko"
  shows "a_failed_switch_surfaces_the_backend_error dp ev"
  using assms
  by (simp add: a_failed_switch_surfaces_the_backend_error_def onboarded_iff answers_error_def answer_def
      switch_server_def find_server_def on_wg_def)
    (simp add: test_world_def fake_wireguard_def fake_switch_def check_fail_def bindS_def fake_record_def)

lemma the_connecting_window_expires_to_never_passes:
  assumes "test_world dp ev kp ko"
  shows "the_connecting_window_expires_to_never dp ev"
  using assms
  by (simp add: the_connecting_window_expires_to_never_def onboarded_iff nexus_switched checked_sub_def)
    (simp add: reading_defs)

lemma switching_when_no_server_exists_is_an_unknown_server_error_passes:
  "switching_when_no_server_exists_is_an_unknown_server_error dp ev"
  by (simp add: switching_when_no_server_exists_is_an_unknown_server_error_def loaded_fresh
      answers_error_def answer_def switch_server_def find_server_def config_default_def)

lemma remove_unknown_server_errors_passes:
  assumes "test_world dp ev kp ko"
  shows "remove_unknown_server_errors dp ev"
proof -
  have "remove_server ''ghost'' (d_cfg (onboard dp (env_fresh ev)))
      = (False, d_cfg (onboard dp (env_fresh ev)))"
    by (simp add: remove_server_def Let_def)
  note r = answer_remove_unknown [OF this, of dp ev]
  show ?thesis
    using assms by (simp add: remove_unknown_server_errors_def onboarded_iff answers_error_def r quoted_def)
qed

lemma get_server_unknown_errors_passes:
  assumes "test_world dp ev kp ko"
  shows "get_server_unknown_errors dp ev"
  using assms
  by (simp add: get_server_unknown_errors_def onboarded_iff answers_error_def answer_def get_server_def
      find_server_def)

lemma get_server_returns_detail_for_a_known_server_passes:
  assumes "test_world dp ev kp ko"
  shows "get_server_returns_detail_for_a_known_server dp ev"
  using assms
  by (simp add: get_server_returns_detail_for_a_known_server_def onboarded_iff detail_of_def answer_def
      get_server_def find_server_def detail_def nexus_def)

lemma add_server_rejects_empty_name_passes:
  assumes "test_world dp ev kp ko"
  shows "add_server_rejects_empty_name dp ev"
  using assms
  by (simp add: add_server_rejects_empty_name_def onboarded_iff answers_error_def answer_def
      add_server_def test_spec_def reply_servers_def)

lemma edit_of_an_unknown_server_errors_and_persists_nothing_passes:
  "edit_of_an_unknown_server_errors_and_persists_nothing dp ev"
  by (simp add: edit_of_an_unknown_server_errors_and_persists_nothing_def loaded_fresh answers_error_def
      answer_def edit_server_def test_spec_def find_server_def config_default_def bindS_def
      reply_servers_def Let_def)

lemma add_server_generates_a_key_and_exposes_only_the_derived_public_one_passes:
  assumes "test_world dp ev kp ko" "generated_ok (dep_dg dp) (env_fresh ev)"
  shows "add_server_generates_a_key_and_exposes_only_the_derived_public_one dp ev"
proof -
  have "key_text_ok (dep_dg dp)" using world_fixtures [OF assms(1)] by (simp add: crate_fixtures_def)
  then have "key_to_string (dep_dg dp) (key_public_key (dep_dg dp) (env_fresh ev))
      \<noteq> key_to_string (dep_dg dp) (env_fresh ev)"
    using assms(2) key_text_inj [of "dep_dg dp" "key_public_key (dep_dg dp) (env_fresh ev)" "env_fresh ev"]
    by (auto simp: generated_ok_def)
  moreover have "add_server_generates_a_key_and_exposes_only_the_derived_public_one dp ev \<longleftrightarrow>
      onboarded dp ev (\<lambda>d. first_server d (\<lambda>s. unwraps (public_key (dep_dg dp) (sc_private_key s)) (\<lambda>derived.
         listed dp ev d (\<lambda>l. entry_named ''nexus'' l (\<lambda>i.
           info_public_key i = derived \<and> info_public_key i \<noteq> sc_private_key s)))))"
    by (simp add: add_server_generates_a_key_and_exposes_only_the_derived_public_one_def onboarded_def)
  ultimately show ?thesis
    using assms(1) fixture_own_key [OF world_fixtures [OF assms(1)]]
    by (simp add: onboarded_iff first_server_def) (simp add: reading_defs entry_defs)
qed

lemma a_server_with_a_corrupt_stored_key_is_still_listed_and_removable_passes:
  assumes "test_world dp ev kp ko"
  shows "a_server_with_a_corrupt_stored_key_is_still_listed_and_removable dp ev"
proof -
  obtain m where m: "key_from_str (dep_dg dp) ''corrupted'' = Inl m"
    using fixture_bad_key [OF world_fixtures [OF assms]] by (auto simp: bad_key_texts_def)
  have t: "trim ''corrupted'' = ''corrupted''" by (simp add: trim_graphic graphic_def)
  let ?s = "(nexus (dep_dg dp) (env_fresh ev))\<lparr>sc_private_key := ''corrupted''\<rparr>"
  have i: "list_entry (dep_dg dp) now c None ?s
      = unavailable_info ?s (''invalid private key: '' @ m)" for now c
    by (simp add: list_entry_def info_def public_key_def t m unavailable_info_def)
  let ?d = "(onboard dp (env_fresh ev))\<lparr>d_cfg := \<lparr>servers = [?s]\<rparr>\<rparr>"
  have "remove_server ''nexus'' (d_cfg ?d) = (True, \<lparr>servers = []\<rparr>)"
    by (simp add: remove_server_def Let_def)
  note r = answer_remove [OF assms this]
  have l: "answers_servers dp ev (ReqListServers None) ?d P
      \<longleftrightarrow> P [unavailable_info ?s (''invalid private key: '' @ m)] ?d" for P
    using assms by (simp add: answer_list fake_reads i)
  have e: "edit_first (\<lambda>s. s\<lparr>sc_private_key := ''corrupted''\<rparr>) (onboard dp (env_fresh ev)) = ?d"
    by (simp add: edit_first_def)
  have "answers_servers dp ev (ReqRemoveServer ''nexus'') ?d (\<lambda>left d. left = [])"
    using assms by (simp add: answers_servers_def r fake_reads)
  moreover have "str_contains (info_public_key (unavailable_info ?s (''invalid private key: '' @ m))) ''unavailable''"
    by (simp add: unavailable_info_def)
  ultimately show ?thesis
    unfolding a_server_with_a_corrupt_stored_key_is_still_listed_and_removable_def onboarded_iff [OF assms] e Let_def l
    by (simp add: unavailable_info_def)
qed


subsection \<open>Adding and editing\<close>

text \<open>A specification the fixtures accept, and the entry it becomes.\<close>

definition fixture_spec :: "'k defguard \<Rightarrow> server_spec \<Rightarrow> socket_addr \<Rightarrow> bool" where
  "fixture_spec dg spec a \<longleftrightarrow>
     trim (spec_name spec) \<noteq> [] \<and> spec_public_key spec \<in> {peer_key_text, other_key_text}
     \<and> parse_sock (trim (spec_endpoint spec)) = Some a \<and> spec_allowed_ips spec = [''0.0.0.0/0'']
     \<and> spec_dns spec = [] \<and> spec_addresses spec \<noteq> []
     \<and> list_all (\<lambda>t. t \<in> fst ` set fixture_prefixes) (spec_addresses spec)
     \<and> (spec_preshared_key spec = None \<or> (\<exists>psk. spec_preshared_key spec = Some (key_to_string dg psk)))"

definition tunnel :: "server_spec \<Rightarrow> socket_addr \<Rightarrow> string \<Rightarrow> string option \<Rightarrow> server_config" where
  "tunnel spec a priv psk =
     (server_of_spec spec (trim (spec_name spec)) priv psk)\<lparr>sc_resolved_endpoint := Some (show_sock a)\<rparr>"

lemma fixture_spec_server:
  assumes "fixture_spec dg spec a" "psk = None \<or> (\<exists>k. psk = Some (key_to_string dg k))"
  shows "fixture_server dg k (server_of_spec spec name (key_to_string dg k) psk) a"
  using assms by (auto simp: fixture_spec_def fixture_server_def server_of_spec_def)

lemma world_faults: "test_world dp ev kp ko \<Longrightarrow> env_faults ev = no_faults"
  by (simp add: test_world_def)

lemma key_supplied:
  assumes "crate_fixtures dg kp ko"
  shows "supplied (Some (key_to_string dg k)) = Some (key_to_string dg k)"
proof -
  have "key_to_string dg k \<noteq> []" using assms by (simp add: crate_fixtures_def key_text_ok_def)
  with fixture_keys(6) [OF assms] show ?thesis by (simp add: supplied_def)
qed

lemma answer_add_spec:
  assumes "test_world dp ev kp ko" "env_faults e = no_faults" "fixture_spec (dep_dg dp) spec a"
    "case spec_private_key spec of None \<Rightarrow> k = env_fresh e | Some t \<Rightarrow> t = key_to_string (dep_dg dp) k"
  shows "answer dp e (ReqAddServer spec) d P \<longleftrightarrow>
    (let d' = stored dp (snd (upsert_server
        (tunnel spec a (key_to_string (dep_dg dp) k) (spec_preshared_key spec)) (d_cfg d))) d
     in P (RespServers (fst (list_servers dp e d'))) d')"
proof -
  have s: "added_server dp e spec
      = server_of_spec spec (trim (spec_name spec)) (key_to_string (dep_dg dp) k) (spec_preshared_key spec)"
    using assms(4) key_supplied [OF world_fixtures [OF assms(1)]]
    by (cases "spec_private_key spec") (simp_all add: added_server_def supplied_def generate_private_key_def)
  have "spec_preshared_key spec = None \<or> (\<exists>k. spec_preshared_key spec = Some (key_to_string (dep_dg dp) k))"
    using assms(3) by (simp add: fixture_spec_def)
  note f = fixture_spec_server [OF assms(3) this]
  have n: "trim (spec_name spec) \<noteq> []" using assms(3) by (simp add: fixture_spec_def)
  show ?thesis
    using answer_add_fixture [OF assms(1,2) n, of k a d P] f unfolding s
    by (simp add: tunnel_def with_endpoint_def)
qed

text \<open>What an edit keeps of the old entry.\<close>

definition kept :: "string option \<Rightarrow> string option \<Rightarrow> string option" where
  "kept new old = (case new of None \<Rightarrow> old | Some t \<Rightarrow> Some t)"

lemma answer_edit_spec:
  assumes "test_world dp ev kp ko" "env_faults e = no_faults" "fixture_spec (dep_dg dp) spec a"
    "find_server (d_cfg d) (trim (spec_name spec)) = Some old"
    "sc_private_key old = key_to_string (dep_dg dp) k"
    "sc_preshared_key old = None \<or> (\<exists>psk. sc_preshared_key old = Some (key_to_string (dep_dg dp) psk))"
    "Option.bind (fake_live (d_wg d)) li_public_key
      \<noteq> Some (key_to_string (dep_dg dp) (key_public_key (dep_dg dp) k))"
    "spec_private_key spec = None \<and> k' = k \<or> spec_private_key spec = Some (key_to_string (dep_dg dp) k')"
  shows "answer dp e (ReqEditServer spec) d P \<longleftrightarrow>
    (let d' = stored dp (snd (upsert_server (tunnel spec a (key_to_string (dep_dg dp) k')
        (kept (spec_preshared_key spec) (sc_preshared_key old))) (d_cfg d))) d
     in P (RespServers (fst (list_servers dp e d'))) d')"
proof -
  note supp = key_supplied [OF world_fixtures [OF assms(1)]]
  let ?psk = "kept (spec_preshared_key spec) (sc_preshared_key old)"
  have psk: "spec_preshared_key spec = None \<or> (\<exists>k. spec_preshared_key spec = Some (key_to_string (dep_dg dp) k))"
    using assms(3) by (simp add: fixture_spec_def)
  have s: "edited_server spec old
      = server_of_spec spec (trim (spec_name spec)) (key_to_string (dep_dg dp) k') ?psk"
    using assms(5,8) psk supp by (auto simp: edited_server_def kept_def supplied_def [of None])
  have "?psk = None \<or> (\<exists>k. ?psk = Some (key_to_string (dep_dg dp) k))"
    using psk assms(6) by (auto simp: kept_def)
  note f = fixture_spec_server [OF assms(3) this]
  have n: "trim (spec_name spec) \<noteq> []" using assms(3) by (simp add: fixture_spec_def)
  show ?thesis
    using answer_edit_fixture [OF assms(1,2) refl n assms(4,5,7), of k' a P] f unfolding s
    by (simp add: tunnel_def with_endpoint_def)
qed

lemmas fixture_spec_defs = fixture_spec_def test_spec_def edge_test_spec_def test_trims test_endpoints
  more_endpoints fixture_prefixes_def

lemma test_specs:
  "name \<in> {''nexus'', ''edge'', ''nexus-a'', ''nexus-b'', ''ds'', ''mullvad-nyc'', ''proton-ch''} \<Longrightarrow>
   fixture_spec dg (test_spec name) (SockV4 0xC633640A 51820)"
  by (auto simp: fixture_spec_defs)

end
