(* ===== verification/Daemon_Edit_Tests.thy ===== *)
theory Daemon_Edit_Tests
  imports Daemon_Tests_Pass
begin

section \<open>The model passes the tests that add, edit and import\<close>

text \<open>
  The tests of the daemon that store more than one entry or change one: each request is rewritten to
  the daemon it leaves behind, and the assertions are read off it.
\<close>

lemmas stored_defs = first_server_def upsert_server_def config_default_def Let_def tunnel_def
  server_of_spec_def test_spec_def edge_test_spec_def kept_def find_server_def

text \<open>The list, without the detour over the request.\<close>

lemma listed_iff:
  assumes "test_world dp ev kp ko"
  shows "listed dp e d P \<longleftrightarrow> P (map (list_entry (dep_dg dp) (env_now e) (is_connecting e d) (fake_live (d_wg d)))
      (servers (d_cfg d)))"
  by (simp add: listed_def answer_list [OF assms] fake_reads [OF assms])

subsection \<open>Adding\<close>

lemma add_server_adopts_a_supplied_private_key_passes:
  assumes "test_world dp ev kp ko"
  shows "add_server_adopts_a_supplied_private_key dp ev k'"
proof -
  let ?spec = "(test_spec ''nexus'')\<lparr>spec_private_key := Some (key_to_string (dep_dg dp) k')\<rparr>"
  have "fixture_spec (dep_dg dp) ?spec (SockV4 0xC633640A 51820)" by (simp add: fixture_spec_defs)
  note a = answer_add_spec [OF assms world_faults [OF assms] this, of k']
  show ?thesis
    by (simp add: add_server_adopts_a_supplied_private_key_def loaded_fresh generate_private_key_def Let_def a)
      (simp add: stored_defs)
qed

text \<open>A refused specification leaves the daemon as it is.\<close>

lemma add_refused:
  assumes "validate_server (dep_dg dp) (env_resolve e) (added_server dp e spec) = Inl m"
    "trim (spec_name spec) \<noteq> []" "P m d"
  shows "answers_error dp e (ReqAddServer spec) d P"
  using answer_add_bad [OF assms(2,1)] assms(3) by (simp add: answers_error_def)

lemma add_server_rejects_a_bad_address_passes:
  assumes "test_world dp ev kp ko"
  shows "add_server_rejects_a_bad_address dp ev"
proof -
  note x = world_fixtures [OF assms]
  let ?spec = "(test_spec ''broken'')\<lparr>spec_addresses := [''not-a-cidr'']\<rparr>"
  obtain m where m: "mask_from_str (dep_dg dp) ''not-a-cidr'' = Inl m"
    using fixture_bad_prefix [OF x] by auto
  obtain e where "validate_server (dep_dg dp) (env_resolve ev) (added_server dp ev ?spec) = Inl e"
    "str_contains e ''address''"
    using fixture_keys [OF x] valid_prefixes [OF x] m
    by (simp add: validation_defs spec_defs test_trims test_endpoints fixture_trims trim_graphic graphic_def
        quoted_def)
  then show ?thesis
    using assms by (simp add: add_server_rejects_a_bad_address_def onboarded_iff add_refused test_spec_def)
qed

lemma add_server_rejects_a_bad_peer_key_passes:
  assumes "test_world dp ev kp ko"
  shows "add_server_rejects_a_bad_peer_key dp ev"
proof -
  note x = world_fixtures [OF assms]
  let ?spec = "(test_spec ''broken'')\<lparr>spec_public_key := ''not-a-key''\<rparr>"
  obtain m where m: "key_from_str (dep_dg dp) ''not-a-key'' = Inl m"
    using fixture_bad_key [OF x] by (auto simp: bad_key_texts_def)
  obtain e where "validate_server (dep_dg dp) (env_resolve ev) (added_server dp ev ?spec) = Inl e"
    "str_contains e ''public_key''"
    using fixture_keys [OF x] m
    by (simp add: validation_defs spec_defs test_trims test_endpoints trim_graphic graphic_def quoted_def)
  then show ?thesis
    using assms by (simp add: add_server_rejects_a_bad_peer_key_def onboarded_iff add_refused test_spec_def)
qed

lemma add_server_rejects_a_bad_supplied_private_key_passes:
  assumes "test_world dp ev kp ko"
  shows "add_server_rejects_a_bad_supplied_private_key dp ev"
proof -
  note x = world_fixtures [OF assms]
  let ?spec = "(test_spec ''broken'')\<lparr>spec_private_key := Some ''not-a-key''\<rparr>"
  obtain m where m: "key_from_str (dep_dg dp) ''not-a-key'' = Inl m"
    using fixture_bad_key [OF x] by (auto simp: bad_key_texts_def)
  obtain e where "validate_server (dep_dg dp) (env_resolve ev) (added_server dp ev ?spec) = Inl e"
    "str_contains e ''private_key''"
    using m by (simp add: validation_defs spec_defs trim_graphic graphic_def quoted_def)
  then show ?thesis
    by (simp add: add_server_rejects_a_bad_supplied_private_key_def loaded_fresh add_refused test_spec_def
        config_default_def)
qed

text \<open>A second server after \<open>nexus\<close>, with a key of its own.\<close>

lemma second_added:
  assumes "test_world dp ev kp ko" "fixture_spec (dep_dg dp) spec a" "spec_private_key spec = None"
  shows "answer dp (ev\<lparr>env_fresh := k'\<rparr>) (ReqAddServer spec) d P \<longleftrightarrow>
    (let d' = stored dp (snd (upsert_server
        (tunnel spec a (key_to_string (dep_dg dp) k') (spec_preshared_key spec)) (d_cfg d))) d
     in P (RespServers (fst (list_servers dp (ev\<lparr>env_fresh := k'\<rparr>) d'))) d')"
  using answer_add_spec [OF assms(1) _ assms(2), of "ev\<lparr>env_fresh := k'\<rparr>"] world_faults [OF assms(1)] assms(3)
  by simp

lemma first_added:
  assumes "test_world dp ev kp ko" "fixture_spec (dep_dg dp) spec a" "spec_private_key spec = None"
  shows "answer dp ev (ReqAddServer spec) d P \<longleftrightarrow>
    (let d' = stored dp (snd (upsert_server
        (tunnel spec a (key_to_string (dep_dg dp) (env_fresh ev)) (spec_preshared_key spec)) (d_cfg d))) d
     in P (RespServers (fst (list_servers dp ev d'))) d')"
  using answer_add_spec [OF assms(1) world_faults [OF assms(1)] assms(2)] assms(3) by simp

lemma add_and_remove_servers_round_trip_through_the_list_passes:
  assumes "test_world dp ev kp ko"
  shows "add_and_remove_servers_round_trip_through_the_list dp ev k'"
proof -
  let ?edge = "tunnel (test_spec ''edge'') (SockV4 0xC633640A 51820) (key_to_string (dep_dg dp) k') None"
  let ?both = "\<lparr>servers = [nexus (dep_dg dp) (env_fresh ev), ?edge]\<rparr>"
  let ?d = "stored dp ?both (onboard dp (env_fresh ev))"
  have n: "sc_name ?edge = ''edge''" "sc_private_key ?edge = key_to_string (dep_dg dp) k'"
    by (simp_all add: tunnel_def server_of_spec_def test_spec_def)
  have u: "snd (upsert_server ?edge \<lparr>servers = [nexus (dep_dg dp) (env_fresh ev)]\<rparr>) = ?both"
    by (simp add: upsert_server_def n)
  have a: "answer dp (ev\<lparr>env_fresh := k'\<rparr>) (ReqAddServer (test_spec ''edge'')) (onboard dp (env_fresh ev)) P
      \<longleftrightarrow> P (RespServers (fst (list_servers dp (ev\<lparr>env_fresh := k'\<rparr>) ?d))) ?d" for P
    using second_added [OF assms test_specs, of "''edge''" k' "onboard dp (env_fresh ev)" P] u
    by (simp add: test_spec_def Let_def)
  have "remove_server ''edge'' (d_cfg ?d) = (True, \<lparr>servers = [nexus (dep_dg dp) (env_fresh ev)]\<rparr>)"
    by (simp add: remove_server_def Let_def n)
  note r = answer_remove [OF assms this]
  show ?thesis
    unfolding add_and_remove_servers_round_trip_through_the_list_def onboarded_iff [OF assms] a r
      listed_iff [OF assms]
    by (simp add: n)
qed

text \<open>The entry of the tests under another name, or with another endpoint, addresses or key.\<close>

lemma tunnel_fields [simp]:
  "sc_name (tunnel spec a priv psk) = trim (spec_name spec)"
  "sc_private_key (tunnel spec a priv psk) = priv" "sc_preshared_key (tunnel spec a priv psk) = psk"
  "sc_public_key (tunnel spec a priv psk) = spec_public_key spec"
  "sc_endpoint (tunnel spec a priv psk) = spec_endpoint spec"
  "sc_addresses (tunnel spec a priv psk) = spec_addresses spec"
  "sc_resolved_endpoint (tunnel spec a priv psk) = Some (show_sock a)"
  by (simp_all add: tunnel_def server_of_spec_def)

lemma test_spec_fields [simp]:
  "spec_name (test_spec name) = name" "spec_private_key (test_spec name) = None"
  "spec_preshared_key (test_spec name) = None" "spec_public_key (test_spec name) = peer_key_text"
  "spec_endpoint (test_spec name) = ''198.51.100.10:51820''"
  "spec_addresses (test_spec name) = [''10.0.0.2/24'']"
  by (simp_all add: test_spec_def)

lemma get_server_reports_a_stored_preshared_key_as_a_flag_passes:
  assumes "test_world dp ev kp ko"
  shows "get_server_reports_a_stored_preshared_key_as_a_flag dp ev k'"
proof -
  let ?spec = "(test_spec ''nexus'')\<lparr>spec_preshared_key := Some (key_to_string (dep_dg dp) k')\<rparr>"
  have "fixture_spec (dep_dg dp) ?spec (SockV4 0xC633640A 51820)" by (auto simp: fixture_spec_defs)
  note a = first_added [OF assms this]
  show ?thesis
    by (simp add: get_server_reports_a_stored_preshared_key_as_a_flag_def loaded_fresh
        generate_private_key_def a Let_def)
      (simp add: detail_of_def answer_def get_server_def find_server_def upsert_server_def config_default_def
        detail_def)
qed

subsection \<open>Editing\<close>

lemma fixture_spec_endpoint:
  "fixture_spec dg ((test_spec ''nexus'')\<lparr>spec_endpoint := ''198.51.100.20:51820''\<rparr>) (SockV4 0xC6336414 51820)"
  by (simp add: fixture_spec_defs)

text \<open>An edit of the onboarded server.\<close>

lemma nexus_edited:
  assumes "test_world dp ev kp ko" "fixture_spec (dep_dg dp) spec a" "spec_name spec = ''nexus''"
    "spec_private_key spec = None \<and> k' = env_fresh ev
      \<or> spec_private_key spec = Some (key_to_string (dep_dg dp) k')"
  shows "answer dp ev (ReqEditServer spec) (onboard dp (env_fresh ev)) P \<longleftrightarrow>
    (let d' = stored dp \<lparr>servers = [tunnel spec a (key_to_string (dep_dg dp) k') (spec_preshared_key spec)]\<rparr>
           (onboard dp (env_fresh ev))
     in P (RespServers (fst (list_servers dp ev d'))) d')"
proof -
  have f: "find_server (d_cfg (onboard dp (env_fresh ev))) (trim (spec_name spec))
      = Some (nexus (dep_dg dp) (env_fresh ev))"
    by (simp add: assms(3) find_server_def)
  have p: "kept (spec_preshared_key spec) None = spec_preshared_key spec"
    by (simp add: kept_def split: option.split)
  show ?thesis
    using answer_edit_spec [OF assms(1) world_faults [OF assms(1)] assms(2) f, of "env_fresh ev" k' P] assms(3,4)
    by (simp add: p upsert_server_def)
qed

lemma edit_refreshes_the_cached_resolved_endpoint_passes:
  assumes "test_world dp ev kp ko"
  shows "edit_refreshes_the_cached_resolved_endpoint dp ev"
  using nexus_edited [OF assms fixture_spec_endpoint, of "env_fresh ev"] assms
  by (simp add: edit_refreshes_the_cached_resolved_endpoint_def onboarded_iff Let_def first_server_def
      more_endpoint_texts del: show_sock.simps)

lemma edit_adopts_a_supplied_private_key_passes:
  assumes "test_world dp ev kp ko"
  shows "edit_adopts_a_supplied_private_key dp ev k'"
proof -
  let ?spec = "(test_spec ''nexus'')\<lparr>spec_private_key := Some (key_to_string (dep_dg dp) k')\<rparr>"
  have "fixture_spec (dep_dg dp) ?spec (SockV4 0xC633640A 51820)" by (simp add: fixture_spec_defs)
  from nexus_edited [OF assms this, of k'] show ?thesis
    using assms by (simp add: edit_adopts_a_supplied_private_key_def onboarded_iff Let_def
        generate_private_key_def first_server_def)
qed

lemma edit_adopts_a_supplied_preshared_key_passes:
  assumes "test_world dp ev kp ko"
  shows "edit_adopts_a_supplied_preshared_key dp ev k'"
proof -
  let ?spec = "(test_spec ''nexus'')\<lparr>spec_preshared_key := Some (key_to_string (dep_dg dp) k')\<rparr>"
  have "fixture_spec (dep_dg dp) ?spec (SockV4 0xC633640A 51820)" by (auto simp: fixture_spec_defs)
  from nexus_edited [OF assms this, of "env_fresh ev"] show ?thesis
    using assms by (simp add: edit_adopts_a_supplied_preshared_key_def onboarded_iff Let_def
        generate_private_key_def first_server_def)
qed

text \<open>The first server of a fresh daemon, and an edit of it that leaves both keys out.\<close>

abbreviation fresh_state :: "fake daemon" where
  "fresh_state \<equiv> \<lparr>d_cfg = config_default, d_wg = fake_default, d_last_connect = None, d_disk = empty_fs\<rparr>"

lemma fresh_added:
  assumes "test_world dp ev kp ko" "fixture_spec (dep_dg dp) spec a"
    "case spec_private_key spec of None \<Rightarrow> k = env_fresh ev | Some t \<Rightarrow> t = key_to_string (dep_dg dp) k"
  shows "answer dp ev (ReqAddServer spec) fresh_state P \<longleftrightarrow>
    (let d' = stored dp \<lparr>servers = [tunnel spec a (key_to_string (dep_dg dp) k) (spec_preshared_key spec)]\<rparr>
           fresh_state
     in P (RespServers (fst (list_servers dp ev d'))) d')"
  using answer_add_spec [OF assms(1) world_faults [OF assms(1)] assms(2,3), of fresh_state P]
  by (simp add: upsert_server_def config_default_def)

lemma keyless_edit:
  assumes "test_world dp ev kp ko" "fixture_spec (dep_dg dp) spec a" "fixture_spec (dep_dg dp) edit b"
    "case spec_private_key spec of None \<Rightarrow> k = env_fresh ev | Some t \<Rightarrow> t = key_to_string (dep_dg dp) k"
    "spec_name spec = ''nexus''" "spec_name edit = ''nexus''"
    "spec_private_key edit = None" "spec_preshared_key edit = None"
  shows "fresh_daemon dp (\<lambda>d. answer dp ev (ReqAddServer spec) d (\<lambda>_ d.
      answer dp ev (ReqEditServer edit) d P)) \<longleftrightarrow>
    (let d' = stored dp \<lparr>servers = [tunnel edit b (key_to_string (dep_dg dp) k) (spec_preshared_key spec)]\<rparr>
      (stored dp \<lparr>servers = [tunnel spec a (key_to_string (dep_dg dp) k) (spec_preshared_key spec)]\<rparr> fresh_state)
     in P (RespServers (fst (list_servers dp ev d'))) d')"
proof -
  let ?old = "tunnel spec a (key_to_string (dep_dg dp) k) (spec_preshared_key spec)"
  let ?d = "stored dp \<lparr>servers = [?old]\<rparr> fresh_state"
  have f: "find_server (d_cfg ?d) (trim (spec_name edit)) = Some ?old"
    by (simp add: find_server_def assms(5,6))
  have psk: "sc_preshared_key ?old = None
      \<or> (\<exists>psk. sc_preshared_key ?old = Some (key_to_string (dep_dg dp) psk))"
    using assms(2) by (simp add: fixture_spec_def)
  have "answer dp ev (ReqEditServer edit) ?d Q \<longleftrightarrow>
      (let d' = stored dp \<lparr>servers = [tunnel edit b (key_to_string (dep_dg dp) k) (spec_preshared_key spec)]\<rparr> ?d
       in Q (RespServers (fst (list_servers dp ev d'))) d')" for Q
    using answer_edit_spec [OF assms(1) world_faults [OF assms(1)] assms(3) f _ psk, of k k Q] assms(5-8)
    by (simp add: upsert_server_def kept_def)
  then show ?thesis
    using fresh_added [OF assms(1,2,4)] by (simp add: loaded_fresh Let_def)
qed

lemma edit_preserves_the_private_key_when_none_is_supplied_passes:
  assumes "test_world dp ev kp ko"
  shows "edit_preserves_the_private_key_when_none_is_supplied dp ev k'"
proof -
  let ?spec = "(test_spec ''nexus'')\<lparr>spec_private_key := Some (key_to_string (dep_dg dp) k')\<rparr>"
  let ?edit = "(test_spec ''nexus'')\<lparr>spec_private_key := None, spec_endpoint := ''198.51.100.20:51820''\<rparr>"
  have "fixture_spec (dep_dg dp) ?spec (SockV4 0xC633640A 51820)"
    "fixture_spec (dep_dg dp) ?edit (SockV4 0xC6336414 51820)" by (simp_all add: fixture_spec_defs)
  note e = keyless_edit [OF assms this]
  show ?thesis
    unfolding edit_preserves_the_private_key_when_none_is_supplied_def generate_private_key_def Let_def
      answers_servers_def
    by (subst e [of k']) (simp_all add: first_server_def Let_def)
qed

lemma edit_preserves_the_preshared_key_when_none_is_supplied_passes:
  assumes "test_world dp ev kp ko"
  shows "edit_preserves_the_preshared_key_when_none_is_supplied dp ev k'"
proof -
  let ?spec = "(test_spec ''nexus'')\<lparr>spec_preshared_key := Some (key_to_string (dep_dg dp) k')\<rparr>"
  let ?edit = "(test_spec ''nexus'')\<lparr>spec_preshared_key := None\<rparr>"
  have "fixture_spec (dep_dg dp) ?spec (SockV4 0xC633640A 51820)"
    "fixture_spec (dep_dg dp) ?edit (SockV4 0xC633640A 51820)" by (auto simp: fixture_spec_defs)
  note e = keyless_edit [OF assms this, where k = "env_fresh ev"]
  show ?thesis
    unfolding edit_preserves_the_preshared_key_when_none_is_supplied_def generate_private_key_def Let_def
    by (subst e) (simp_all add: first_server_def Let_def)
qed

lemma edit_refused:
  "edit_server dp e spec d = (Inl m, d') \<Longrightarrow> answers_error dp e (ReqEditServer spec) d P \<longleftrightarrow> P m d'"
  by (simp add: answers_error_def answer_def reply_servers_def)

lemma edit_rejects_a_bad_address_and_persists_nothing_passes:
  assumes "test_world dp ev kp ko"
  shows "edit_rejects_a_bad_address_and_persists_nothing dp ev"
proof -
  note x = world_fixtures [OF assms]
  let ?edit = "(test_spec ''nexus'')\<lparr>spec_addresses := [''not-a-cidr'']\<rparr>"
  let ?new = "edited_server ?edit (nexus (dep_dg dp) (env_fresh ev))"
  obtain m where m: "mask_from_str (dep_dg dp) ''not-a-cidr'' = Inl m"
    using fixture_bad_prefix [OF x] by auto
  obtain e where e: "validate_server (dep_dg dp) (env_resolve ev) ?new = Inl e" "str_contains e ''address''"
    using fixture_keys [OF x] valid_prefixes [OF x] m
    by (simp add: validation_defs spec_defs test_trims test_endpoints fixture_trims trim_graphic graphic_def
        quoted_def)
  have "edit_server dp ev ?edit (onboard dp (env_fresh ev))
      = store_server dp ev ?new (onboard dp (env_fresh ev))"
    using fake_reads(2) [OF assms] fixture_own_key [OF x, of "env_fresh ev"]
    by (simp add: edit_server_def bindS_def Let_def find_server_def edited_server_def)
  then have "edit_server dp ev ?edit (onboard dp (env_fresh ev)) = (Inl e, onboard dp (env_fresh ev))"
    by (simp add: store_server_def e(1))
  note r = edit_refused [OF this]
  show ?thesis
    using assms by (simp add: edit_rejects_a_bad_address_and_persists_nothing_def onboarded_iff r e(2)
        first_server_def)
qed

lemma edit_of_the_active_tunnel_is_rejected_passes:
  assumes "test_world dp ev kp ko"
  shows "edit_of_the_active_tunnel_is_rejected dp ev"
proof -
  have "edit_server dp ev ((test_spec ''nexus'')\<lparr>spec_endpoint := ''new.example.com:51820''\<rparr>) (nexus_up dp ev)
      = (Inl (''server '' @ quoted ''nexus'' @ '' is the active tunnel; disconnect or switch away before editing''),
        nexus_up dp ev)"
    using fake_reads(2) [OF assms] fixture_own_key [OF world_fixtures [OF assms], of "env_fresh ev"]
    by (simp add: edit_server_def bindS_def Let_def find_server_def fake_live_def)
  note r = edit_refused [OF this]
  show ?thesis
    using assms
    by (simp add: edit_of_the_active_tunnel_is_rejected_def onboarded_iff nexus_switched r first_server_def
        quoted_def)
qed

subsection \<open>Switching\<close>

text \<open>A switch to a tunnel that is stored with its endpoint.\<close>

lemma tunnel_switched:
  assumes "test_world dp ev kp ko" "find_server (d_cfg d) name = Some (tunnel spec a (key_to_string (dep_dg dp) k) psk)"
    "fk_fail_with (d_wg d) = None" "parse_sock (spec_endpoint spec) = Some a"
  shows "answer dp e (ReqSwitchServer name) d P \<longleftrightarrow>
    P (RespSwitched name) (mark_connecting e (d\<lparr>d_wg := (d_wg d)\<lparr>
      fk_calls := fk_calls (d_wg d) @ [''switch:'' @ trim (spec_name spec)],
      fk_last_switch_addresses := spec_addresses spec,
      fk_live_pubkey := Some (key_to_string (dep_dg dp) (key_public_key (dep_dg dp) k)),
      fk_live_peers := Some [\<lparr>fp_public_key = spec_public_key spec, fp_last_handshake = None\<rparr>]\<rparr>\<rparr>))"
  using answer_switch_fixture [OF assms(1,2,3), of k a e P] assms(4) by simp

lemma a_dual_stack_tunnels_addresses_are_passed_to_the_backend_in_full_passes:
  assumes "test_world dp ev kp ko"
  shows "a_dual_stack_tunnels_addresses_are_passed_to_the_backend_in_full dp ev"
proof -
  let ?spec = "(test_spec ''ds'')\<lparr>spec_addresses := [''10.0.0.2/32'', ''fd00::2/128'']\<rparr>"
  let ?s = "tunnel ?spec (SockV4 0xC633640A 51820) (key_to_string (dep_dg dp) (env_fresh ev)) None"
  let ?d = "stored dp \<lparr>servers = [?s]\<rparr> fresh_state"
  have "fixture_spec (dep_dg dp) ?spec (SockV4 0xC633640A 51820)" by (simp add: fixture_spec_defs)
  note a = fresh_added [OF assms this, of "env_fresh ev"]
  have "find_server (d_cfg ?d) ''ds'' = Some ?s" by (simp add: find_server_def)
  note t = tunnel_switched [OF assms this]
  show ?thesis
    by (simp add: a_dual_stack_tunnels_addresses_are_passed_to_the_backend_in_full_def loaded_fresh a Let_def)
      (simp add: t test_endpoints mark_connecting_def)
qed

subsection \<open>Restarting\<close>

text \<open>What a daemon has stored is what the next one loads.\<close>

lemma stored_reload:
  assumes "test_world dp ev kp ko" "codec_ok (dep_enc dp) (dep_dec dp)" "store_wf state_path (d_disk d)"
  shows "daemon_load dp no_faults (d_disk (stored dp c d)) w
      = Inr \<lparr>d_cfg = c, d_wg = w, d_last_connect = None, d_disk = d_disk (stored dp c d)\<rparr>"
    and "store_wf state_path (d_disk (stored dp c d))"
proof -
  have path: "dep_store dp = state_path" using assms(1) by (simp add: test_world_def)
  have ok: "is_ok (dep_enc dp c)" using assms(1) by (simp add: test_world_def)
  have s: "save (dep_enc dp) no_faults state_path c (d_disk d) = (Inr (), d_disk (stored dp c d))"
    using save_succeeds [where enc = "dep_enc dp", OF ok, of state_path "d_disk d"] path by (simp add: stored_def prod_eq_iff)
  from save_Inr [OF assms(3) s] obtain json i where j: "dep_enc dp c = Inr json"
    "fs_live (d_disk (stored dp c d)) state_path = Some i" "fs_data (d_disk (stored dp c d)) i = json" by blast
  then have "file_text (d_disk (stored dp c d)) state_path = Some json" by (simp add: file_text_def)
  moreover have "dep_dec dp json = Inr c" "utf8_valid json" using assms(2) j(1) by (auto simp: codec_ok_def)
  ultimately show "daemon_load dp no_faults (d_disk (stored dp c d)) w
      = Inr \<lparr>d_cfg = c, d_wg = w, d_last_connect = None, d_disk = d_disk (stored dp c d)\<rparr>"
    by (simp add: daemon_load_def load_def read_to_string_def no_faults_def path)
  show "store_wf state_path (d_disk (stored dp c d))" using save_spec [OF assms(3) s] by simp
qed

lemma onboard_disk:
  assumes "test_world dp ev kp ko" "codec_ok (dep_enc dp) (dep_dec dp)"
  shows "store_wf state_path (d_disk (onboard dp k))"
    and "daemon_load dp no_faults (d_disk (onboard dp k)) w
      = Inr \<lparr>d_cfg = \<lparr>servers = [nexus (dep_dg dp) k]\<rparr>, d_wg = w, d_last_connect = None, d_disk = d_disk (onboard dp k)\<rparr>"
  using stored_reload [OF assms, of fresh_state] empty_store_wf by (simp_all add: onboard_def)

text \<open>The tests that add \<open>nexus\<close> themselves start like the others.\<close>

lemma nexus_onboarded:
  "fresh_daemon dp (\<lambda>d. answer dp ev (ReqAddServer (test_spec ''nexus'')) d (\<lambda>_. P)) \<longleftrightarrow> onboarded dp ev P"
  by (simp add: onboarded_def)

lemma servers_survive_a_daemon_restart_passes:
  assumes "test_world dp ev kp ko" "codec_ok (dep_enc dp) (dep_dec dp)"
  shows "servers_survive_a_daemon_restart dp ev"
  unfolding servers_survive_a_daemon_restart_def nexus_onboarded onboarded_iff [OF assms(1)]
    onboard_disk(2) [OF assms] listed_iff [OF assms(1)] by simp

lemma a_successful_switch_refreshes_and_persists_the_cached_endpoint_passes:
  assumes "test_world dp ev kp ko" "codec_ok (dep_enc dp) (dep_dec dp)"
  shows "a_successful_switch_refreshes_and_persists_the_cached_endpoint dp ev"
proof -
  let ?k = "env_fresh ev"
  let ?s = "(nexus (dep_dg dp) ?k)\<lparr>sc_resolved_endpoint := Some ''192.0.2.99:51820''\<rparr>"
  let ?d = "(onboard dp ?k)\<lparr>d_cfg := \<lparr>servers = [?s]\<rparr>\<rparr>"
  have e: "edit_first (\<lambda>s. s\<lparr>sc_resolved_endpoint := Some ''192.0.2.99:51820''\<rparr>) (onboard dp ?k) = ?d"
    by (simp add: edit_first_def)
  have f: "find_server (d_cfg ?d) ''nexus'' = Some ?s" by (simp add: find_server_def)
  have own: "public_key (dep_dg dp) (sc_private_key ?s) = Inr (key_to_string (dep_dg dp) (key_public_key (dep_dg dp) ?k))"
    using fixture_own_key [OF world_fixtures [OF assms(1)]] by simp
  note a = answer_switch [OF assms(1) f _ own, of "SockV4 0xC633640A 51820" ev]
  let ?new = "?s\<lparr>sc_resolved_endpoint := Some ''198.51.100.10:51820''\<rparr>"
  have sw: "switched dp ev ''nexus'' (SockV4 0xC633640A 51820) (?d\<lparr>d_wg := w\<rparr>)
      = stored dp \<lparr>servers = [?new]\<rparr> (mark_connecting ev (?d\<lparr>d_wg := w\<rparr>))" for w
    using persist_stored [OF assms(1), where d = "mark_connecting ev (?d\<lparr>d_wg := w\<rparr>)"]
    by (simp add: switched_def Let_def find_server_def mark_connecting_def test_endpoint_texts del: show_sock.simps)
  have disk: "store_wf state_path (d_disk (mark_connecting ev (?d\<lparr>d_wg := w\<rparr>)))" for w
    using onboard_disk(1) [OF assms] by (simp add: mark_connecting_def)
  have "answer dp ev (ReqSwitchServer ''nexus'') ?d (\<lambda>_ d.
      first_server d (\<lambda>s. sc_resolved_endpoint s = Some ''198.51.100.10:51820'')
      \<and> unwraps (daemon_load dp no_faults (d_disk d) fake_default) (\<lambda>d2.
             first_server d2 (\<lambda>s. sc_resolved_endpoint s = Some ''198.51.100.10:51820'')))"
    using stored_reload(1) [OF assms disk]
    by (subst a) (simp_all add: sw first_server_def test_endpoints)
  then show ?thesis
    unfolding a_successful_switch_refreshes_and_persists_the_cached_endpoint_def nexus_onboarded
      onboarded_iff [OF assms(1)] e .
qed

subsection \<open>Two servers\<close>

text \<open>Which entry the list marks: the one whose derived key is the live one.\<close>

lemma fixture_entry_active:
  assumes "crate_fixtures dg kp ko" "sc_private_key s = key_to_string dg k"
  shows "info_active (list_entry dg now c live s) \<longleftrightarrow>
    Option.bind live li_public_key = Some (key_to_string dg (key_public_key dg k))"
    "info_public_key (list_entry dg now c live s) = key_to_string dg (key_public_key dg k)"
  using entry_of_fixture [OF assms] by (simp_all add: Let_def)

text \<open>The daemon with \<open>nexus\<close> and \<open>edge\<close>, whose key is \<open>k'\<close>.\<close>

definition edge :: "'k defguard \<Rightarrow> 'k \<Rightarrow> server_config" where
  "edge dg k' = tunnel edge_test_spec (SockV4 0xC633640A 51820) (key_to_string dg k') None"

lemma edge_test_spec_fields [simp]:
  "spec_name edge_test_spec = ''edge''" "spec_private_key edge_test_spec = None"
  "spec_preshared_key edge_test_spec = None" "spec_public_key edge_test_spec = other_key_text"
  "spec_endpoint edge_test_spec = ''198.51.100.10:51820''"
  "spec_addresses edge_test_spec = [''192.168.50.5/24'']"
  by (simp_all add: edge_test_spec_def)

lemma edge_fields [simp]:
  "sc_name (edge dg k') = ''edge''" "sc_private_key (edge dg k') = key_to_string dg k'"
  "sc_preshared_key (edge dg k') = None"
  by (simp_all add: edge_def)

definition both_state :: "('k, fake) deps \<Rightarrow> 'k \<Rightarrow> 'k \<Rightarrow> fake daemon" where
  "both_state dp k k' = stored dp \<lparr>servers = [nexus (dep_dg dp) k, edge (dep_dg dp) k']\<rparr> (onboard dp k)"

lemma both_state_fields [simp]:
  "d_cfg (both_state dp k k') = \<lparr>servers = [nexus (dep_dg dp) k, edge (dep_dg dp) k']\<rparr>"
  "d_wg (both_state dp k k') = fake_default"
  by (simp_all add: both_state_def)

lemma edge_added:
  assumes "test_world dp ev kp ko"
  shows "answer dp (ev\<lparr>env_fresh := k'\<rparr>) (ReqAddServer edge_test_spec) (onboard dp (env_fresh ev)) (\<lambda>_. P)
    \<longleftrightarrow> P (both_state dp (env_fresh ev) k')"
proof -
  have f: "fixture_spec (dep_dg dp) edge_test_spec (SockV4 0xC633640A 51820)" by (simp add: fixture_spec_defs)
  have u: "snd (upsert_server (edge (dep_dg dp) k') \<lparr>servers = [nexus (dep_dg dp) (env_fresh ev)]\<rparr>)
      = \<lparr>servers = [nexus (dep_dg dp) (env_fresh ev), edge (dep_dg dp) k']\<rparr>"
    by (simp add: upsert_server_def)
  show ?thesis
    using second_added [OF assms f, of k' "onboard dp (env_fresh ev)" "\<lambda>_. P"]
    by (simp add: Let_def both_state_def edge_def [symmetric] u)
qed

text \<open>A switch of that daemon, whatever tunnel was up.\<close>

lemma both_switched:
  assumes "test_world dp ev kp ko" "d_cfg d = d_cfg (both_state dp k k')" "fk_fail_with (d_wg d) = None"
  shows "answer dp e (ReqSwitchServer ''nexus'') d (\<lambda>_. P) \<longleftrightarrow>
    P (mark_connecting e (d\<lparr>d_wg := (d_wg d)\<lparr>
      fk_calls := fk_calls (d_wg d) @ [''switch:nexus''], fk_last_switch_addresses := [''10.0.0.2/24''],
      fk_live_pubkey := Some (key_to_string (dep_dg dp) (key_public_key (dep_dg dp) k)),
      fk_live_peers := Some [\<lparr>fp_public_key = peer_key_text, fp_last_handshake = None\<rparr>]\<rparr>\<rparr>))"
    and "answer dp e (ReqSwitchServer ''edge'') d (\<lambda>_. P) \<longleftrightarrow>
    P (mark_connecting e (d\<lparr>d_wg := (d_wg d)\<lparr>
      fk_calls := fk_calls (d_wg d) @ [''switch:edge''], fk_last_switch_addresses := [''192.168.50.5/24''],
      fk_live_pubkey := Some (key_to_string (dep_dg dp) (key_public_key (dep_dg dp) k')),
      fk_live_peers := Some [\<lparr>fp_public_key = other_key_text, fp_last_handshake = None\<rparr>]\<rparr>\<rparr>))"
proof -
  have n: "find_server (d_cfg d) ''nexus'' = Some (nexus (dep_dg dp) k)"
    by (simp add: find_server_def assms(2))
  from answer_switch_fixture [OF assms(1) n assms(3), of k "SockV4 0xC633640A 51820" e "\<lambda>_. P"]
  show "answer dp e (ReqSwitchServer ''nexus'') d (\<lambda>_. P) \<longleftrightarrow>
    P (mark_connecting e (d\<lparr>d_wg := (d_wg d)\<lparr>
      fk_calls := fk_calls (d_wg d) @ [''switch:nexus''], fk_last_switch_addresses := [''10.0.0.2/24''],
      fk_live_pubkey := Some (key_to_string (dep_dg dp) (key_public_key (dep_dg dp) k)),
      fk_live_peers := Some [\<lparr>fp_public_key = peer_key_text, fp_last_handshake = None\<rparr>]\<rparr>\<rparr>))"
    by (simp add: test_endpoints test_endpoint_texts del: show_sock.simps)
  have "find_server (d_cfg d) ''edge''
      = Some (tunnel edge_test_spec (SockV4 0xC633640A 51820) (key_to_string (dep_dg dp) k') None)"
    by (simp add: find_server_def assms(2) edge_def)
  from tunnel_switched [OF assms(1) this assms(3), of e "\<lambda>_. P"]
  show "answer dp e (ReqSwitchServer ''edge'') d (\<lambda>_. P) \<longleftrightarrow>
    P (mark_connecting e (d\<lparr>d_wg := (d_wg d)\<lparr>
      fk_calls := fk_calls (d_wg d) @ [''switch:edge''], fk_last_switch_addresses := [''192.168.50.5/24''],
      fk_live_pubkey := Some (key_to_string (dep_dg dp) (key_public_key (dep_dg dp) k')),
      fk_live_peers := Some [\<lparr>fp_public_key = other_key_text, fp_last_handshake = None\<rparr>]\<rparr>\<rparr>))"
    by (simp add: test_endpoints)
qed

text \<open>Two generated keys have different public keys.\<close>

lemma public_texts_differ:
  assumes "crate_fixtures dg kp ko" "key_public_key dg k \<noteq> key_public_key dg k'"
  shows "key_to_string dg (key_public_key dg k) \<noteq> key_to_string dg (key_public_key dg k')"
  using assms key_text_inj [of dg "key_public_key dg k" "key_public_key dg k'"]
  by (auto simp: crate_fixtures_def)

lemma switching_between_two_servers_moves_the_active_flag_passes:
  assumes "test_world dp ev kp ko"
    "key_public_key (dep_dg dp) (env_fresh ev) \<noteq> key_public_key (dep_dg dp) k'"
  shows "switching_between_two_servers_moves_the_active_flag dp ev k'"
proof -
  note x = world_fixtures [OF assms(1)]
  note diff = public_texts_differ [OF x assms(2)]
  show ?thesis
    unfolding switching_between_two_servers_moves_the_active_flag_def onboarded_iff [OF assms(1)]
      edge_added [OF assms(1)] listed_iff [OF assms(1)]
    using diff
    by (simp add: both_switched [OF assms(1), where k = "env_fresh ev" and k' = k'] mark_connecting_def
        entry_named_def fixture_entry_active [OF x] fake_live_def)
qed

lemma edit_of_a_non_active_tunnel_while_another_is_active_succeeds_passes:
  assumes "test_world dp ev kp ko"
    "key_public_key (dep_dg dp) (env_fresh ev) \<noteq> key_public_key (dep_dg dp) k'"
  shows "edit_of_a_non_active_tunnel_while_another_is_active_succeeds dp ev k'"
proof -
  note diff = public_texts_differ [OF world_fixtures [OF assms(1)] assms(2)]
  let ?edit = "edge_test_spec\<lparr>spec_endpoint := ''198.51.100.30:51820''\<rparr>"
  have f: "fixture_spec (dep_dg dp) ?edit (SockV4 0xC633641E 51820)" by (simp add: fixture_spec_defs)
  have e: "answer dp ev (ReqEditServer ?edit) (mark_connecting ev ((both_state dp (env_fresh ev) k')\<lparr>d_wg := w\<rparr>)) P \<longleftrightarrow>
      (let d' = stored dp \<lparr>servers = [nexus (dep_dg dp) (env_fresh ev),
           tunnel ?edit (SockV4 0xC633641E 51820) (key_to_string (dep_dg dp) k') None]\<rparr>
           (mark_connecting ev ((both_state dp (env_fresh ev) k')\<lparr>d_wg := w\<rparr>))
       in P (RespServers (fst (list_servers dp ev d'))) d')"
    if "Option.bind (fake_live w) li_public_key \<noteq> Some (key_to_string (dep_dg dp) (key_public_key (dep_dg dp) k'))"
    for w P
  proof -
    let ?d = "mark_connecting ev ((both_state dp (env_fresh ev) k')\<lparr>d_wg := w\<rparr>)"
    have found: "find_server (d_cfg ?d) (trim (spec_name ?edit)) = Some (edge (dep_dg dp) k')"
      by (simp add: find_server_def mark_connecting_def)
    have live: "Option.bind (fake_live (d_wg ?d)) li_public_key
        \<noteq> Some (key_to_string (dep_dg dp) (key_public_key (dep_dg dp) k'))"
      using that by (simp add: mark_connecting_def)
    have cfg: "d_cfg ?d = \<lparr>servers = [nexus (dep_dg dp) (env_fresh ev), edge (dep_dg dp) k']\<rparr>"
      by (simp add: mark_connecting_def)
    show ?thesis
      using answer_edit_spec [OF assms(1) world_faults [OF assms(1)] f found _ _ live, of k' P]
      by (simp add: cfg upsert_server_def kept_def)
  qed
  show ?thesis
    unfolding edit_of_a_non_active_tunnel_while_another_is_active_succeeds_def onboarded_iff [OF assms(1)]
      edge_added [OF assms(1)]
    by (subst both_switched(1) [OF assms(1), where k = "env_fresh ev" and k' = k'])
      (use diff in \<open>simp_all add: answers_servers_def e fake_live_def Let_def\<close>)
qed

lemma two_tunnels_to_the_same_server_are_told_apart_passes:
  assumes "test_world dp ev kp ko"
    "key_public_key (dep_dg dp) (env_fresh ev) \<noteq> key_public_key (dep_dg dp) k'"
  shows "two_tunnels_to_the_same_server_are_told_apart dp ev k'"
proof -
  note x = world_fixtures [OF assms(1)]
  note diff = public_texts_differ [OF x assms(2)]
  let ?a = "tunnel (test_spec ''nexus-a'') (SockV4 0xC633640A 51820) (key_to_string (dep_dg dp) (env_fresh ev)) None"
  let ?b = "tunnel (test_spec ''nexus-b'') (SockV4 0xC633640A 51820) (key_to_string (dep_dg dp) k') None"
  let ?d1 = "stored dp \<lparr>servers = [?a]\<rparr> fresh_state" and ?cfg = "\<lparr>servers = [?a, ?b]\<rparr>"
  have fa: "fixture_spec (dep_dg dp) (test_spec ''nexus-a'') (SockV4 0xC633640A 51820)"
    and fb: "fixture_spec (dep_dg dp) (test_spec ''nexus-b'') (SockV4 0xC633640A 51820)"
    by (rule test_specs; simp)+
  have a: "answer dp ev (ReqAddServer (test_spec ''nexus-a'')) fresh_state (\<lambda>_. P) \<longleftrightarrow> P ?d1" for P
    using fresh_added [OF assms(1) fa, of "env_fresh ev" "\<lambda>_. P"] by simp
  have b: "answer dp (ev\<lparr>env_fresh := k'\<rparr>) (ReqAddServer (test_spec ''nexus-b'')) ?d1 (\<lambda>_. P)
      \<longleftrightarrow> P (stored dp ?cfg ?d1)" for P
    using second_added [OF assms(1) fb, of k' ?d1 "\<lambda>_. P"]
    by (simp add: upsert_server_def)
  have "find_server (d_cfg (stored dp ?cfg ?d1)) ''nexus-a'' = Some ?a" by (simp add: find_server_def)
  note s = tunnel_switched [OF assms(1) this]
  show ?thesis
    unfolding two_tunnels_to_the_same_server_are_told_apart_def loaded_fresh a b listed_iff [OF assms(1)]
    by (subst s) (use diff in \<open>simp_all add: test_endpoints mark_connecting_def entry_named_def
        fixture_entry_active [OF x] fake_live_def\<close>)
qed

text \<open>The filter of the list looks at the entries' text.\<close>

lemma list_entry_text [simp]:
  "info_endpoint (list_entry dg now c live s) = sc_endpoint s"
  "info_addresses (list_entry dg now c live s) = sc_addresses s"
  by (cases "public_key dg (sc_private_key s)";
      simp add: list_entry_def Let_def info_def unavailable_info_def)+

lemma list_servers_filters_by_query_daemon_side_passes:
  assumes "test_world dp ev kp ko" "lower_ascii (dep_lower dp)"
  shows "list_servers_filters_by_query_daemon_side dp ev k'"
proof -
  let ?a = "(test_spec ''mullvad-nyc'')\<lparr>spec_addresses := [''10.10.0.2/32'']\<rparr>"
  let ?b = "(test_spec ''proton-ch'')\<lparr>spec_addresses := [''10.20.0.2/32'']\<rparr>"
  let ?sa = "tunnel ?a (SockV4 0xC633640A 51820) (key_to_string (dep_dg dp) (env_fresh ev)) None"
  let ?sb = "tunnel ?b (SockV4 0xC633640A 51820) (key_to_string (dep_dg dp) k') None"
  let ?d1 = "stored dp \<lparr>servers = [?sa]\<rparr> fresh_state" and ?cfg = "\<lparr>servers = [?sa, ?sb]\<rparr>"
  have fa: "fixture_spec (dep_dg dp) ?a (SockV4 0xC633640A 51820)" by (simp add: fixture_spec_defs)
  have fb: "fixture_spec (dep_dg dp) ?b (SockV4 0xC633640A 51820)" by (simp add: fixture_spec_defs)
  have a: "answer dp ev (ReqAddServer ?a) fresh_state (\<lambda>_. P) \<longleftrightarrow> P ?d1" for P
    using fresh_added [OF assms(1) fa, of "env_fresh ev" "\<lambda>_. P"] by simp
  have b: "answer dp (ev\<lparr>env_fresh := k'\<rparr>) (ReqAddServer ?b) ?d1 (\<lambda>_. P) \<longleftrightarrow> P (stored dp ?cfg ?d1)" for P
    using second_added [OF assms(1) fb, of k' ?d1 "\<lambda>_. P"] by (simp add: upsert_server_def)
  show ?thesis
    unfolding list_servers_filters_by_query_daemon_side_def loaded_fresh a b answer_list [OF assms(1)]
      fake_reads(1) [OF assms(1)]
    by (simp add: matches_def lower_ascii_eval [OF assms(2)] literal_simps)
qed

end
