(* ===== verification/Daemon_Import_Tests.thy ===== *)
theory Daemon_Import_Tests
  imports Daemon_Edit_Tests
begin

section \<open>The model passes the tests that import\<close>

text \<open>
  The tests that import a configuration file. The text of a generated key in it is not a literal:
  all that is known of it is that it is graphic, like base64, and holds no comment sign.
\<close>

definition base64_text :: "string \<Rightarrow> bool" where
  "base64_text v \<longleftrightarrow> v \<noteq> [] \<and> list_all graphic v \<and> CHR ''#'' \<notin> set v"

lemma drop_blank_graphic: "list_all graphic v \<Longrightarrow> v \<noteq> [] \<Longrightarrow> dropWhile ascii_blank (v @ b) = v @ b"
  using graphic_ascii by (cases v) auto

lemma trim_before_graphic:
  assumes "list_all graphic v" "v \<noteq> []" "list_all ascii_char p"
  shows "trim (p @ v) = dropWhile ascii_blank (p @ v)"
proof -
  have a: "list_all ascii_char (p @ v)" using assms graphic_ascii by (auto simp: list_all_iff)
  have r: "list_all graphic (rev v)" "rev v \<noteq> []" using assms by (simp_all add: list_all_iff)
  have q: "dropWhile ascii_blank (p @ v) = dropWhile ascii_blank p @ v"
    using drop_blank_graphic [OF assms(1,2), of "[]"] by (induction p) auto
  have "dropWhile ascii_blank (rev (dropWhile ascii_blank p @ v)) = rev (dropWhile ascii_blank p @ v)"
    using drop_blank_graphic [OF r, of "rev (dropWhile ascii_blank p)"] by simp
  then show ?thesis using a by (simp add: trim_ascii q)
qed

lemma raw_line [simp]: "parse_line i (or_self (strip_suffix_char CHR 0x0D s) s) st = parse_line i s st"
  by (rule parse_line_content) (rule line_content_stripped)

lemma private_key_line:
  assumes "base64_text v" "st_section st = Some SecInterface" "st_iface st = Some f" "if_private_key f = None"
  shows "parse_line i (''PrivateKey = '' @ v) st = Inr (st\<lparr>st_iface := Some (f\<lparr>if_private_key := Some v\<rparr>)\<rparr>)"
proof -
  let ?l = "''PrivateKey = '' @ v"
  have v: "list_all graphic v" "v \<noteq> []" "CHR ''#'' \<notin> set v" using assms(1) by (simp_all add: base64_text_def)
  have cr: "strip_suffix_char CHR 0x0D ?l = None"
  proof -
    have "graphic (last v)" using v by (simp add: list_all_iff)
    then have "last v \<noteq> CHR 0x0D" by (auto simp: graphic_def)
    then show ?thesis using v(2) by (simp add: strip_suffix_char_def)
  qed
  have t: "trim ?l = ?l" "trim ('' '' @ v) = v"
    using trim_before_graphic [OF v(1,2), of "''PrivateKey = ''"] trim_before_graphic [OF v(1,2), of "'' ''"]
      drop_blank_graphic [OF v(1,2), of "[]"]
    by (simp_all add: literal_simps(1-5) ascii_char_Char ascii_blank_eval)
  have "line_content ?l = ?l"
    using v(3) t(1) cr by (simp add: line_content_def before_char_id or_self_def)
  moreover have "split_once CHR ''='' ?l = Some (''PrivateKey '', '' '' @ v)"
    using split_once_append [of "CHR ''=''" "''PrivateKey ''" "'' '' @ v"] by simp
  moreover have "trim ''PrivateKey '' = ''PrivateKey''" by (simp add: literal_simps)
  ultimately show ?thesis
    using t(2) assms(2-4)
    by (simp add: parse_line_def section_header_def strip_prefix_char_def key_value_def interface_key_def
        key_lower set_scalar_def)
qed

subsection \<open>Requests to import\<close>

lemma answer_import:
  assumes "parse conf = Inr c"
  shows "answer dp e (ReqImportServer name conf) d P \<longleftrightarrow> answer dp e (ReqAddServer (spec_of_conf name c)) d P"
proof -
  obtain r d1 where "add_server dp e (spec_of_conf name c) d = (r, d1)"
    by (cases "add_server dp e (spec_of_conf name c) d")
  then show ?thesis
    using assms by (cases r) (simp_all add: answer_def import_server_def reply_servers_def split_beta)
qed

lemma import_refused:
  "parse conf = Inl (Err m) \<Longrightarrow> answers_error dp e (ReqImportServer name conf) d P \<longleftrightarrow> P m d"
  by (simp add: answers_error_def answer_def import_server_def reply_servers_def)

lemma import_of_malformed_conf_errors_and_persists_nothing_passes:
  "import_of_malformed_conf_errors_and_persists_nothing dp ev"
proof -
  have "\<exists>m. m \<noteq> [] \<and> parse ''not a config'' = Inl (Err m)" by (simp add: literal_simps str_lines_def)
  then obtain m where "m \<noteq> []" "parse ''not a config'' = Inl (Err m)" by blast
  then show ?thesis
    by (simp add: import_of_malformed_conf_errors_and_persists_nothing_def loaded_fresh import_refused
        config_default_def)
qed

text \<open>The lines of the test's file, one step each.\<close>

lemma parse_unlines:
  "list_all (\<lambda>l. CHR 0x0A \<notin> set l) ls \<Longrightarrow> parse (unlines ls) = bindR (parse_lines 0 ls parse_start) finish"
proof -
  assume "list_all (\<lambda>l. CHR 0x0A \<notin> set l) ls"
  moreover have "parse_lines i (map (\<lambda>l. or_self (strip_suffix_char CHR 0x0D l) l) xs) st = parse_lines i xs st"
    for i xs st by (induction i xs st rule: parse_lines.induct) (simp_all add: bindR_def split: sum.split)
  ultimately show ?thesis by (simp only: parse_def str_lines_unlines)
qed

lemma base64_no_newline: "base64_text v \<Longrightarrow> CHR 0x0A \<notin> set (''PrivateKey = '' @ v)"
  by (auto simp: base64_text_def list_all_iff graphic_def)

lemma conf_head:
  assumes "base64_text v"
  shows "parse_lines 0 (''[Interface]'' # (''PrivateKey = '' @ v) # ''Address = 10.0.0.2/24'' # ls) parse_start
    = parse_lines (Suc (Suc (Suc 0))) ls \<lparr>st_iface = Some (iface_default\<lparr>if_private_key := Some v, if_addresses := [''10.0.0.2/24'']\<rparr>),
        st_peers = [], st_section = Some SecInterface\<rparr>"
proof -
  have i: "parse_line (Suc 0) ''[Interface]'' parse_start
      = Inr \<lparr>st_iface = Some iface_default, st_peers = [], st_section = Some SecInterface\<rparr>"
    by (simp add: literal_simps)
  have a: "parse_line (Suc (Suc (Suc 0))) ''Address = 10.0.0.2/24''
        \<lparr>st_iface = Some (iface_default\<lparr>if_private_key := Some v\<rparr>), st_peers = [], st_section = Some SecInterface\<rparr>
      = Inr \<lparr>st_iface = Some (iface_default\<lparr>if_private_key := Some v, if_addresses := [''10.0.0.2/24'']\<rparr>),
        st_peers = [], st_section = Some SecInterface\<rparr>"
    by (simp add: literal_simps)
  have k: "parse_line (Suc (Suc 0)) (''PrivateKey = '' @ v)
        \<lparr>st_iface = Some iface_default, st_peers = [], st_section = Some SecInterface\<rparr>
      = Inr \<lparr>st_iface = Some (iface_default\<lparr>if_private_key := Some v\<rparr>), st_peers = [], st_section = Some SecInterface\<rparr>"
    using private_key_line [OF assms, of "\<lparr>st_iface = Some iface_default, st_peers = [], st_section = Some SecInterface\<rparr>"
        iface_default "Suc (Suc 0)"]
    by (simp add: iface_default_def)
  show ?thesis by (simp add: i a k del: append.simps append_Cons)
qed

lemma conf_peer:
  "bindR (parse_lines (Suc (Suc (Suc 0))) [''[Peer]'', ''PublicKey = '' @ peer_key_text,
      ''Endpoint = 198.51.100.10:51820'', ''AllowedIPs = 0.0.0.0/0'']
      \<lparr>st_iface = Some (iface_default\<lparr>if_private_key := Some v, if_addresses := [''10.0.0.2/24'']\<rparr>),
       st_peers = [], st_section = Some SecInterface\<rparr>) finish
   = Inr \<lparr>pc_private_key = v, pc_addresses = [''10.0.0.2/24''], pc_dns = [], pc_listen_port = None,
       pc_mtu = None, pc_public_key = peer_key_text, pc_endpoint = ''198.51.100.10:51820'',
       pc_allowed_ips = [''0.0.0.0/0''], pc_preshared_key = None, pc_keepalive = None\<rparr>"
  by (simp add: literal_simps peer_key_text_def)

lemma parse_valid_conf:
  assumes "base64_text (key_to_string dg k)"
  shows "parse (valid_conf dg k) = Inr \<lparr>pc_private_key = key_to_string dg k, pc_addresses = [''10.0.0.2/24''],
       pc_dns = [], pc_listen_port = None, pc_mtu = None, pc_public_key = peer_key_text,
       pc_endpoint = ''198.51.100.10:51820'', pc_allowed_ips = [''0.0.0.0/0''], pc_preshared_key = None,
       pc_keepalive = None\<rparr>"
proof -
  let ?ls = "[''[Interface]'', ''PrivateKey = '' @ key_to_string dg k, ''Address = 10.0.0.2/24'',
       ''[Peer]'', ''PublicKey = '' @ peer_key_text, ''Endpoint = 198.51.100.10:51820'',
       ''AllowedIPs = 0.0.0.0/0'']"
  have n: "list_all (\<lambda>l. CHR 0x0A \<notin> set l) ?ls"
    using base64_no_newline [OF assms] by (simp add: peer_key_text_def)
  show ?thesis
    unfolding valid_conf_def generate_private_key_def parse_unlines [OF n] conf_head [OF assms] conf_peer ..
qed

lemma import_adds_a_server_with_a_derived_public_key_passes:
  assumes "test_world dp ev kp ko" "base64_text (key_to_string (dep_dg dp) k')"
  shows "import_adds_a_server_with_a_derived_public_key dp ev k'"
proof -
  note i = answer_import [OF parse_valid_conf [OF assms(2)]]
  let ?spec = "\<lparr>spec_name = ''home'', spec_private_key = Some (key_to_string (dep_dg dp) k'),
      spec_public_key = peer_key_text, spec_endpoint = ''198.51.100.10:51820'',
      spec_addresses = [''10.0.0.2/24''], spec_allowed_ips = [''0.0.0.0/0''], spec_listen_port = None,
      spec_mtu = None, spec_keepalive = None, spec_preshared_key = None, spec_dns = []\<rparr>"
  have f: "fixture_spec (dep_dg dp) ?spec (SockV4 0xC633640A 51820)" by (simp add: fixture_spec_defs)
  note a = fresh_added [OF assms(1) f, of k']
  note own = fixture_own_key [OF world_fixtures [OF assms(1)], of k']
  show ?thesis
    unfolding import_adds_a_server_with_a_derived_public_key_def loaded_fresh answers_servers_def i spec_of_conf_def
    by (simp add: a Let_def fake_reads(1) [OF assms(1)] first_server_def own
        fixture_entry_active [OF world_fixtures [OF assms(1)]])
qed

lemma import_with_a_bad_key_surfaces_validate_server_passes:
  assumes "test_world dp ev kp ko"
  shows "import_with_a_bad_key_surfaces_validate_server dp ev"
proof -
  let ?conf = "unlines [''[Interface]'', ''PrivateKey = not-a-key'', ''Address = 10.0.0.2/24'',
          ''[Peer]'', ''PublicKey = p'', ''Endpoint = h:51820'', ''AllowedIPs = 0.0.0.0/0'']"
  let ?c = "\<lparr>pc_private_key = ''not-a-key'', pc_addresses = [''10.0.0.2/24''], pc_dns = [],
       pc_listen_port = None, pc_mtu = None, pc_public_key = ''p'', pc_endpoint = ''h:51820'',
       pc_allowed_ips = [''0.0.0.0/0''], pc_preshared_key = None, pc_keepalive = None\<rparr>"
  have "parse ?conf = Inr ?c" by (simp add: literal_simps)
  note i = answer_import [OF this]
  obtain m where m: "key_from_str (dep_dg dp) ''not-a-key'' = Inl m"
    using fixture_bad_key [OF world_fixtures [OF assms]] by (auto simp: bad_key_texts_def)
  obtain e where v: "validate_server (dep_dg dp) (env_resolve ev) (added_server dp ev (spec_of_conf ''home'' ?c)) = Inl e"
    "str_contains e ''private_key''"
    using m by (simp add: validation_defs spec_defs spec_of_conf_def trim_graphic graphic_def quoted_def)
  note r = add_refused [OF v(1)]
  show ?thesis
    unfolding import_with_a_bad_key_surfaces_validate_server_def loaded_fresh answers_error_def i
    unfolding answers_error_def [symmetric]
    by (rule r) (simp_all add: v(2) spec_of_conf_def config_default_def)
qed

lemma conf_two_peers:
  "bindR (parse_lines (Suc (Suc (Suc 0))) [''[Peer]'', ''PublicKey = '' @ peer_key_text, ''Endpoint = h:1'',
      ''AllowedIPs = 0.0.0.0/0'', ''[Peer]'', ''PublicKey = '' @ peer_key_text, ''Endpoint = h:2'',
      ''AllowedIPs = 0.0.0.0/0'']
      \<lparr>st_iface = Some (iface_default\<lparr>if_private_key := Some v, if_addresses := [''10.0.0.2/24'']\<rparr>),
       st_peers = [], st_section = Some SecInterface\<rparr>) finish
   = Inl (Err ''wirefinder supports one peer per config, found 2'')"
  by (simp add: literal_simps peer_key_text_def)

lemma import_of_a_multi_peer_conf_is_rejected_end_to_end_passes:
  assumes "base64_text (key_to_string (dep_dg dp) k')"
  shows "import_of_a_multi_peer_conf_is_rejected_end_to_end dp ev k'"
proof -
  let ?ls = "[''[Interface]'', ''PrivateKey = '' @ key_to_string (dep_dg dp) k', ''Address = 10.0.0.2/24'',
          ''[Peer]'', ''PublicKey = '' @ peer_key_text, ''Endpoint = h:1'', ''AllowedIPs = 0.0.0.0/0'',
          ''[Peer]'', ''PublicKey = '' @ peer_key_text, ''Endpoint = h:2'', ''AllowedIPs = 0.0.0.0/0'']"
  have n: "list_all (\<lambda>l. CHR 0x0A \<notin> set l) ?ls"
    using base64_no_newline [OF assms] by (simp add: peer_key_text_def)
  have "parse (unlines ?ls) = Inl (Err ''wirefinder supports one peer per config, found 2'')"
    unfolding parse_unlines [OF n] conf_head [OF assms] conf_two_peers ..
  note r = import_refused [OF this]
  show ?thesis
    unfolding import_of_a_multi_peer_conf_is_rejected_end_to_end_def loaded_fresh generate_private_key_def r
    by (simp add: config_default_def)
qed

subsection \<open>An instance\<close>

text \<open>What the tests take for granted can hold, with two different generated keys.\<close>

definition test_deps :: "(test_key, fake) deps" where
  "test_deps =
     \<lparr>dep_dg = test_dg, dep_wg = fake_wireguard test_dg, dep_store = state_path, dep_enc = number_enc,
      dep_dec = number_dec, dep_lower = to_ascii_lowercase\<rparr>"

definition test_env :: "test_key env" where
  "test_env = \<lparr>env_fresh = Generated 1, env_instant = 0, env_now = 1700000000, env_resolve = no_resolver,
     env_faults = no_faults\<rparr>"

lemma test_instance:
  "test_world test_deps test_env Peer_Key Other_Key" "codec_ok (dep_enc test_deps) (dep_dec test_deps)"
  "lower_ascii (dep_lower test_deps)" "generated_ok (dep_dg test_deps) (env_fresh test_env)"
  "env_now test_env \<noteq> 0"
  "key_public_key (dep_dg test_deps) (env_fresh test_env) \<noteq> key_public_key (dep_dg test_deps) (Generated 2)"
  using test_fixtures number_codec generated_graphic [of 1]
  by (simp_all add: test_world_def test_deps_def test_env_def lower_ascii_def generated_ok_def test_dg_def
      literal_simps(1) list_all_iff show_nat_graphic)

lemma test_key_base64: "base64_text (key_to_string (dep_dg test_deps) (Generated n))"
proof -
  have "list_all (is_digit 10) (show_nat n)" using show_nat_digits [of n] by simp
  moreover have "\<not> is_digit 10 CHR ''#''" by (simp add: is_digit_def digit_value_def Let_def)
  ultimately show ?thesis
    using generated_graphic [of n]
    by (auto simp: base64_text_def test_deps_def test_dg_def list_all_iff generated_prefix_def)
qed

end
