(* ===== verification/Wire_Tests.thy ===== *)
theory Wire_Tests
  imports Wire_Secrets Daemon_Import_Tests Server_Tests
begin

section \<open>The tests of the JSON text\<close>

text \<open>
  The tests of \<open>proto/src/lib.rs\<close> and of the daemon that look at JSON, each as a proposition about the
  model under its name, where \<open>serde_json\<close> is the parameter \<open>jl\<close>, and for each that it
  holds if \<open>jl\<close> writes and reads JSON.
\<close>

subsection \<open>\<open>proto\<close>: the format\<close>

definition requests_serialize_to_expected_json :: "json_lib \<Rightarrow> bool" where
  "requests_serialize_to_expected_json jl \<longleftrightarrow>
     list_all (\<lambda>(req, expected). jl_compact jl (request_json req) = expected)
       [(ReqSwitchServer ''nexus'', ''{\"SwitchServer\":{\"name\":\"nexus\"}}''),
        (ReqRemoveServer ''decoy'', ''{\"RemoveServer\":{\"name\":\"decoy\"}}''),
        (ReqImportServer ''home'' ''[Interface]'',
         ''{\"ImportServer\":{\"name\":\"home\",\"conf\":\"[Interface]\"}}''),
        (ReqGetServer ''nexus'', ''{\"GetServer\":{\"name\":\"nexus\"}}''),
        (ReqListServers None, ''{\"ListServers\":{\"query\":null}}''),
        (ReqListServers (Some ''nyc''), ''{\"ListServers\":{\"query\":\"nyc\"}}'')]"

lemma requests_serialize_to_expected_json_passes:
  assumes "json_text jl"
  shows "requests_serialize_to_expected_json jl"
  by (simp add: requests_serialize_to_expected_json_def json_textD(2) [OF assms] request_json_def tagged_def
      utf8_valid_ascii opt_json_def json_quote_def json_escaped_def json_escape_def)

definition minimal_spec_text :: string where
  "minimal_spec_text = unlines
     [''{'',
      ''            \"name\": \"edge\",'',
      ''            \"public_key\": \"abc\",'',
      ''            \"endpoint\": \"vpn.example.com:51820\",'',
      ''            \"addresses\": [\"10.0.0.2/24\"],'',
      ''            \"allowed_ips\": [\"0.0.0.0/0\"]''] @ ''        }''"

definition no_addresses_text :: string where
  "no_addresses_text = unlines
     [''{'',
      ''            \"name\": \"edge\",'',
      ''            \"public_key\": \"abc\",'',
      ''            \"endpoint\": \"vpn.example.com:51820\",'',
      ''            \"allowed_ips\": [\"0.0.0.0/0\"]''] @ ''        }''"

definition server_spec_optional_fields_default :: "json_lib \<Rightarrow> bool" where
  "server_spec_optional_fields_default jl \<longleftrightarrow>
     unwraps (read_as jl ''ServerSpec'' spec_of_json minimal_spec_text) (\<lambda>spec.
       spec_addresses spec = [''10.0.0.2/24''] \<and> spec_private_key spec = None \<and> spec_listen_port spec = None
       \<and> spec_mtu spec = None \<and> spec_keepalive spec = None \<and> spec_dns spec = [])"

definition server_spec_requires_addresses :: "json_lib \<Rightarrow> bool" where
  "server_spec_requires_addresses jl \<longleftrightarrow> \<not> is_ok (read_as jl ''ServerSpec'' spec_of_json no_addresses_text)"

lemma minimal_spec_read: "read_json minimal_spec_text = Some (JObject
    [(''name'', JString ''edge''), (''public_key'', JString ''abc''), (''endpoint'', JString ''vpn.example.com:51820''),
     (''addresses'', strings_json [''10.0.0.2/24'']), (''allowed_ips'', strings_json [''0.0.0.0/0''])])"
  by code_simp

lemma no_addresses_read: "read_json no_addresses_text = Some (JObject
    [(''name'', JString ''edge''), (''public_key'', JString ''abc''), (''endpoint'', JString ''vpn.example.com:51820''),
     (''allowed_ips'', strings_json [''0.0.0.0/0''])])"
  by code_simp

lemma server_spec_optional_fields_default_passes:
  assumes "json_text jl"
  shows "server_spec_optional_fields_default jl"
proof -
  have "utf8_valid minimal_spec_text" by (rule utf8_valid_ascii) code_simp
  from json_textD(1) [OF assms this minimal_spec_read] have "jl_read jl minimal_spec_text = Some (JObject
    [(''name'', JString ''edge''), (''public_key'', JString ''abc''), (''endpoint'', JString ''vpn.example.com:51820''),
     (''addresses'', strings_json [''10.0.0.2/24'']), (''allowed_ips'', strings_json [''0.0.0.0/0''])])"
    by (simp add: strings_json_def utf8_valid_ascii)
  then show ?thesis
    by (simp add: server_spec_optional_fields_default_def read_as_def ok_or_def spec_of_json_def spec_names_def)
qed

lemma server_spec_requires_addresses_passes:
  assumes "json_text jl"
  shows "server_spec_requires_addresses jl"
proof -
  have "utf8_valid no_addresses_text" by (rule utf8_valid_ascii) code_simp
  from json_textD(1) [OF assms this no_addresses_read] have "jl_read jl no_addresses_text = Some (JObject
    [(''name'', JString ''edge''), (''public_key'', JString ''abc''), (''endpoint'', JString ''vpn.example.com:51820''),
     (''allowed_ips'', strings_json [''0.0.0.0/0''])])"
    by (simp add: strings_json_def utf8_valid_ascii)
  then show ?thesis
    by (simp add: server_spec_requires_addresses_def read_as_def ok_or_def spec_of_json_def spec_names_def)
qed

text \<open>\<open>from_str(&to_string(x).unwrap()).unwrap()\<close>.\<close>

lemma read_as_text:
  assumes "json_text jl" "representable j" "json_depth j < 128" "f j = Some x"
  shows "read_as jl ty f (jl_compact jl j) = Inr x"
  using json_textD(1) [OF assms(1) utf8_valid_compact [OF assms(2)] read_json_compact [OF assms(2), of "[]", simplified]]
    json_textD(2) [OF assms(1,2)] assms by (simp add: read_as_def ok_or_def)

definition wire_spec :: server_spec where
  "wire_spec =
     \<lparr>spec_name = ''edge'', spec_private_key = None, spec_public_key = ''abc'',
      spec_endpoint = ''vpn.example.com:51820'', spec_addresses = [''10.0.0.2/24''],
      spec_allowed_ips = [''0.0.0.0/0''], spec_listen_port = None, spec_mtu = None,
      spec_keepalive = Some 25, spec_preshared_key = None, spec_dns = []\<rparr>"

definition request_round_trips :: "json_lib \<Rightarrow> request \<Rightarrow> bool" where
  "request_round_trips jl req \<longleftrightarrow>
     (let wire = jl_compact jl (request_json req)
      in unwraps (read_as jl ''Request'' request_of_json wire) (\<lambda>back. back = req))"

definition add_server_round_trips :: "json_lib \<Rightarrow> bool" where
  "add_server_round_trips jl \<longleftrightarrow> request_round_trips jl (ReqAddServer wire_spec)"

definition edit_server_round_trips :: "json_lib \<Rightarrow> bool" where
  "edit_server_round_trips jl \<longleftrightarrow> request_round_trips jl (ReqEditServer wire_spec)"

lemma request_round_trips_if:
  assumes "json_text jl" "representable (request_json req)"
  shows "request_round_trips jl req"
  using read_as_text [where f = request_of_json, OF assms _ request_roundtrip] depth_request [of req]
  by (simp add: request_round_trips_def)

lemma wire_spec_representable: "representable (JObject (spec_fields wire_spec))"
  by (simp add: spec_fields_def wire_spec_def opt_json_def strings_json_def uint_json_def utf8_valid_ascii)

lemma add_server_round_trips_passes: "json_text jl \<Longrightarrow> add_server_round_trips jl"
  unfolding add_server_round_trips_def
  by (rule request_round_trips_if)
    (use wire_spec_representable in \<open>simp_all add: request_json_def tagged_def utf8_valid_ascii\<close>)

lemma edit_server_round_trips_passes: "json_text jl \<Longrightarrow> edit_server_round_trips jl"
  unfolding edit_server_round_trips_def
  by (rule request_round_trips_if)
    (use wire_spec_representable in \<open>simp_all add: request_json_def tagged_def utf8_valid_ascii\<close>)

definition server_detail_has_no_secret_field_names :: "json_lib \<Rightarrow> bool" where
  "server_detail_has_no_secret_field_names jl \<longleftrightarrow>
     (let det = \<lparr>detail_name = ''edge'', detail_public_key = ''abc'', detail_endpoint = ''vpn.example.com:51820'',
            detail_addresses = [''10.0.0.2/24''], detail_allowed_ips = [''0.0.0.0/0''], detail_listen_port = None,
            detail_mtu = None, detail_keepalive = Some 25, detail_has_preshared_key = True, detail_dns = []\<rparr>;
          json = jl_compact jl (detail_json det)
      in \<not> str_contains json ''private_key'' \<and> \<not> str_contains json ''\"preshared_key\"''
         \<and> str_contains json ''has_preshared_key'')"

lemma server_detail_has_no_secret_field_names_passes:
  assumes "json_text jl"
  shows "server_detail_has_no_secret_field_names jl"
  by (simp add: server_detail_has_no_secret_field_names_def json_textD(2) [OF assms] detail_json_def strings_json_def
      opt_json_def uint_json_def utf8_valid_ascii) code_simp

definition response_cases :: "response list" where
  "response_cases =
     [RespDisconnected,
      RespServers [\<lparr>info_name = ''nexus'', info_endpoint = ''vpn.example.com:51820'',
        info_addresses = [''10.0.0.2/24''], info_public_key = ''pubkey'', info_active = True,
        info_state = Some Alive\<rparr>],
      RespSwitched ''nexus'',
      RespServerDetail \<lparr>detail_name = ''nexus'', detail_public_key = ''peerkey'',
        detail_endpoint = ''vpn.example.com:51820'', detail_addresses = [''10.0.0.2/24''],
        detail_allowed_ips = [''0.0.0.0/0''], detail_listen_port = None, detail_mtu = None,
        detail_keepalive = Some 25, detail_has_preshared_key = False, detail_dns = []\<rparr>,
      RespError ''boom'']"

definition responses_round_trip :: "json_lib \<Rightarrow> bool" where
  "responses_round_trip jl \<longleftrightarrow>
     list_all (\<lambda>resp.
       let wire = jl_compact jl (response_json resp)
       in unwraps (read_as jl ''Response'' response_of_json wire)
            (\<lambda>back. jl_compact jl (response_json back) = wire)) response_cases"

lemma response_cases_representable: "list_all (\<lambda>resp. representable (response_json resp)) response_cases"
  by (simp add: response_cases_def response_json_def tagged_def info_json_def detail_json_def strings_json_def
      opt_json_def uint_json_def conn_state_json_def utf8_valid_ascii)

lemma responses_round_trip_passes:
  assumes "json_text jl"
  shows "responses_round_trip jl"
  unfolding responses_round_trip_def
proof (rule list.pred_mono_strong [OF response_cases_representable])
  fix resp assume "representable (response_json resp)"
  from read_as_text [where f = response_of_json, OF assms this _ response_roundtrip] depth_response [of resp]
  show "let wire = jl_compact jl (response_json resp)
      in unwraps (read_as jl ''Response'' response_of_json wire) (\<lambda>back. jl_compact jl (response_json back) = wire)"
    by simp
qed

subsection \<open>The routes of \<open>ip -j\<close>\<close>

text \<open>\<open>Firewall_Tests\<close> has this test for any reader of the entries; here for the one the code derives.\<close>

lemma ip_route_json_read: "read_json ip_route_json = Some (JArray
    [JObject [(''dst'', JString ''192.168.1.0/24''), (''protocol'', JString ''static''), (''scope'', JString ''link''),
       (''flags'', JArray [])],
     JObject [(''dst'', JString ''10.5.5.5''), (''protocol'', JString ''static''), (''scope'', JString ''link''),
       (''flags'', JArray [])],
     JObject [(''dst'', JString ''default''), (''protocol'', JString ''static''), (''flags'', JArray [])]])"
  by code_simp

lemma ip_route_json_decoded:
  assumes "json_text jl"
  shows "route_dec jl ip_route_json = Inr [Some ''192.168.1.0/24'', Some ''10.5.5.5'', Some ''default'']"
proof -
  have "utf8_valid ip_route_json" by (rule utf8_valid_ascii) code_simp
  from json_textD(1) [OF assms this ip_route_json_read] show ?thesis
    by (simp add: route_dec_def read_as_def ok_or_def utf8_valid_ascii of_array_def route_entry_of_json_def of_opt_def)
qed

lemma ip_route_json_on_the_wire:
  assumes "json_text jl" "crate_fixtures dg kp ko"
  shows "ip_route_json_yields_the_prefixes_it_lists dg (route_dec jl)"
  by (rule ip_route_json_yields_the_prefixes_it_lists_passes [where dec = "route_dec jl", OF assms(2) ip_route_json_decoded [OF assms(1)]])

text \<open>And so the request without a query, which \<open>Server_Tests\<close> leaves to the codec.\<close>

lemma list_servers_line_read: "read_json list_servers_line = Some (JObject [(''ListServers'', JObject [])])"
  by code_simp

lemma valid_request_line_on_the_wire:
  assumes "json_text jl"
  shows "a_valid_request_line_is_dispatched dp (wire jl) ev"
proof (rule a_valid_request_line_is_dispatched_passes)
  have "utf8_valid list_servers_line" by (rule utf8_valid_ascii) code_simp
  from json_textD(1) [OF assms this list_servers_line_read]
  show "cd_dec_request (wire jl) list_servers_line = Inr (ReqListServers None)"
    by (simp add: wire_def read_as_def ok_or_def utf8_valid_ascii request_of_json_def of_variant_def of_struct_def
        required_def defaulted_def)
qed

end
