(* ===== verification/Wire_Leak_Tests.thy ===== *)
theory Wire_Leak_Tests
  imports Wire_Tests
begin

section \<open>The tests that look for keys in the JSON\<close>

text \<open>
  Three tests search the text of an answer for a key that was generated. What is known of the
  generated keys is that they are base64 of 32 bytes, and which of them differ.
\<close>

definition key_shaped :: "'k defguard \<Rightarrow> 'k \<Rightarrow> bool" where
  "key_shaped dg k \<longleftrightarrow> list_all base64_char (key_to_string dg k) \<and> length (key_to_string dg k) = 44"

definition plain_char :: "char \<Rightarrow> bool" where
  "plain_char c \<longleftrightarrow> 32 \<le> (of_char c :: nat) \<and> (of_char c :: nat) < 127 \<and> c \<noteq> CHR 0x22 \<and> c \<noteq> CHR 0x5C"

definition harmless :: "string \<Rightarrow> string \<Rightarrow> bool" where
  "harmless k t \<longleftrightarrow> list_all plain_char t \<and> \<not> sublist k t"

lemma base64_plain: "base64_char c \<Longrightarrow> plain_char c"
  by (auto simp: base64_char_def plain_char_def is_ascii_alphanumeric_def Let_def)

lemma plain_escape:
  assumes "plain_char c"
  shows "json_escape c = [c]"
proof -
  have "c \<notin> set [CHR 0x22, CHR 0x5C, CHR 0x08, CHR 0x09, CHR 0x0A, CHR 0x0C, CHR 0x0D]" "\<not> (of_char c :: nat) < 32"
    using assms by (auto simp: plain_char_def)
  then show ?thesis by (simp add: json_escape_def)
qed

lemma plain_text:
  assumes "list_all plain_char t"
  shows "json_escaped t = t" "utf8_valid t"
proof -
  show "json_escaped t = t" using assms by (induction t) (simp_all add: json_escaped_def plain_escape)
  have "(of_char c :: nat) < 128" if "plain_char c" for c using that by (simp add: plain_char_def)
  with assms show "utf8_valid t" by (simp add: list.pred_mono_strong utf8_valid_ascii)
qed

lemma harmless_short: "list_all plain_char t \<Longrightarrow> length t < length k \<Longrightarrow> harmless k t"
  using sublist_length_le [of k t] by (auto simp: harmless_def)

lemma harmless_other:
  assumes "list_all plain_char t" "length t = length k" "t \<noteq> k"
  shows "harmless k t"
  using assms by (auto simp: harmless_def sublist_def)

lemma harmless_words:
  assumes "list_all plain_char t" "CHR '' '' \<notin> set k" "t = join '' '' ws" "ws \<noteq> []" "list_all (\<lambda>w. length w < length k) ws"
  shows "harmless k t"
proof -
  have "k \<noteq> []" using assms(4,5) by (cases ws) auto
  with sublist_join [OF assms(2), of ws] have "\<not> sublist k t"
    using assms(3,5) sublist_length_le by (fastforce simp: list_all_iff)
  with assms(1) show ?thesis by (simp add: harmless_def)
qed

lemma leaves_representable [simp]:
  "representable (uint_json (w :: u64))" "representable (uint_json (v :: u32))" "representable (uint_json (u :: u16))"
  "representable (strings_json ss) \<longleftrightarrow> list_all utf8_valid ss" "representable (conn_state_json st)"
  using uint_lt2p [of w] uint_lt2p [of v] uint_lt2p [of u]
  by (auto simp: uint_json_def strings_json_def conn_state_json_def utf8_valid_ascii list.pred_map comp_def split: conn_state.split)

lemma opt_representable [simp]:
  "representable (opt_json f x) \<longleftrightarrow> (case x of None \<Rightarrow> True | Some y \<Rightarrow> representable (f y))"
  by (simp add: opt_json_def split: option.split)

lemma response_representable: "list_all utf8_valid (response_texts resp) \<Longrightarrow> representable (response_json resp)"
proof (cases resp)
  case (RespStatus s)
  then show "list_all utf8_valid (response_texts resp) \<Longrightarrow> ?thesis"
    by (auto simp: response_texts_def response_json_def tagged_def interface_status_json_def peer_status_json_def
        utf8_valid_ascii list_all_iff split: option.splits)
next
  case (RespServers l)
  then show "list_all utf8_valid (response_texts resp) \<Longrightarrow> ?thesis"
    by (auto simp: response_texts_def response_json_def tagged_def info_json_def utf8_valid_ascii list_all_iff
        split: option.splits)
next
  case (RespServerDetail d)
  then show "list_all utf8_valid (response_texts resp) \<Longrightarrow> ?thesis"
    by (auto simp: response_texts_def response_json_def tagged_def detail_json_def utf8_valid_ascii split: option.splits)
qed (auto simp: response_texts_def response_json_def tagged_def utf8_valid_ascii)

lemma json_hides:
  assumes "json_text jl" "key_like k" "representable j"
    and "\<And>t. t \<in> set (json_strings j) \<Longrightarrow> harmless k t \<or> length t \<le> 20 \<and> json_escaped t = t"
  shows "\<not> str_contains (jl_compact jl j) k"
proof
  assume "str_contains (jl_compact jl j) k"
  then have "sublist k (compact_json j)" using json_textD(2) [OF assms(1,3)] by (simp add: str_contains_iff)
  from key_in_text [OF assms(2,3) this] obtain t where t: "t \<in> set (json_strings j)" "sublist k (json_escaped t)" by blast
  from assms(4) [OF t(1)] show False
  proof
    assume "harmless k t"
    with t(2) plain_text(1) [of t] show False by (simp add: harmless_def)
  next
    assume "length t \<le> 20 \<and> json_escaped t = t"
    with t(2) key_not_short [OF assms(2), of t] show False by simp
  qed
qed

lemma harmless_utf8: "list_all (harmless k) ts \<Longrightarrow> list_all utf8_valid ts"
  using plain_text(2) by (auto simp: harmless_def list_all_iff)

lemma response_hides:
  assumes "json_text jl" "key_like k" "list_all (harmless k) (response_texts resp)"
  shows "\<not> str_contains (jl_compact jl (response_json resp)) k"
  using response_strings [of resp] assms(3)
  by (intro json_hides [OF assms(1,2) response_representable [OF harmless_utf8 [OF assms(3)]]]) (auto simp: list_all_iff)

lemma detail_hides:
  assumes "json_text jl" "key_like k" "list_all (harmless k) (response_texts (RespServerDetail d))"
  shows "\<not> str_contains (jl_compact jl (detail_json d)) k"
proof (rule json_hides [OF assms(1,2)])
  let ?j = "response_json (RespServerDetail d)"
  have j: "?j = JObject [(''ServerDetail'', detail_json d)]" by (simp add: response_json_def tagged_def)
  show "representable (detail_json d)"
    using response_representable [OF harmless_utf8 [OF assms(3)]] by (simp add: j)
  fix t assume "t \<in> set (json_strings (detail_json d))"
  then have "t \<in> set (json_strings ?j)" by (simp add: j)
  then show "harmless k t \<or> length t \<le> 20 \<and> json_escaped t = t"
    using response_strings [of "RespServerDetail d"] assms(3) by (auto simp: list_all_iff)
qed

subsection \<open>The tests\<close>

text \<open>The rest of this test, whose first assertions are in \<open>Config_Tests\<close>.\<close>

definition detail_omits_secrets_in_its_json :: "json_lib \<Rightarrow> 'k defguard \<Rightarrow> 'k \<Rightarrow> 'k \<Rightarrow> bool" where
  "detail_omits_secrets_in_its_json jl dg k psk \<longleftrightarrow>
     (let server = (sample_server dg k ''nexus'')\<lparr>sc_preshared_key := Some (generate_private_key dg psk)\<rparr>;
          det = detail server;
          json = jl_compact jl (detail_json det)
      in \<not> str_contains json (the (sc_preshared_key server)) \<and> \<not> str_contains json (sc_private_key server))"

text \<open>The loop of the daemon's test over the requests.\<close>

primrec answers_without ::
  "json_lib \<Rightarrow> ('k, fake) deps \<Rightarrow> 'k env \<Rightarrow> string list \<Rightarrow> request list \<Rightarrow> fake daemon \<Rightarrow> bool" where
  "answers_without jl dp ev keys [] d \<longleftrightarrow> True"
| "answers_without jl dp ev keys (req # reqs) d \<longleftrightarrow>
     answer dp ev req d (\<lambda>resp d'.
       let json = jl_compact jl (response_json resp)
       in list_all (\<lambda>k. \<not> str_contains json k) keys \<and> answers_without jl dp ev keys reqs d')"

definition the_private_key_never_appears_in_any_client_facing_response ::
  "json_lib \<Rightarrow> ('k, fake) deps \<Rightarrow> 'k env \<Rightarrow> 'k \<Rightarrow> 'k \<Rightarrow> bool" where
  "the_private_key_never_appears_in_any_client_facing_response jl dp ev k k' \<longleftrightarrow>
     (let secret = generate_private_key (dep_dg dp) k;
          psk = generate_private_key (dep_dg dp) k';
          spec = (test_spec ''nexus'')\<lparr>spec_private_key := Some secret, spec_preshared_key := Some psk\<rparr>
      in fresh_daemon dp (\<lambda>d.
        answer dp ev (ReqAddServer spec) d (\<lambda>_ d.
        answer dp ev (ReqSwitchServer ''nexus'') d (\<lambda>_ d.
          answers_without jl dp ev [secret, psk]
            [ReqListServers None, ReqStatus, ReqAddServer spec, ReqEditServer spec, ReqGetServer ''nexus''] d))))"

definition an_imported_private_key_never_appears_in_a_response ::
  "json_lib \<Rightarrow> ('k, fake) deps \<Rightarrow> 'k env \<Rightarrow> 'k \<Rightarrow> bool" where
  "an_imported_private_key_never_appears_in_a_response jl dp ev k \<longleftrightarrow>
     (let secret = generate_private_key (dep_dg dp) k;
          conf = unlines [''[Interface]'', ''PrivateKey = '' @ secret, ''Address = 10.0.0.2/24'', ''[Peer]'',
            ''PublicKey = '' @ peer_key_text, ''Endpoint = 198.51.100.10:51820'', ''AllowedIPs = 0.0.0.0/0'']
      in fresh_daemon dp (\<lambda>d.
        answer dp ev (ReqImportServer ''home'' conf) d (\<lambda>resp _.
          \<not> str_contains (jl_compact jl (response_json resp)) secret)))"

subsection \<open>The model passes them\<close>

text \<open>A key that differs from the peer's and from the own public key: what the answers may show.\<close>

definition unshown :: "'k defguard \<Rightarrow> 'k \<Rightarrow> 'k \<Rightarrow> 'k \<Rightarrow> bool" where
  "unshown dg kp own k \<longleftrightarrow> key_shaped dg k \<and> key_shaped dg own \<and> k \<noteq> kp \<and> k \<noteq> own"

lemma key_shapedD:
  assumes "key_shaped dg k"
  shows "key_like (key_to_string dg k)" "list_all plain_char (key_to_string dg k)" "length (key_to_string dg k) = 44"
    "base64_text (key_to_string dg k)" "CHR '' '' \<notin> set (key_to_string dg k)"
proof -
  note k = assms [unfolded key_shaped_def]
  show "key_like (key_to_string dg k)" "length (key_to_string dg k) = 44" using k by (simp_all add: key_like_def)
  show "list_all plain_char (key_to_string dg k)" using k base64_plain by (auto simp: list_all_iff)
  have "graphic c \<and> c \<noteq> CHR ''#'' \<and> c \<noteq> CHR '' ''" if "base64_char c" for c
    using that by (auto simp: base64_char_def is_ascii_alphanumeric_def graphic_def Let_def)
  with k show "base64_text (key_to_string dg k)" "CHR '' '' \<notin> set (key_to_string dg k)"
    by (auto simp: base64_text_def list_all_iff)
qed

lemma unshown_like: "unshown dg kp own k \<Longrightarrow> key_like (key_to_string dg k)"
  by (simp add: unshown_def key_shapedD(1))

lemma peer_text [simp]: "list_all plain_char peer_key_text" "length peer_key_text = 44"
  by (simp_all add: plain_char_def peer_key_text_def)

lemma unshown_harmless:
  assumes "crate_fixtures dg kp ko" "unshown dg kp own k"
  shows "harmless (key_to_string dg k) peer_key_text" "harmless (key_to_string dg k) (key_to_string dg own)"
    "list_all (harmless (key_to_string dg k)) [''nexus'', ''home'', ''wg0'', ''198.51.100.10:51820'',
      ''vpn.example.com:51820'', ''10.0.0.2/24'', ''0.0.0.0/0'', ''10.0.0.1'']"
proof -
  note u = assms(2) [unfolded unshown_def]
  have ok: "key_text_ok dg" using assms(1) by (simp add: crate_fixtures_def)
  have "peer_key_text \<noteq> key_to_string dg k"
    using u key_text_inj [OF ok, of kp k] fixture_keys(2) [OF assms(1)] by auto
  then show "harmless (key_to_string dg k) peer_key_text"
    using u key_shapedD(3) [of dg k] by (simp add: harmless_other)
  have "key_to_string dg own \<noteq> key_to_string dg k" using u key_text_inj [OF ok, of own k] by auto
  then show "harmless (key_to_string dg k) (key_to_string dg own)"
    using u key_shapedD(2,3) [of dg own] key_shapedD(3) [of dg k] by (simp add: harmless_other)
  have short: "list_all plain_char t \<Longrightarrow> length t < 44 \<Longrightarrow> harmless (key_to_string dg k) t" for t
    using u key_shapedD(3) [of dg k] by (simp add: harmless_short)
  show "list_all (harmless (key_to_string dg k)) [''nexus'', ''home'', ''wg0'', ''198.51.100.10:51820'',
      ''vpn.example.com:51820'', ''10.0.0.2/24'', ''0.0.0.0/0'', ''10.0.0.1'']"
    by (simp only: list.pred_inject) (intro conjI TrueI short; simp add: plain_char_def)
qed

lemma detail_omits_secrets_in_its_json_passes:
  assumes "json_text jl" "crate_fixtures dg kp ko" "unshown dg kp (key_public_key dg k) k" "unshown dg kp (key_public_key dg k) psk"
  shows "detail_omits_secrets_in_its_json jl dg k psk"
proof -
  let ?s = "(sample_server dg k ''nexus'')\<lparr>sc_preshared_key := Some (key_to_string dg psk)\<rparr>"
  have "\<not> str_contains (jl_compact jl (detail_json (detail ?s))) (key_to_string dg x)"
    if x: "unshown dg kp (key_public_key dg k) x" for x
  proof (rule detail_hides [OF assms(1)])
    show "key_like (key_to_string dg x)" by (rule unshown_like [OF x])
    show "list_all (harmless (key_to_string dg x)) (response_texts (RespServerDetail (detail ?s)))"
      using unshown_harmless [OF assms(2) x] by (simp add: response_texts_def detail_def sample_server_def)
  qed
  from this [OF assms(3)] this [OF assms(4)] show ?thesis
    by (simp add: detail_omits_secrets_in_its_json_def generate_private_key_def Let_def sample_server_def)
qed

text \<open>The texts of a list with one entry, of the status after a switch, and of the refusal of an edit.\<close>

lemma entry_harmless:
  assumes "crate_fixtures dg kp ko" "unshown dg kp (key_public_key dg k) x" "sc_private_key s = key_to_string dg k"
    "sc_name s = ''nexus'' \<or> sc_name s = ''home''" "sc_endpoint s = ''198.51.100.10:51820''"
    "sc_addresses s = [''10.0.0.2/24'']"
  shows "list_all (harmless (key_to_string dg x)) (response_texts (RespServers [list_entry dg now c live s]))"
  using unshown_harmless [OF assms(1,2)] assms(4-6) entry_of_fixture [OF assms(1,3), of now c live]
  by (auto simp: response_texts_def Let_def)

definition refusal :: string where
  "refusal = ''server '' @ quoted ''nexus'' @ '' is the active tunnel; disconnect or switch away before editing''"

lemma refusal_plain: "list_all plain_char refusal"
  by (simp add: plain_char_def quoted_def refusal_def)

lemma refusal_words: "refusal = join '' '' [''server'', quoted ''nexus'', ''is'', ''the'', ''active'', ''tunnel;'',
    ''disconnect'', ''or'', ''switch'', ''away'', ''before'', ''editing'']"
  by (simp add: quoted_def refusal_def)

lemma refusal_harmless:
  assumes "unshown dg kp own x"
  shows "harmless (key_to_string dg x) refusal"
proof (rule harmless_words [OF refusal_plain _ refusal_words])
  have x: "key_shaped dg x" using assms by (simp add: unshown_def)
  show "CHR '' '' \<notin> set (key_to_string dg x)" by (rule key_shapedD(5) [OF x])
  show "list_all (\<lambda>w. length w < length (key_to_string dg x)) [''server'', quoted ''nexus'', ''is'', ''the'', ''active'',
      ''tunnel;'', ''disconnect'', ''or'', ''switch'', ''away'', ''before'', ''editing'']"
    by (simp add: key_shapedD(3) [OF x] quoted_def)
qed simp

definition status_shown :: "'k env \<Rightarrow> fake daemon \<Rightarrow> interface_status" where
  "status_shown ev d =
     \<lparr>is_name = ''wg0'', is_listen_port = 51820,
      is_peers = map (peer_status_of (env_now ev) (is_connecting ev d))
        [\<lparr>lp_public_key = peer_key_text, lp_endpoint = Some ''198.51.100.10:51820'', lp_allowed_ips = [''0.0.0.0/0''],
          lp_last_handshake = None, lp_rx_bytes = 100, lp_tx_bytes = 200\<rparr>]\<rparr>"

lemma status_harmless:
  assumes "crate_fixtures dg kp ko" "unshown dg kp own x"
  shows "list_all (harmless (key_to_string dg x)) (response_texts (RespStatus (status_shown ev d)))"
  using unshown_harmless [OF assms]
  by (simp add: response_texts_def status_shown_def peer_status_of_def Let_def)

lemma answer_list_all:
  assumes "test_world dp ev kp ko"
  shows "answer dp e (ReqListServers None) d P \<longleftrightarrow> P (RespServers (fst (list_servers dp e d))) d"
  by (simp add: answer_def fake_reads(1) [OF assms])

text \<open>The server with both keys, and the daemon as the test goes on: added, switched to, added again.\<close>

definition secret_spec :: "'k defguard \<Rightarrow> 'k \<Rightarrow> 'k \<Rightarrow> server_spec" where
  "secret_spec dg k k' = (test_spec ''nexus'')\<lparr>spec_private_key := Some (key_to_string dg k),
     spec_preshared_key := Some (key_to_string dg k')\<rparr>"

definition secret_server :: "'k defguard \<Rightarrow> 'k \<Rightarrow> 'k \<Rightarrow> server_config" where
  "secret_server dg k k' =
     tunnel (secret_spec dg k k') (SockV4 0xC633640A 51820) (key_to_string dg k) (Some (key_to_string dg k'))"

definition secret_added :: "('k, fake) deps \<Rightarrow> 'k \<Rightarrow> 'k \<Rightarrow> fake daemon" where
  "secret_added dp k k' = stored dp \<lparr>servers = [secret_server (dep_dg dp) k k']\<rparr> fresh_state"

definition secret_up :: "('k, fake) deps \<Rightarrow> 'k env \<Rightarrow> 'k \<Rightarrow> 'k \<Rightarrow> fake daemon" where
  "secret_up dp ev k k' = mark_connecting ev ((secret_added dp k k')\<lparr>d_wg := fake_default\<lparr>fk_calls := [''switch:nexus''],
     fk_last_switch_addresses := [''10.0.0.2/24''],
     fk_live_pubkey := Some (key_to_string (dep_dg dp) (key_public_key (dep_dg dp) k)),
     fk_live_peers := Some [\<lparr>fp_public_key = peer_key_text, fp_last_handshake = None\<rparr>]\<rparr>\<rparr>)"

definition secret_again :: "('k, fake) deps \<Rightarrow> 'k env \<Rightarrow> 'k \<Rightarrow> 'k \<Rightarrow> fake daemon" where
  "secret_again dp ev k k' = stored dp \<lparr>servers = [secret_server (dep_dg dp) k k']\<rparr> (secret_up dp ev k k')"

lemma secret_server_fields [simp]:
  "sc_name (secret_server dg k k') = ''nexus''" "sc_private_key (secret_server dg k k') = key_to_string dg k"
  "sc_public_key (secret_server dg k k') = peer_key_text" "sc_endpoint (secret_server dg k k') = ''198.51.100.10:51820''"
  "sc_addresses (secret_server dg k k') = [''10.0.0.2/24'']" "sc_allowed_ips (secret_server dg k k') = [''0.0.0.0/0'']"
  "sc_dns (secret_server dg k k') = []"
  by (simp_all add: secret_server_def secret_spec_def tunnel_def server_of_spec_def test_spec_def)

lemma secret_fields [simp]:
  "d_cfg (secret_added dp k k') = \<lparr>servers = [secret_server (dep_dg dp) k k']\<rparr>"
  "d_cfg (secret_up dp ev k k') = \<lparr>servers = [secret_server (dep_dg dp) k k']\<rparr>"
  "d_cfg (secret_again dp ev k k') = \<lparr>servers = [secret_server (dep_dg dp) k k']\<rparr>"
  "d_wg (secret_again dp ev k k') = d_wg (secret_up dp ev k k')"
  by (simp_all add: secret_added_def secret_up_def secret_again_def mark_connecting_def)

lemma secret_live: "fake_live (d_wg (secret_up dp ev k k')) = Some
    \<lparr>li_name = ''wg0'', li_public_key = Some (key_to_string (dep_dg dp) (key_public_key (dep_dg dp) k)),
     li_listen_port = 51820, li_peers =
       [\<lparr>lp_public_key = peer_key_text, lp_endpoint = Some ''198.51.100.10:51820'', lp_allowed_ips = [''0.0.0.0/0''],
         lp_last_handshake = None, lp_rx_bytes = 100, lp_tx_bytes = 200\<rparr>]\<rparr>"
  by (simp add: secret_up_def mark_connecting_def fake_live_def)

lemma secret_steps:
  assumes "test_world dp ev kp ko"
  shows "answer dp ev (ReqAddServer (secret_spec (dep_dg dp) k k')) fresh_state P
      \<longleftrightarrow> P (RespServers (fst (list_servers dp ev (secret_added dp k k')))) (secret_added dp k k')"
    and "answer dp ev (ReqSwitchServer ''nexus'') (secret_added dp k k') P
      \<longleftrightarrow> P (RespSwitched ''nexus'') (secret_up dp ev k k')"
    and "answer dp ev (ReqAddServer (secret_spec (dep_dg dp) k k')) (secret_up dp ev k k') P
      \<longleftrightarrow> P (RespServers (fst (list_servers dp ev (secret_again dp ev k k')))) (secret_again dp ev k k')"
proof -
  let ?spec = "secret_spec (dep_dg dp) k k'"
  have f: "fixture_spec (dep_dg dp) ?spec (SockV4 0xC633640A 51820)" by (auto simp: fixture_spec_defs secret_spec_def)
  have s: "tunnel ?spec (SockV4 0xC633640A 51820) (key_to_string (dep_dg dp) k) (spec_preshared_key ?spec)
      = secret_server (dep_dg dp) k k'" by (simp add: secret_server_def secret_spec_def)
  show "answer dp ev (ReqAddServer ?spec) fresh_state P
      \<longleftrightarrow> P (RespServers (fst (list_servers dp ev (secret_added dp k k')))) (secret_added dp k k')"
    using fresh_added [OF assms f, of k P] unfolding s by (simp add: Let_def secret_added_def secret_spec_def)
  have found: "find_server (d_cfg (secret_added dp k k')) ''nexus'' = Some (secret_server (dep_dg dp) k k')"
    by (simp add: find_server_def)
  from tunnel_switched [OF assms this [unfolded secret_server_def], of ev P] show
    "answer dp ev (ReqSwitchServer ''nexus'') (secret_added dp k k') P \<longleftrightarrow> P (RespSwitched ''nexus'') (secret_up dp ev k k')"
    by (simp add: test_endpoints secret_up_def secret_spec_def) (simp add: secret_added_def)
  show "answer dp ev (ReqAddServer ?spec) (secret_up dp ev k k') P
      \<longleftrightarrow> P (RespServers (fst (list_servers dp ev (secret_again dp ev k k')))) (secret_again dp ev k k')"
    using answer_add_spec [OF assms world_faults [OF assms] f, of k "secret_up dp ev k k'" P] unfolding s
    by (simp add: upsert_server_def Let_def secret_again_def secret_spec_def)
qed

lemma secret_reads:
  assumes "test_world dp ev kp ko"
  shows "answer dp ev ReqStatus (secret_up dp ev k k') P
      \<longleftrightarrow> P (RespStatus (status_shown ev (secret_up dp ev k k'))) (secret_up dp ev k k')"
    and "answer dp ev (ReqEditServer (secret_spec (dep_dg dp) k k')) (secret_again dp ev k k') P
      \<longleftrightarrow> P (RespError refusal) (secret_again dp ev k k')"
    and "answer dp ev (ReqGetServer ''nexus'') (secret_again dp ev k k') P
      \<longleftrightarrow> P (RespServerDetail (detail (secret_server (dep_dg dp) k k'))) (secret_again dp ev k k')"
proof -
  show "answer dp ev ReqStatus (secret_up dp ev k k') P
      \<longleftrightarrow> P (RespStatus (status_shown ev (secret_up dp ev k k'))) (secret_up dp ev k k')"
    by (simp add: answer_status [OF assms] secret_live status_shown_def)
  have "edit_server dp ev (secret_spec (dep_dg dp) k k') (secret_again dp ev k k') = (Inl refusal, secret_again dp ev k k')"
    using fake_reads(2) [OF assms, of "secret_again dp ev k k'"] fixture_own_key [OF world_fixtures [OF assms], of k]
    by (simp add: edit_server_def bindS_def Let_def find_server_def refusal_def secret_live)
      (simp add: secret_spec_def find_server_def refusal_def)
  then show "answer dp ev (ReqEditServer (secret_spec (dep_dg dp) k k')) (secret_again dp ev k k') P
      \<longleftrightarrow> P (RespError refusal) (secret_again dp ev k k')"
    by (simp add: answer_def reply_servers_def)
  show "answer dp ev (ReqGetServer ''nexus'') (secret_again dp ev k k') P
      \<longleftrightarrow> P (RespServerDetail (detail (secret_server (dep_dg dp) k k'))) (secret_again dp ev k k')"
    by (simp add: answer_def get_server_def find_server_def)
qed

lemma the_private_key_never_appears_in_any_client_facing_response_passes:
  assumes "json_text jl" "test_world dp ev kp ko"
    and "unshown (dep_dg dp) kp (key_public_key (dep_dg dp) k) k"
    and "unshown (dep_dg dp) kp (key_public_key (dep_dg dp) k) k'"
  shows "the_private_key_never_appears_in_any_client_facing_response jl dp ev k k'"
proof -
  let ?keys = "[key_to_string (dep_dg dp) k, key_to_string (dep_dg dp) k']"
  note x = world_fixtures [OF assms(2)]
  have hidden: "list_all (\<lambda>t. \<not> str_contains (jl_compact jl (response_json resp)) t) ?keys"
    if "\<And>y. unshown (dep_dg dp) kp (key_public_key (dep_dg dp) k) y \<Longrightarrow>
      list_all (harmless (key_to_string (dep_dg dp) y)) (response_texts resp)" for resp
    using response_hides [OF assms(1) unshown_like [OF assms(3)] that [OF assms(3)]]
      response_hides [OF assms(1) unshown_like [OF assms(4)] that [OF assms(4)]] by simp
  have list: "list_all (\<lambda>t. \<not> str_contains (jl_compact jl (response_json (RespServers (fst (list_servers dp ev d))))) t) ?keys"
    if "d_cfg d = \<lparr>servers = [secret_server (dep_dg dp) k k']\<rparr>" for d
    using that entry_harmless [OF x] by (intro hidden) (simp add: fake_reads(1) [OF assms(2)])
  have status: "list_all (\<lambda>t. \<not> str_contains (jl_compact jl (response_json (RespStatus (status_shown ev d)))) t) ?keys" for d
    by (rule hidden) (rule status_harmless [OF x])
  have refused: "list_all (\<lambda>t. \<not> str_contains (jl_compact jl (response_json (RespError refusal))) t) ?keys"
    using refusal_harmless by (intro hidden) simp
  have got: "list_all (\<lambda>t. \<not> str_contains (jl_compact jl (response_json
      (RespServerDetail (detail (secret_server (dep_dg dp) k k'))))) t) ?keys"
    using unshown_harmless [OF x] by (intro hidden) (simp add: response_texts_def detail_def)
  show ?thesis
    unfolding the_private_key_never_appears_in_any_client_facing_response_def Let_def loaded_fresh
      generate_private_key_def secret_spec_def [symmetric] secret_steps [OF assms(2)] answers_without.simps
      answer_list_all [OF assms(2)] secret_reads [OF assms(2)]
    using list [of "secret_up dp ev k k'"] list [of "secret_again dp ev k k'"] status refused got by simp
qed

lemma an_imported_private_key_never_appears_in_a_response_passes:
  assumes "json_text jl" "test_world dp ev kp ko" "unshown (dep_dg dp) kp (key_public_key (dep_dg dp) k) k"
  shows "an_imported_private_key_never_appears_in_a_response jl dp ev k"
proof -
  let ?text = "key_to_string (dep_dg dp) k"
  have "base64_text ?text" using assms(3) by (simp add: unshown_def key_shapedD(4))
  note i = answer_import [OF parse_valid_conf [OF this]]
  let ?spec = "\<lparr>spec_name = ''home'', spec_private_key = Some ?text, spec_public_key = peer_key_text,
      spec_endpoint = ''198.51.100.10:51820'', spec_addresses = [''10.0.0.2/24''],
      spec_allowed_ips = [''0.0.0.0/0''], spec_listen_port = None, spec_mtu = None, spec_keepalive = None,
      spec_preshared_key = None, spec_dns = []\<rparr>"
  have f: "fixture_spec (dep_dg dp) ?spec (SockV4 0xC633640A 51820)" by (simp add: fixture_spec_defs)
  note a = fresh_added [OF assms(2) f, of k]
  have "list_all (harmless ?text) (response_texts (RespServers (fst (list_servers dp ev
      (stored dp \<lparr>servers = [tunnel ?spec (SockV4 0xC633640A 51820) ?text None]\<rparr> fresh_state)))))"
    using entry_harmless [OF world_fixtures [OF assms(2)] assms(3)] by (simp add: fake_reads(1) [OF assms(2)])
  note h = response_hides [OF assms(1) unshown_like [OF assms(3)] this]
  show ?thesis
    unfolding an_imported_private_key_never_appears_in_a_response_def Let_def loaded_fresh valid_conf_def [symmetric]
      i spec_of_conf_def
    using h by (simp add: a Let_def generate_private_key_def)
qed

text \<open>Keys of which all this is so, in the instance at the end of \<open>Daemon_Import_Tests\<close>.\<close>

lemma generated_shaped: "length (show_nat n) = 4 \<Longrightarrow> key_shaped test_dg (Generated n)"
proof -
  assume n: "length (show_nat n) = 4"
  have "base64_char c" if "is_digit 10 c" for c
    using that by (auto simp: base64_char_def is_ascii_alphanumeric_def is_digit_def digit_value_def Let_def split: if_splits)
  then have "list_all base64_char (show_nat n)" using show_nat_digits [of n] by (auto simp: list_all_iff)
  moreover have "list_all base64_char generated_prefix"
    by (simp add: generated_prefix_def list_all_iff base64_char_def is_ascii_alphanumeric_def)
  ultimately show ?thesis using n by (simp add: key_shaped_def test_dg_def generated_text_starts(1))
qed

lemma leak_instance:
  "unshown (dep_dg test_deps) Peer_Key (key_public_key (dep_dg test_deps) (Generated 2000)) (Generated 2000)"
  "unshown (dep_dg test_deps) Peer_Key (key_public_key (dep_dg test_deps) (Generated 2000)) (Generated 2001)"
proof -
  have "length (show_nat 2000) = 4" "length (show_nat 2001) = 4" "length (show_nat 3000) = 4"
    by (simp_all add: show_nat.simps)
  note shaped = this [THEN generated_shaped]
  show "unshown (dep_dg test_deps) Peer_Key (key_public_key (dep_dg test_deps) (Generated 2000)) (Generated 2000)"
    "unshown (dep_dg test_deps) Peer_Key (key_public_key (dep_dg test_deps) (Generated 2000)) (Generated 2001)"
    using shaped by (simp_all add: unshown_def test_deps_def) (simp_all add: test_dg_def)
qed

end
