(* ===== verification/Spec2Isabelle.thy ===== *)
theory Spec2Isabelle
  imports Daemon_Views Tunnel_Guard Timing Process Cli Desktop Wgconf_Tests Cli_Tests Server_Tests Wire_Leak_Tests
begin

text \<open>
  A verification development for wirefinder, a WireGuard client: a privileged daemon that owns
  the tunnels and their keys (\<open>daemon/\<close>), a command-line client (\<open>cli/\<close>), a desktop client
  (\<open>ui/src-tauri/\<close>) and the protocol they share (\<open>proto/\<close>).

  \<^bold>\<open>The parts and how they interact.\<close> A client turns a command into a request, writes it as one
  line of JSON to the daemon's socket and reads one line back (\<open>proto::request\<close>). The server
  (\<open>server.rs\<close>) takes one connection at a time, reads at most 64 KiB, and hands the request to
  \<open>Daemon::handle\<close> (\<open>daemon.rs\<close>). The daemon keeps a list of servers, each a complete tunnel with
  its private key (\<open>config.rs\<close>), and writes it to the state file after every change. Imports go
  through the wg-quick parser (\<open>wgconf.rs\<close>). A server is validated before it is stored. A switch
  goes through the trait \<open>Wireguard\<close>, which \<open>KernelWireguard\<close> implements by orchestrating the
  operations of the trait \<open>WgOps\<close>: the device, the routes, the packet filter and the resolver
  (\<open>wireguard.rs\<close>).

  \<^bold>\<open>The theories.\<close> In the order of their imports:
  \<^item> \<open>Prelude\<close>: results as sums, actions (a state to a result and a state) with their bind, the rule
    \<open>keeps\<close> for what a sequence of actions preserves, machine words.
  \<^item> \<open>Rust_Str\<close>, \<open>Rust_Path\<close>, \<open>Rust_Net\<close>: the parts of the standard library the code uses, on
    strings of UTF-8 bytes: trimming, splitting, lines, numbers, UTF-8, paths, IP and socket addresses
    with their printing and parsing. \<open>Net_Roundtrip\<close> shows that every printed socket address,
    IPv6 with its compressed and IPv4-mapped forms included, parses back.
  \<^item> \<open>Proto\<close>: \<open>proto/src/lib.rs\<close>; requests, responses, the list filter, the client side of the socket.
  \<^item> \<open>Defguard\<close>: what the code uses of the WireGuard crate, as the record \<open>defguard\<close> of parameters
    with named hypotheses and an instance that satisfies them. \<open>Keys\<close>: \<open>daemon/src/keys.rs\<close>.
  \<^item> \<open>Config\<close>: \<open>Config\<close> and \<open>ServerConfig\<close> of \<open>config.rs\<close> and their views; the locale
    \<open>named_store\<close> is the contract of a store of named entries, which \<open>Config\<close> provides.
  \<^item> \<open>Store\<close>, \<open>Crash_Safety\<close>: \<open>Store::save\<close> and \<open>load\<close> on a file system with a journal of directory
    changes, unsynced contents, failing operations and crashes; what a crash leaves after a save.
  \<^item> \<open>Wgconf\<close>: \<open>wgconf.rs\<close>; the parser with its two \<open>expect\<close> calls as panics.
  \<^item> \<open>Validate\<close>, \<open>Routes\<close>, \<open>Firewall\<close>, \<open>Kernel\<close>, \<open>Resolvconf\<close>: \<open>wireguard.rs\<close>; validation and endpoint
    resolution, split routes, the nftables script and what it does to packets, switching,
    disconnecting and the status, the recording backend of the tests, and the resolver reset. The
    locale \<open>filter_ops\<close> is what a switch keeps on any backend, given the packet filters it may load;
    \<open>tunnel_ops\<close> is the case where it may load any.
  \<^item> \<open>Daemon\<close>: \<open>daemon.rs\<close>; the state, the handlers, \<open>handle\<close>, and the invariant \<open>config_ok\<close>.
  \<^item> \<open>Fake_Wireguard\<close>: the locale \<open>wireguard_contract\<close>, what the daemon's policy relies on, and the
    fake backend of the daemon's tests, which provides it.
  \<^item> \<open>Daemon_Spec\<close>: the daemon as transitions of a map from names to servers, errors, durability, and the
    runs of requests, restarts and crashes (\<open>daemon_step\<close>).
  \<^item> \<open>Kernel_Contract\<close>: the real backend, \<open>KernelWireguard\<close> over \<open>KernelWgOps\<close>, provides the same
    contract where the crate and the programs it runs do what they document.
  \<^item> \<open>Firewall_Reading\<close>, \<open>Tunnel_Guard\<close>: the text given to \<open>nft\<close> determines the rules it loads, and the
    real backend with the tables of the packet filter in view after each of its operations.
  \<^item> \<open>Daemon_Views\<close>: what clients are told about the tunnel and what they are not.
  \<^item> \<open>Server\<close>: \<open>server.rs\<close> and \<open>main.rs\<close>; framing, dispatch, the accept loop, the set-up of the socket,
    and the socket between a client and the daemon.
  \<^item> \<open>Timing\<close>: the waits of \<open>handle_client\<close> and \<open>resolve_endpoint\<close>, with clients and name services that
    answer late or never.
  \<^item> \<open>Process\<close>: the signal handler of \<open>main.rs\<close>, and the lives of the process: starts, signals at any
    moment, exits, losses of power.
  \<^item> \<open>Json\<close>, \<open>Json_Roundtrip\<close>: JSON as values, the compact text of a value, a reader of texts, and that
    it reads what is written; what is relied on of \<open>serde_json\<close>, as the record \<open>json_lib\<close> of parameters
    with the hypothesis \<open>json_text\<close> and an instance.
  \<^item> \<open>Wire\<close>, \<open>Wire_Codec\<close>: for each type of the protocol and of the state file, what its declaration and the
    attributes of its fields make of it in JSON, both ways (\<open>T_json\<close> and \<open>T_of_json\<close>); the codecs
    that the daemon, its clients and the store use, and the socket with them.
  \<^item> \<open>Wire_Secrets\<close>: where a text that looks like a key can come from in the bytes of a reply.
  \<^item> \<open>Cli\<close>: \<open>cli/src/main.rs\<close>; arguments to requests, responses to text, \<open>main\<close>.
  \<^item> \<open>Ui\<close>, \<open>Desktop\<close>: \<open>ui/src-tauri/src/lib.rs\<close>; the commands, and the tray and the window with the runs
    of their events.
  \<^item> \<open>Literals\<close>, \<open>Crate_Fixtures\<close>: how functions on text are evaluated on literals, and the keys and
    prefixes of the tests (\<open>crate_fixtures\<close>, with an instance).
  \<^item> \<open>Wgconf_Tests\<close>, \<open>Cli_Tests\<close>, \<open>Wireguard_Tests\<close>, \<open>Firewall_Tests\<close>, \<open>Config_Tests\<close>, \<open>Server_Tests\<close>,
    \<open>Daemon_Tests\<close>: the unit tests of the repository, each a proposition about the model under the name
    of the test (\<open>fn t\<close> becomes \<open>t\<close>), and for each the lemma \<open>t_passes\<close>. Those of the daemon are proved in
    \<open>Daemon_Tests_Pass\<close> (listing, switching, the status), \<open>Daemon_Edit_Tests\<close> (adding, editing,
    restarting) and \<open>Daemon_Import_Tests\<close>, which ends with an instance of all they take for granted.
    \<open>Wire_Tests\<close> has the tests that look at the text of the JSON, \<open>Wire_Leak_Tests\<close> those that
    search it for a secret key.

  \<^bold>\<open>How state and operations are written.\<close> A struct is a record whose fields have a prefix for it, an
  enum a datatype, an integer a word of its width where it comes from outside. A method that can
  fail returns a sum, \<open>Inl\<close> the error; one with effects is an action, so that the effects
  before an error stay. A panic is a value of its own where the code has one. What comes from
  outside is an argument: the crate, the codecs, the clocks, the resolver, failing system calls.

  \<^bold>\<open>What is shown.\<close> A switch never takes down the tunnel or its packet filter,
  makes its kernel calls in one order and with the arguments of a plan (\<open>switch_plan\<close>, over the state the
  device is in), the mark of the device included, fails without a call on bad input, and succeeds for every
  configured server once the kernel does (C1, C10, C16, C17, C25, C26). What is acknowledged
  survives a crash, a save is all or nothing, and neither signals nor losses of power take the
  tunnel down or leave a state the next start refuses (C2 to C4). Every request is the map
  transition it names, keeps the invariant, is answered, and changes nothing when it fails but in
  one documented case (C5, C6, C8, C9, C28); what an edit and an import store is written out field by field
  (C7, C20). The parser accepts exactly what it can print and never
  panics (C11, C18; lemma \<open>wg_parse_never_panics\<close>); validation accepts exactly the well-formed (C21). The packet filter drops
  exactly spoofed packets, replaces the old one and has no hole during a switch (C12, C13, C23);
  routes end as they should and common ones are never missing, and exactly the prefixes that \<open>ip\<close> listed
  and nobody wants are deleted (C14, C15). Lists and status tell the truth about the tunnel, and do not depend on the secrets of servers that
  agree in their public fields (C27, C29, C30), and no text that looks like a key gets into the bytes of a reply but from a
  public field, from what the interface reports or from an error message (C22). What is written as JSON is read back as the same, one line at a time on the
  socket, and which objects are read as which server is stated exactly (C24, C19). The server does what its clients' requests say, in order, reads no more than 64
  KiB, is done with every client in bounded time, waits no more than five seconds for a lookup, and
  never exposes its socket (C31 to C36); the clients reach the daemon's handlers, through
  the JSON too, and understand every answer (C32, C37, C38, C40), and sizes are printed to the nearest tenth (C39). Beyond the
  numbered properties, the split routes cover exactly the wanted addresses (\<open>split_routes_cover\<close>), the
  resolver reset finds the first name of the right form (\<open>interface_order_prefix_first\<close>), and \<open>Desktop\<close> shows that the client exits exactly on "quit", that
  its menu keeps its entries and shows the last summary, and that every event that should bring up
  the window does.

  \<^bold>\<open>Bounds and fuel.\<close> Every loop of the code is structural recursion on a list or
  a function with a measure (trimming, digits, UTF-8 decoding), but for reading a request, whose loop
  need not end without the limit of 65536 bytes: it is a \<open>partial_function\<close> into options, and C34 shows
  that it returns within 65536 timeouts. \<open>serve\<close> runs over the list of the connections accepted so far; a
  longer list extends the run. IPv6 parsing recurses on the number of groups that may follow, eight at
  first, as the code's loop does. Fuel is used in one place, the reader of JSON, which is no code of the
  program but the reference for what its library reads: each step takes a character, its fuel is one more
  than the length of the text, and \<open>read_json_compact\<close> shows that this is enough for whatever is written.

  \<^bold>\<open>Not modelled.\<close> The code of \<open>serde_json\<close>, of which \<open>json_text\<close> states what is relied on: that it writes the
  compact text, that it reads what the reader of \<open>Json\<close> reads, up to its limit of 127 levels, and that what it
  writes with indentation it reads back. What the derivations of serde generate is written out
  in \<open>Wire\<close> from the declarations. The Unicode tables of \<open>to_lowercase\<close> and of \<open>Debug\<close>; the WireGuard crate,
  Tauri, and the programs \<open>ip\<close>, \<open>nft\<close> and \<open>resolvconf\<close>: these are parameters. Time passes only in
  \<open>Timing\<close>; elsewhere a timeout is the error it causes. Messages on the daemon's standard error apart from the accept
  loop's and the signal handler's. The TypeScript frontend of the desktop client, which only
  presents. What \<open>resolvconf\<close> does is not carried through a whole switch as the device and the packet
  filter are; the times of a list entry have no bounds; and what a stalled client does to those
  queued behind it is not stated, only how long it can stall. A state directory that \<open>save\<close> has to
  create is durable as soon as it exists: its entry in the directory above is not modelled.
\<close>

end
